(* ===== verification/Prelude.thy ===== *)
theory Prelude
  imports Main "HOL-Library.Word"
begin

text \<open>
  The vocabulary the components share.

  \<^item> Machine integers: Go's \<open>int32\<close> and \<open>int64\<close> as words, read by \<open>sint\<close>.
  \<^item> Go errors as values: a plain error, an API-machinery status error that carries its
    reason, an error wrapped by \<open>fmt.Errorf("msg: %w", err)\<close>, and a nil dereference.
    \<open>err_text\<close> is the \<open>Error()\<close> method.
  \<^item> Effects: an operation on a state \<open>'s\<close> is a function \<open>'s \<Rightarrow> 'a \<times> 's\<close>; one that may
    return an error has a result in \<open>go_error + 'a\<close>. \<open>attempt\<close> is the statement
    \<open>if err := op(); err != nil { return fmt.Errorf("msg: %w", err) }\<close>, and \<open>keeps P\<close> says
    that an operation relates its states by \<open>P\<close> on every outcome.
\<close>

section \<open>Machine integers\<close>

type_synonym int32 = "32 word"
type_synonym int64 = "64 word"

section \<open>Errors as values\<close>

datatype reason = NotFound | AlreadyExists | Conflict | Invalid | OtherReason string

datatype go_error =
    ErrorString string
  | StatusError reason string
  | Wrapped string go_error
  | NilDereference

type_synonym 'a result = "go_error + 'a"

text \<open>\<open>apierrors.ReasonForError\<close> looks through wrapped errors for a status error.\<close>

primrec reason_of :: "go_error \<Rightarrow> reason option" where
  "reason_of (ErrorString m) = None"
| "reason_of (StatusError r m) = Some r"
| "reason_of (Wrapped m e) = reason_of e"
| "reason_of NilDereference = None"

definition is_not_found :: "go_error \<Rightarrow> bool" where
  "is_not_found e \<longleftrightarrow> reason_of e = Some NotFound"

definition is_already_exists :: "go_error \<Rightarrow> bool" where
  "is_already_exists e \<longleftrightarrow> reason_of e = Some AlreadyExists"

definition is_invalid :: "go_error \<Rightarrow> bool" where
  "is_invalid e \<longleftrightarrow> reason_of e = Some Invalid"

primrec err_text :: "go_error \<Rightarrow> string" where
  "err_text (ErrorString m) = m"
| "err_text (StatusError r m) = m"
| "err_text (Wrapped m e) = m @ '': '' @ err_text e"
| "err_text NilDereference = ''runtime error: invalid memory address or nil pointer dereference''"

lemma is_not_found_simps [simp]:
  "is_not_found (StatusError r m) \<longleftrightarrow> r = NotFound"
  "is_not_found (Wrapped m e) \<longleftrightarrow> is_not_found e"
  "\<not> is_not_found (ErrorString m)"
  "\<not> is_not_found NilDereference"
  by (simp_all add: is_not_found_def)

lemma not_found_exclusive:
  "is_not_found e \<Longrightarrow> \<not> is_already_exists e \<and> \<not> is_invalid e"
  by (simp add: is_not_found_def is_already_exists_def is_invalid_def)

section \<open>Effects that may fail\<close>

definition attempt ::
    "string \<Rightarrow> ('s \<Rightarrow> 'a result \<times> 's) \<Rightarrow> ('a \<Rightarrow> 's \<Rightarrow> 'b result \<times> 's) \<Rightarrow> 's \<Rightarrow> 'b result \<times> 's"
  where
  "attempt msg op k s =
     (case op s of
        (Inl e, s') \<Rightarrow> (Inl (Wrapped msg e), s')
      | (Inr a, s') \<Rightarrow> k a s')"

named_theorems keeps_intro "operations that relate their states by a given relation"

lemma attempt_ok [simp]: "op s = (Inr a, s') \<Longrightarrow> attempt msg op k s = k a s'"
  by (simp add: attempt_def)

lemma attempt_error [simp]: "op s = (Inl e, s') \<Longrightarrow> attempt msg op k s = (Inl (Wrapped msg e), s')"
  by (simp add: attempt_def)

lemma attempt_Inr_iff:
  "attempt msg op k s = (Inr b, t) \<longleftrightarrow> (\<exists>a s'. op s = (Inr a, s') \<and> k a s' = (Inr b, t))"
  by (auto simp: attempt_def split: prod.splits sum.splits)

definition keeps :: "('s \<Rightarrow> 's \<Rightarrow> bool) \<Rightarrow> ('s \<Rightarrow> 'a \<times> 's) \<Rightarrow> bool" where
  "keeps P op \<longleftrightarrow> (\<forall>s. P s (snd (op s)))"

lemma keepsI: "(\<And>s a t. op s = (a, t) \<Longrightarrow> P s t) \<Longrightarrow> keeps P op"
  by (simp add: keeps_def) (metis prod.collapse)

lemma keepsD: "keeps P op \<Longrightarrow> op s = (a, t) \<Longrightarrow> P s t"
  by (auto simp: keeps_def dest: spec [of _ s])

lemma keeps_attempt [keeps_intro]:
  assumes "transp P" and "keeps P op" and "\<And>a. keeps P (k a)"
  shows "keeps P (attempt msg op k)"
proof (rule keepsI)
  fix s r t
  assume run: "attempt msg op k s = (r, t)"
  obtain x s' where op: "op s = (x, s')" by (cases "op s")
  have first: "P s s'" by (rule keepsD [OF assms(2) op])
  show "P s t"
  proof (cases x)
    case (Inl e)
    with run op first show ?thesis by simp
  next
    case (Inr a)
    with run op have "k a s' = (r, t)" by simp
    then have "P s' t" by (rule keepsD [OF assms(3)])
    with first show ?thesis by (rule transpD [OF assms(1)])
  qed
qed

text \<open>
  When the first step relates its states by a weaker bookkeeping relation \<open>Q\<close> that \<open>P\<close>
  absorbs on the left, only the continuation has to establish \<open>P\<close>.
\<close>

lemma keeps_attempt_after:
  assumes "keeps Q op" and "\<And>a. keeps P (k a)"
    and "\<And>s t u. Q s t \<Longrightarrow> P t u \<Longrightarrow> P s u" and "\<And>s t. Q s t \<Longrightarrow> P s t"
  shows "keeps P (attempt msg op k)"
proof (rule keepsI)
  fix s r t
  assume run: "attempt msg op k s = (r, t)"
  obtain x s' where op: "op s = (x, s')" by (cases "op s")
  have first: "Q s s'" by (rule keepsD [OF assms(1) op])
  show "P s t"
  proof (cases x)
    case (Inl e)
    with run op first show ?thesis by (simp add: assms(4))
  next
    case (Inr a)
    with run op have "k a s' = (r, t)" by simp
    then have "P s' t" by (rule keepsD [OF assms(2)])
    with first show ?thesis by (rule assms(3))
  qed
qed

lemma keeps_return [keeps_intro]: "reflp P \<Longrightarrow> keeps P (\<lambda>s. (r, s))"
  by (rule keepsI) (auto dest: reflpD)

lemma keeps_if [keeps_intro]:
  "(b \<Longrightarrow> keeps P f) \<Longrightarrow> (\<not> b \<Longrightarrow> keeps P g) \<Longrightarrow> keeps P (if b then f else g)"
  by simp

end
