(* ===== verification/ApiTypes.thy ===== *)
theory ApiTypes
  imports Prelude
begin

text \<open>
  The API group \<open>observability.merlionos.org/v1\<close>: the Go structs of \<open>api/v1\<close> as records,
  field by field, in the source's order. A field \<open>F\<close> of a struct is named with a short
  prefix for its struct (\<open>bk_Bucket\<close> is \<open>S3BackupSpec.Bucket\<close>). Pointers to structs that may
  be nil are options; Go's maps are partial functions (a nil map reads as the empty one);
  the phase is a Go string type, so it may also be empty.

  Types of the Kubernetes libraries that the structs embed appear with the fields the
  operator reads or writes: object metadata, references to Secrets, label selectors and
  resource requirements. A \<open>resource.Quantity\<close> is its text; every operation on it is a
  parameter of the definitions that use it.
\<close>

section \<open>Library types the API embeds\<close>

type_synonym timestamp = int

datatype quantity = Quantity (quantity_text: string)

record owner_reference =
  or_Kind :: string
  or_Name :: string
  or_UID :: string
  or_Controller :: bool

record object_meta =
  Name :: string
  Namespace :: string
  UID :: string
  Labels :: "string \<rightharpoonup> string"
  Annotations :: "string \<rightharpoonup> string"
  Finalizers :: "string list"
  OwnerReferences :: "owner_reference list"
  DeletionTimestamp :: "timestamp option"
  ResourceVersion :: string

record local_object_reference =
  lor_Name :: string

record secret_key_selector =
  sks_Name :: string
  sks_Key :: string

record resource_requirements =
  Limits :: "string \<rightharpoonup> quantity"
  Requests :: "string \<rightharpoonup> quantity"

record label_requirement =
  lr_Key :: string
  lr_Operator :: string
  lr_Values :: "string list"

record label_selector =
  MatchLabels :: "string \<rightharpoonup> string"
  MatchExpressions :: "label_requirement list"

record condition =
  cond_Type :: string
  cond_Status :: string
  cond_Reason :: string
  cond_Message :: string

section \<open>PrometheusCluster\<close>

type_synonym cluster_phase = string

definition PhaseProvisioning :: cluster_phase where
  "PhaseProvisioning = ''Provisioning''"

definition PhaseActive :: cluster_phase where
  "PhaseActive = ''Active''"

definition PhaseScaling :: cluster_phase where
  "PhaseScaling = ''Scaling''"

definition PhaseFailed :: cluster_phase where
  "PhaseFailed = ''Failed''"

lemmas phase_defs = PhaseProvisioning_def PhaseActive_def PhaseScaling_def PhaseFailed_def

record s3_backup_spec =
  bk_Enabled :: bool
  bk_Bucket :: string
  bk_Region :: string
  bk_Endpoint :: string
  bk_Prefix :: string
  bk_Schedule :: string
  bk_CredentialsSecretRef :: "local_object_reference option"

record remote_write_spec =
  rw_URL :: string
  rw_Name :: string
  rw_BasicAuthSecretRef :: "local_object_reference option"
  rw_BearerTokenSecretRef :: "local_object_reference option"

record thanos_spec =
  th_Enabled :: bool
  th_Image :: string
  th_ObjectStorageConfigSecretRef :: "local_object_reference option"

record storage_spec =
  st_StorageClassName :: "string option"
  st_Size :: quantity

record additional_scrape_configs =
  asc_Inline :: string
  asc_SecretRef :: "secret_key_selector option"

record cluster_spec =
  sp_Replicas :: int32
  sp_Image :: string
  sp_Retention :: string
  sp_Storage :: storage_spec
  sp_Resources :: resource_requirements
  sp_Backup :: s3_backup_spec
  sp_RemoteWrite :: "remote_write_spec list"
  sp_Thanos :: thanos_spec
  sp_AdditionalScrapeConfigs :: "additional_scrape_configs option"

record cluster_status =
  cs_Conditions :: "condition list"
  cs_Phase :: cluster_phase
  cs_ReadyReplicas :: int32
  cs_LastBackupTime :: "timestamp option"
  cs_LastFailoverTime :: "timestamp option"

record prometheus_cluster =
  pc_Meta :: object_meta
  pc_Spec :: cluster_spec
  pc_Status :: cluster_status

section \<open>PrometheusClusterSet\<close>

record cluster_set_spec =
  css_ClusterSelector :: "label_selector option"
  css_NamespaceSelector :: "label_selector option"
  css_BackupTemplate :: "s3_backup_spec option"

record set_member =
  sm_Namespace :: string
  sm_Name :: string
  sm_Phase :: cluster_phase

record cluster_set_status =
  cst_Conditions :: "condition list"
  cst_MemberCount :: int32
  cst_PhaseCount :: "string \<rightharpoonup> int32"
  cst_Members :: "set_member list"

record prometheus_cluster_set =
  set_Meta :: object_meta
  set_Spec :: cluster_set_spec
  set_Status :: cluster_set_status

section \<open>Go's zero values\<close>

text \<open>
  The value of a struct literal that sets none of its fields; the literals of the source
  that set a few are updates of it.
\<close>

definition zero_meta :: object_meta where
  "zero_meta = \<lparr>Name = [], Namespace = [], UID = [], Labels = Map.empty, Annotations = Map.empty,
     Finalizers = [], OwnerReferences = [], DeletionTimestamp = None, ResourceVersion = []\<rparr>"

definition zero_resources :: resource_requirements where
  "zero_resources = \<lparr>Limits = Map.empty, Requests = Map.empty\<rparr>"

definition zero_backup :: s3_backup_spec where
  "zero_backup = \<lparr>bk_Enabled = False, bk_Bucket = [], bk_Region = [], bk_Endpoint = [],
     bk_Prefix = [], bk_Schedule = [], bk_CredentialsSecretRef = None\<rparr>"

definition zero_thanos :: thanos_spec where
  "zero_thanos = \<lparr>th_Enabled = False, th_Image = [], th_ObjectStorageConfigSecretRef = None\<rparr>"

definition zero_spec :: cluster_spec where
  "zero_spec = \<lparr>sp_Replicas = 0, sp_Image = [], sp_Retention = [],
     sp_Storage = \<lparr>st_StorageClassName = None, st_Size = Quantity ''0''\<rparr>,
     sp_Resources = zero_resources, sp_Backup = zero_backup, sp_RemoteWrite = [],
     sp_Thanos = zero_thanos, sp_AdditionalScrapeConfigs = None\<rparr>"

definition zero_status :: cluster_status where
  "zero_status = \<lparr>cs_Conditions = [], cs_Phase = [], cs_ReadyReplicas = 0,
     cs_LastBackupTime = None, cs_LastFailoverTime = None\<rparr>"

definition zero_cluster :: prometheus_cluster where
  "zero_cluster = \<lparr>pc_Meta = zero_meta, pc_Spec = zero_spec, pc_Status = zero_status\<rparr>"

lemmas zero_value_defs = zero_meta_def zero_resources_def zero_backup_def zero_thanos_def
  zero_spec_def zero_status_def zero_cluster_def

section \<open>Keys\<close>

text \<open>An object's key within its kind: its namespace and its name.\<close>

type_synonym namespaced_name = "string \<times> string"

definition meta_key :: "object_meta \<Rightarrow> namespaced_name" where
  "meta_key m = (Namespace m, Name m)"

definition pc_key :: "prometheus_cluster \<Rightarrow> namespaced_name" where
  "pc_key pc = meta_key (pc_Meta pc)"

end
