(* ===== verification/Metrics.thy ===== *)
theory Metrics
  imports ApiTypes
begin

text \<open>
  \<open>internal/metrics\<close>: the process-wide metric vectors. A vector is the partial map from the
  values of its labels to the value of that series; a series that was never touched, or was
  deleted, is absent. The only values the phase gauge is ever set to are \<open>0.0\<close> and \<open>1.0\<close>,
  written here as integers.
\<close>

record metrics =
  ClusterPhase :: "(string \<times> string \<times> string) \<rightharpoonup> int"
  BackupTotal :: "(string \<times> string \<times> string) \<rightharpoonup> nat"
  FailoverTotal :: "(string \<times> string) \<rightharpoonup> nat"
  AuditRecordTotal :: "(string \<times> string) \<rightharpoonup> nat"
  AuditPruneTotal :: int
  AuditRows :: int

definition no_metrics :: metrics where
  "no_metrics = \<lparr>ClusterPhase = Map.empty, BackupTotal = Map.empty, FailoverTotal = Map.empty,
     AuditRecordTotal = Map.empty, AuditPruneTotal = 0, AuditRows = 0\<rparr>"

text \<open>\<open>WithLabelValues(...).Inc()\<close> on a counter vector.\<close>

definition inc :: "('k \<rightharpoonup> nat) \<Rightarrow> 'k \<Rightarrow> ('k \<rightharpoonup> nat)" where
  "inc m k = m(k \<mapsto> (case m k of None \<Rightarrow> 1 | Some n \<Rightarrow> Suc n))"

definition counter :: "('k \<rightharpoonup> nat) \<Rightarrow> 'k \<Rightarrow> nat" where
  "counter m k = (case m k of None \<Rightarrow> 0 | Some n \<Rightarrow> n)"

lemma counter_inc [simp]: "counter (inc m k) k' = counter m k' + (if k' = k then 1 else 0)"
  by (simp add: counter_def inc_def split: option.splits)

definition Phases :: "string list" where
  "Phases = [''Provisioning'', ''Active'', ''Scaling'', ''Failed'']"

lemma Phases_eq: "set Phases = {PhaseProvisioning, PhaseActive, PhaseScaling, PhaseFailed}"
  by (simp add: Phases_def phase_defs)

fun set_phase_loop ::
    "string list \<Rightarrow> string \<Rightarrow> string \<Rightarrow> string \<Rightarrow> ((string \<times> string \<times> string) \<rightharpoonup> int) \<Rightarrow>
     ((string \<times> string \<times> string) \<rightharpoonup> int)" where
  "set_phase_loop [] ns cluster phase m = m"
| "set_phase_loop (p # ps) ns cluster phase m =
     (let v = (if p = phase then 1 else 0)
      in set_phase_loop ps ns cluster phase (m((ns, cluster, p) \<mapsto> v)))"

definition SetPhase :: "string \<Rightarrow> string \<Rightarrow> string \<Rightarrow> metrics \<Rightarrow> metrics" where
  "SetPhase ns cluster phase m =
     m\<lparr>ClusterPhase := set_phase_loop Phases ns cluster phase (ClusterPhase m)\<rparr>"

definition DeleteCluster :: "string \<Rightarrow> string \<Rightarrow> metrics \<Rightarrow> metrics" where
  "DeleteCluster ns cluster m =
     m\<lparr>ClusterPhase := (\<lambda>(n, c, p). if n = ns \<and> c = cluster then None else ClusterPhase m (n, c, p)),
       BackupTotal := (\<lambda>(n, c, r). if n = ns \<and> c = cluster then None else BackupTotal m (n, c, r)),
       FailoverTotal := (\<lambda>(n, c). if n = ns \<and> c = cluster then None else FailoverTotal m (n, c))\<rparr>"

section \<open>What the phase gauge reads after an update\<close>

lemma set_phase_loop_lookup:
  "distinct ps \<Longrightarrow> set_phase_loop ps ns cluster phase m (n, c, p) =
     (if n = ns \<and> c = cluster \<and> p \<in> set ps then Some (if p = phase then 1 else 0)
      else m (n, c, p))"
proof (induction ps arbitrary: m)
  case Nil
  then show ?case by simp
next
  case (Cons q ps)
  then show ?case by (auto simp: Let_def)
qed

lemma distinct_Phases: "distinct Phases"
  by (simp add: Phases_def)

lemma SetPhase_lookup:
  "ClusterPhase (SetPhase ns cluster phase m) (n, c, p) =
     (if n = ns \<and> c = cluster \<and> p \<in> set Phases then Some (if p = phase then 1 else 0)
      else ClusterPhase m (n, c, p))"
  unfolding SetPhase_def using set_phase_loop_lookup [OF distinct_Phases] by simp

lemma SetPhase_other_vectors [simp]:
  "BackupTotal (SetPhase ns cluster phase m) = BackupTotal m"
  "FailoverTotal (SetPhase ns cluster phase m) = FailoverTotal m"
  "AuditRecordTotal (SetPhase ns cluster phase m) = AuditRecordTotal m"
  by (simp_all add: SetPhase_def)

text \<open>
  The phase gauge is one-hot. After \<open>SetPhase\<close> with a phase of the API's enum, whatever
  the series were before, exactly one of the cluster's phase series reads 1, it is the one of
  the given phase, all the others read 0, and the series of every other cluster are as they
  were.
\<close>

theorem SetPhase_one_hot:
  assumes "phase \<in> {PhaseProvisioning, PhaseActive, PhaseScaling, PhaseFailed}"
  shows "let gauge = ClusterPhase (SetPhase ns cluster phase m) in
    filter (\<lambda>p. gauge (ns, cluster, p) = Some 1) Phases = [phase] \<and>
    filter (\<lambda>p. gauge (ns, cluster, p) = Some 0) Phases = filter (\<lambda>p. p \<noteq> phase) Phases \<and>
    (\<forall>n c p. (n, c) \<noteq> (ns, cluster) \<longrightarrow> gauge (n, c, p) = ClusterPhase m (n, c, p))"
  unfolding Let_def
proof (intro conjI)
  show "filter (\<lambda>p. ClusterPhase (SetPhase ns cluster phase m) (ns, cluster, p) = Some 1) Phases = [phase]"
    using assms by (auto simp: SetPhase_lookup Phases_def phase_defs)
  show "filter (\<lambda>p. ClusterPhase (SetPhase ns cluster phase m) (ns, cluster, p) = Some 0) Phases
      = filter (\<lambda>p. p \<noteq> phase) Phases"
    by (rule filter_cong) (auto simp: SetPhase_lookup)
  show "\<forall>n c p. (n, c) \<noteq> (ns, cluster) \<longrightarrow>
      ClusterPhase (SetPhase ns cluster phase m) (n, c, p) = ClusterPhase m (n, c, p)"
    by (auto simp: SetPhase_lookup)
qed

theorem SetPhase_one_hot_witness:
  "filter (\<lambda>p. ClusterPhase (SetPhase ''ns'' ''demo'' PhaseScaling no_metrics)
     (''ns'', ''demo'', p) = Some 1) Phases = [PhaseScaling]"
  using SetPhase_one_hot [of PhaseScaling "''ns''" "''demo''" no_metrics]
  by (simp add: Let_def)

end
