(* ===== verification/CoreTypes.thy ===== *)
theory CoreTypes
  imports ApiTypes
begin

text \<open>
  The Kubernetes objects the operator writes and reads, as records of the fields it sets or
  inspects: containers, volumes, pod templates, StatefulSets, Services, ConfigMaps, Pods and
  Namespaces. A field the operator never sets keeps its zero value and is left out.
\<close>

record volume_mount =
  vm_Name :: string
  vm_MountPath :: string
  vm_ReadOnly :: bool

text \<open>\<open>corev1.VolumeSource\<close> holds one non-nil pointer: here the ones the operator sets.\<close>

datatype volume_source = ConfigMapSource string | SecretSource string

record pod_volume =
  vol_Name :: string
  vol_Source :: volume_source

record container_port =
  cp_Name :: string
  cp_ContainerPort :: int32

text \<open>An environment variable whose value is a \<open>fieldRef\<close>.\<close>

record env_var =
  ev_Name :: string
  ev_FieldPath :: string

record http_get_action =
  hg_Path :: string
  hg_Port :: int32

record container =
  c_Name :: string
  c_Image :: string
  c_Args :: "string list"
  c_Env :: "env_var list"
  c_Ports :: "container_port list"
  c_ReadinessProbe :: "http_get_action option"
  c_LivenessProbe :: "http_get_action option"
  c_VolumeMounts :: "volume_mount list"
  c_Resources :: resource_requirements

record pod_spec =
  ps_Containers :: "container list"
  ps_Volumes :: "pod_volume list"

record pod_template =
  pt_Labels :: "string \<rightharpoonup> string"
  pt_Spec :: pod_spec

record volume_claim =
  vc_Name :: string
  vc_AccessModes :: "string list"
  vc_StorageClassName :: "string option"
  vc_Requests :: "string \<rightharpoonup> quantity"

record stateful_set =
  sts_Meta :: object_meta
  sts_ServiceName :: string
  sts_Replicas :: "int32 option"
  sts_Selector :: "label_selector option"
  sts_Template :: pod_template
  sts_VolumeClaimTemplates :: "volume_claim list"
  sts_ReadyReplicas :: int32

record service_port =
  svp_Name :: string
  svp_Port :: int32
  svp_TargetPort :: int32

record service =
  svc_Meta :: object_meta
  svc_ClusterIP :: string
  svc_Selector :: "string \<rightharpoonup> string"
  svc_Ports :: "service_port list"

record config_map =
  cm_Meta :: object_meta
  cm_Data :: "string \<rightharpoonup> string"

record pod =
  pod_Meta :: object_meta
  pod_PodIP :: string

record namespace_object =
  nso_Meta :: object_meta

end
