(* ===== verification/KubeClient.thy ===== *)
theory KubeClient
  imports Metrics CoreTypes
begin

text \<open>
  The operator's interface to the API server, controller-runtime's \<open>client.Client\<close>, and the
  state of the operator process.

  The API server is not part of this repository: it is a parameter. \<open>'w\<close> is the state of
  everything outside the process, and a client is a record of the calls the operator makes,
  each a function of that state that returns a result or an error and the next state.
  \<open>controllerutil.CreateOrUpdate\<close> is such a call too: it gets the callback that mutates the
  object. What the operator relies on is stated as locales over a view of the outside
  state, the objects stored under their kinds and keys:
  \<^item> \<open>resource_scope\<close>: reading changes nothing and returns what is stored; a write, even one
    that fails, touches at most the object it names;
  \<^item> \<open>kube_scope\<close>: that, for every kind the operator uses, and \<open>CreateOrUpdate\<close> stores what
    the callback returned;
  \<^item> \<open>kube_live\<close>: calls on an idle API server succeed; writes need the stored
    \<open>resourceVersion\<close> and an object the server accepts, which the parameter \<open>admission\<close> decides.
\<close>

section \<open>The client\<close>

record list_options =
  lo_InNamespace :: "string option"
  lo_MatchingLabels :: "(string \<times> string) list"

definition list_all_objects :: list_options where
  "list_all_objects = \<lparr>lo_InNamespace = None, lo_MatchingLabels = []\<rparr>"

record ('w, 'o) resource =
  Get :: "namespaced_name \<Rightarrow> 'w \<Rightarrow> 'o result \<times> 'w"
  List :: "list_options \<Rightarrow> 'w \<Rightarrow> 'o list result \<times> 'w"
  Create :: "'o \<Rightarrow> 'w \<Rightarrow> 'o result \<times> 'w"
  Update :: "'o \<Rightarrow> 'w \<Rightarrow> 'o result \<times> 'w"
  StatusUpdate :: "'o \<Rightarrow> 'w \<Rightarrow> 'o result \<times> 'w"
  Delete :: "namespaced_name \<Rightarrow> 'w \<Rightarrow> unit result \<times> 'w"

datatype operation_result = OperationNone | OperationCreated | OperationUpdated

record 'w client =
  Clusters :: "('w, prometheus_cluster) resource"
  ClusterSets :: "('w, prometheus_cluster_set) resource"
  StatefulSets :: "('w, stateful_set) resource"
  Pods :: "('w, pod) resource"
  Namespaces :: "('w, namespace_object) resource"
  CreateOrUpdateConfigMap ::
    "config_map \<Rightarrow> (config_map \<Rightarrow> config_map result) \<Rightarrow> 'w \<Rightarrow> operation_result result \<times> 'w"
  CreateOrUpdateService ::
    "service \<Rightarrow> (service \<Rightarrow> service result) \<Rightarrow> 'w \<Rightarrow> operation_result result \<times> 'w"

definition sts_key :: "stateful_set \<Rightarrow> namespaced_name" where
  "sts_key x = meta_key (sts_Meta x)"

definition set_key :: "prometheus_cluster_set \<Rightarrow> namespaced_name" where
  "set_key x = meta_key (set_Meta x)"

definition pod_key :: "pod \<Rightarrow> namespaced_name" where
  "pod_key x = meta_key (pod_Meta x)"

definition nso_key :: "namespace_object \<Rightarrow> namespaced_name" where
  "nso_key x = meta_key (nso_Meta x)"

section \<open>The operator process\<close>

text \<open>
  The state the operator's goroutines share: the outside state as they reach it, the metric
  vectors, and the backup scheduler's map from cluster to cron entry.
\<close>

record 'w process =
  ext :: 'w
  mets :: metrics
  entries :: "string \<rightharpoonup> nat"

definition call :: "('w \<Rightarrow> 'a \<times> 'w) \<Rightarrow> 'w process \<Rightarrow> 'a \<times> 'w process" where
  "call f s = (case f (ext s) of (r, w) \<Rightarrow> (r, s\<lparr>ext := w\<rparr>))"

lemma call_eq [simp]: "f (ext s) = (r, w) \<Longrightarrow> call f s = (r, s\<lparr>ext := w\<rparr>)"
  by (simp add: call_def)

lemma callE:
  assumes "call f s = (r, t)"
  obtains w where "f (ext s) = (r, w)" and "t = s\<lparr>ext := w\<rparr>"
  using assms by (auto simp: call_def split: prod.splits)

section \<open>The stored objects\<close>

record store =
  v_Clusters :: "namespaced_name \<rightharpoonup> prometheus_cluster"
  v_ClusterSets :: "namespaced_name \<rightharpoonup> prometheus_cluster_set"
  v_StatefulSets :: "namespaced_name \<rightharpoonup> stateful_set"
  v_Services :: "namespaced_name \<rightharpoonup> service"
  v_ConfigMaps :: "namespaced_name \<rightharpoonup> config_map"
  v_Pods :: "namespaced_name \<rightharpoonup> pod"
  v_Namespaces :: "namespaced_name \<rightharpoonup> namespace_object"

datatype object_id =
    ClusterId namespaced_name
  | ClusterSetId namespaced_name
  | StatefulSetId namespaced_name
  | ServiceId namespaced_name
  | ConfigMapId namespaced_name
  | PodId namespaced_name
  | NamespaceId namespaced_name

definition same_except :: "object_id set \<Rightarrow> store \<Rightarrow> store \<Rightarrow> bool" where
  "same_except X a b \<longleftrightarrow>
     (\<forall>k. (ClusterId k \<notin> X \<longrightarrow> v_Clusters b k = v_Clusters a k) \<and>
          (ClusterSetId k \<notin> X \<longrightarrow> v_ClusterSets b k = v_ClusterSets a k) \<and>
          (StatefulSetId k \<notin> X \<longrightarrow> v_StatefulSets b k = v_StatefulSets a k) \<and>
          (ServiceId k \<notin> X \<longrightarrow> v_Services b k = v_Services a k) \<and>
          (ConfigMapId k \<notin> X \<longrightarrow> v_ConfigMaps b k = v_ConfigMaps a k) \<and>
          (PodId k \<notin> X \<longrightarrow> v_Pods b k = v_Pods a k) \<and>
          (NamespaceId k \<notin> X \<longrightarrow> v_Namespaces b k = v_Namespaces a k))"

lemma same_except_refl [simp]: "same_except X a a"
  by (simp add: same_except_def)

lemma same_except_trans: "same_except X a b \<Longrightarrow> same_except X b c \<Longrightarrow> same_except X a c"
  by (simp add: same_except_def)

lemma same_except_mono: "same_except X a b \<Longrightarrow> X \<subseteq> Y \<Longrightarrow> same_except Y a b"
  by (auto simp: same_except_def)

lemma same_exceptD:
  assumes "same_except X a b"
  shows "ClusterId k \<notin> X \<Longrightarrow> v_Clusters b k = v_Clusters a k"
    and "StatefulSetId k \<notin> X \<Longrightarrow> v_StatefulSets b k = v_StatefulSets a k"
    and "ServiceId k \<notin> X \<Longrightarrow> v_Services b k = v_Services a k"
    and "ConfigMapId k \<notin> X \<Longrightarrow> v_ConfigMaps b k = v_ConfigMaps a k"
    and "PodId k \<notin> X \<Longrightarrow> v_Pods b k = v_Pods a k"
    and "ClusterSetId k \<notin> X \<Longrightarrow> v_ClusterSets b k = v_ClusterSets a k"
    and "NamespaceId k \<notin> X \<Longrightarrow> v_Namespaces b k = v_Namespaces a k"
  using assms unfolding same_except_def by blast+

text \<open>The relation between process states that an operation confined to \<open>X\<close> keeps.\<close>

definition confined :: "('w \<Rightarrow> store) \<Rightarrow> object_id set \<Rightarrow> 'w process \<Rightarrow> 'w process \<Rightarrow> bool" where
  "confined view X s t \<longleftrightarrow> same_except X (view (ext s)) (view (ext t))"

lemma confined_refl [simp]: "reflp (confined view X)"
  by (simp add: reflp_def confined_def)

lemma confined_trans [simp]: "transp (confined view X)"
  by (auto simp: transp_def confined_def intro: same_except_trans)

lemma keeps_call:
  "(\<And>w r w'. f w = (r, w') \<Longrightarrow> same_except X (view w) (view w')) \<Longrightarrow> keeps (confined view X) (call f)"
  by (rule keepsI) (auto simp: confined_def elim!: callE)

section \<open>Laws of the API server\<close>

locale resource_scope =
  fixes R :: "('w, 'o) resource" and view :: "'w \<Rightarrow> store"
    and lookup :: "store \<Rightarrow> namespaced_name \<Rightarrow> 'o option"
    and ident :: "namespaced_name \<Rightarrow> object_id" and key :: "'o \<Rightarrow> namespaced_name"
  assumes get_same: "Get R k w = (r, w') \<Longrightarrow> view w' = view w"
    and get_stored: "Get R k w = (Inr x, w') \<Longrightarrow> lookup (view w) k = Some x"
    and stored_key: "lookup (view w) k = Some x \<Longrightarrow> key x = k"
    and list_same: "List R opts w = (rs, w') \<Longrightarrow> view w' = view w"
    and create_scope: "Create R x w = (r, w') \<Longrightarrow> same_except {ident (key x)} (view w) (view w')"
    and update_scope: "Update R x w = (r, w') \<Longrightarrow> same_except {ident (key x)} (view w) (view w')"
    and status_scope: "StatusUpdate R x w = (r, w') \<Longrightarrow> same_except {ident (key x)} (view w) (view w')"
    and delete_scope: "Delete R k w = (u, w') \<Longrightarrow> same_except {ident k} (view w) (view w')"
begin

lemma get_key: "Get R k w = (Inr x, w') \<Longrightarrow> key x = k"
  by (rule stored_key [OF get_stored])

lemma keeps_get [keeps_intro]: "keeps (confined view X) (call (Get R k))"
  by (rule keeps_call) (simp add: get_same)

lemma keeps_create: "ident (key x) \<in> X \<Longrightarrow> keeps (confined view X) (call (Create R x))"
  by (rule keeps_call) (blast intro: same_except_mono [OF create_scope])

lemma keeps_update: "ident (key x) \<in> X \<Longrightarrow> keeps (confined view X) (call (Update R x))"
  by (rule keeps_call) (blast intro: same_except_mono [OF update_scope])

lemma keeps_status: "ident (key x) \<in> X \<Longrightarrow> keeps (confined view X) (call (StatusUpdate R x))"
  by (rule keeps_call) (blast intro: same_except_mono [OF status_scope])

lemma keeps_delete: "ident k \<in> X \<Longrightarrow> keeps (confined view X) (call (Delete R k))"
  by (rule keeps_call) (blast intro: same_except_mono [OF delete_scope])

end

text \<open>
  \<open>CreateOrUpdate\<close> hands the callback the stored object, or the one it was given when there
  is none; a callback error is returned. On success the object the callback returned is
  stored, up to the \<open>resourceVersion\<close> the server assigns.
\<close>

definition with_version :: "object_meta \<Rightarrow> string \<Rightarrow> object_meta" where
  "with_version m v = m\<lparr>ResourceVersion := v\<rparr>"

lemma with_version_fields [simp]:
  "Name (with_version m v) = Name m" "UID (with_version m v) = UID m" "Namespace (with_version m v) = Namespace m"
  "Finalizers (with_version m v) = Finalizers m" "Labels (with_version m v) = Labels m"
  "Annotations (with_version m v) = Annotations m"
  "DeletionTimestamp (with_version m v) = DeletionTimestamp m"
  "OwnerReferences (with_version m v) = OwnerReferences m"
  "ResourceVersion (with_version m v) = v" "meta_key (with_version m v) = meta_key m"
  by (simp_all add: with_version_def meta_key_def)

definition same_identity :: "object_meta \<Rightarrow> object_meta \<Rightarrow> bool" where
  "same_identity m m' \<longleftrightarrow>
     meta_key m = meta_key m' \<and> UID m = UID m' \<and> DeletionTimestamp m = DeletionTimestamp m'"

text \<open>
  The operator's updates of a cluster's spec replace its backup part at most; the server
  stores such a spec as it is.
\<close>

definition same_but_backup :: "cluster_spec \<Rightarrow> cluster_spec \<Rightarrow> bool" where
  "same_but_backup x y \<longleftrightarrow> x\<lparr>sp_Backup := sp_Backup y\<rparr> = y"

lemma same_but_backup_refl [simp]: "same_but_backup x x"
  by (simp add: same_but_backup_def)

lemma same_but_backup_update [simp]: "same_but_backup (x\<lparr>sp_Backup := b\<rparr>) x"
  by (simp add: same_but_backup_def)

locale kube_scope =
  clusters: resource_scope "Clusters cl" view v_Clusters ClusterId pc_key +
  sets: resource_scope "ClusterSets cl" view v_ClusterSets ClusterSetId set_key +
  stss: resource_scope "StatefulSets cl" view v_StatefulSets StatefulSetId sts_key +
  pods: resource_scope "Pods cl" view v_Pods PodId pod_key +
  nss: resource_scope "Namespaces cl" view v_Namespaces NamespaceId nso_key
  for cl :: "'w client" and view :: "'w \<Rightarrow> store" and admit :: "stateful_set \<Rightarrow> stateful_set" +
  assumes cm_scope: "CreateOrUpdateConfigMap cl cm f w = (rc, w') \<Longrightarrow>
      same_except {ConfigMapId (meta_key (cm_Meta cm))} (view w) (view w')"
    and cm_stored: "CreateOrUpdateConfigMap cl cm f w = (Inr op, w') \<Longrightarrow>
      \<exists>old new v. (v_ConfigMaps (view w) (meta_key (cm_Meta cm)) = Some old \<or>
                   v_ConfigMaps (view w) (meta_key (cm_Meta cm)) = None \<and> old = cm) \<and>
        f old = Inr new \<and>
        v_ConfigMaps (view w') (meta_key (cm_Meta cm)) = Some (new\<lparr>cm_Meta := with_version (cm_Meta new) v\<rparr>)"
    and svc_scope: "CreateOrUpdateService cl svc g w = (rc, w') \<Longrightarrow>
      same_except {ServiceId (meta_key (svc_Meta svc))} (view w) (view w')"
    and svc_stored: "CreateOrUpdateService cl svc g w = (Inr op, w') \<Longrightarrow>
      \<exists>old new v. (v_Services (view w) (meta_key (svc_Meta svc)) = Some old \<or>
                   v_Services (view w) (meta_key (svc_Meta svc)) = None \<and> old = svc) \<and>
        g old = Inr new \<and>
        v_Services (view w') (meta_key (svc_Meta svc)) = Some (new\<lparr>svc_Meta := with_version (svc_Meta new) v\<rparr>)"
    and cm_key: "v_ConfigMaps (view w) k = Some c \<Longrightarrow> meta_key (cm_Meta c) = k"
    and svc_key: "v_Services (view w) k = Some sv \<Longrightarrow> meta_key (svc_Meta sv) = k"
    and cluster_update_atomic: "Update (Clusters cl) x w = (rx, w') \<Longrightarrow>
      v_Clusters (view w) (pc_key x) = Some pc \<Longrightarrow> same_identity (pc_Meta x) (pc_Meta pc) \<Longrightarrow>
      same_but_backup (pc_Spec x) (pc_Spec pc) \<Longrightarrow>
      v_Clusters (view w') (pc_key x) \<in> {Some pc, None} \<or>
      (\<exists>v. v_Clusters (view w') (pc_key x) =
         Some (x\<lparr>pc_Meta := with_version (pc_Meta x) v, pc_Status := pc_Status pc\<rparr>))"
    and cluster_update_kept: "Update (Clusters cl) x w = (rx, w') \<Longrightarrow>
      v_Clusters (view w) (pc_key x) = Some pc \<Longrightarrow>
      DeletionTimestamp (pc_Meta pc) = None \<or> Finalizers (pc_Meta x) = Finalizers (pc_Meta pc) \<Longrightarrow>
      v_Clusters (view w') (pc_key x) \<noteq> None"
    and cluster_update_stored: "Update (Clusters cl) x w = (Inr y, w') \<Longrightarrow>
      v_Clusters (view w) (pc_key x) = Some pc \<Longrightarrow> same_identity (pc_Meta x) (pc_Meta pc) \<Longrightarrow>
      same_but_backup (pc_Spec x) (pc_Spec pc) \<Longrightarrow>
      (\<exists>v. y = x\<lparr>pc_Meta := with_version (pc_Meta x) v, pc_Status := pc_Status pc\<rparr>) \<and>
      v_Clusters (view w') (pc_key x) \<in> {None, Some y}"
    and cluster_update_key: "Update (Clusters cl) x w = (Inr y, w') \<Longrightarrow> pc_key y = pc_key x"
    and cluster_status_atomic: "StatusUpdate (Clusters cl) x w = (rx, w') \<Longrightarrow>
      v_Clusters (view w') (pc_key x) = v_Clusters (view w) (pc_key x) \<or>
      (\<exists>pc v. v_Clusters (view w) (pc_key x) = Some pc \<and>
         v_Clusters (view w') (pc_key x) =
           Some (pc\<lparr>pc_Meta := with_version (pc_Meta pc) v, pc_Status := pc_Status x\<rparr>))"
    and cluster_status_stored: "StatusUpdate (Clusters cl) x w = (Inr y, w') \<Longrightarrow>
      \<exists>pc v. v_Clusters (view w) (pc_key x) = Some pc \<and>
        y = pc\<lparr>pc_Meta := with_version (pc_Meta pc) v, pc_Status := pc_Status x\<rparr> \<and>
        v_Clusters (view w') (pc_key x) = Some y"
    and sts_create_stored: "Create (StatefulSets cl) sts w = (Inr sts', w') \<Longrightarrow>
      v_StatefulSets (view w) (sts_key sts) = None \<and>
      v_StatefulSets (view w') (sts_key sts) = Some sts' \<and>
      sts_Template sts' = sts_Template (admit sts) \<and> sts_Replicas sts' = sts_Replicas (admit sts)"
    and sts_update_stored: "Update (StatefulSets cl) sts w = (Inr sts', w') \<Longrightarrow>
      v_StatefulSets (view w) (sts_key sts) = Some sts0 \<Longrightarrow> sts_Meta sts = sts_Meta sts0 \<Longrightarrow>
      v_StatefulSets (view w') (sts_key sts) = Some sts' \<and>
      sts_Template sts' = sts_Template (admit sts) \<and> sts_Replicas sts' = sts_Replicas (admit sts) \<and>
      sts_ReadyReplicas sts' = sts_ReadyReplicas sts0"
    and admit_replicas: "sts_Replicas sts = Some n \<Longrightarrow> sts_Replicas (admit sts) = Some n"
    and admit_template: "sts_Template a = sts_Template b \<Longrightarrow> sts_Template (admit a) = sts_Template (admit b)"
begin

lemma keeps_config_map:
  "ConfigMapId (meta_key (cm_Meta cm)) \<in> X \<Longrightarrow>
     keeps (confined view X) (call (CreateOrUpdateConfigMap cl cm f))"
  by (rule keeps_call) (blast intro: same_except_mono [OF cm_scope])

lemma keeps_service:
  "ServiceId (meta_key (svc_Meta svc)) \<in> X \<Longrightarrow>
     keeps (confined view X) (call (CreateOrUpdateService cl svc g))"
  by (rule keeps_call) (blast intro: same_except_mono [OF svc_scope])

end

text \<open>
  What the server accepts to be stored: schemas, name rules, immutable fields and admission
  webhooks decide on the stored object, if any, and the one that is sent.
\<close>

record admission =
  adm_Cluster :: "prometheus_cluster \<Rightarrow> prometheus_cluster \<Rightarrow> bool"
  adm_ConfigMap :: "config_map option \<Rightarrow> config_map \<Rightarrow> bool"
  adm_Service :: "service option \<Rightarrow> service \<Rightarrow> bool"
  adm_StatefulSet :: "stateful_set option \<Rightarrow> stateful_set \<Rightarrow> bool"

text \<open>
  An idle API server: nobody else writes while the operator's handler runs, so calls succeed
  when the object is there (or absent, for a create), the write carries the stored
  \<open>resourceVersion\<close> and the server accepts the object. \<open>admit\<close> stands for the server's defaulting
  of StatefulSets.
\<close>

locale kube_live = kube_scope cl view admit
  for cl :: "'w client" and view :: "'w \<Rightarrow> store" and admit :: "stateful_set \<Rightarrow> stateful_set" +
  fixes A :: admission
  assumes get_cluster_ok:
      "v_Clusters (view w) k = Some pc \<Longrightarrow> \<exists>w'. Get (Clusters cl) k w = (Inr pc, w')"
    and get_sts_ok:
      "v_StatefulSets (view w) k = Some sts \<Longrightarrow> \<exists>w'. Get (StatefulSets cl) k w = (Inr sts, w')"
    and get_sts_missing:
      "v_StatefulSets (view w) k = None \<Longrightarrow>
         \<exists>e w'. Get (StatefulSets cl) k w = (Inl e, w') \<and> is_not_found e"
    and update_cluster_ok:
      "v_Clusters (view w) (pc_key pc) = Some old \<Longrightarrow>
       ResourceVersion (pc_Meta pc) = ResourceVersion (pc_Meta old) \<Longrightarrow> adm_Cluster A old pc \<Longrightarrow>
       \<exists>new w'. Update (Clusters cl) pc w = (Inr new, w')"
    and status_cluster_ok:
      "v_Clusters (view w) (pc_key pc) = Some old \<Longrightarrow>
       ResourceVersion (pc_Meta pc) = ResourceVersion (pc_Meta old) \<Longrightarrow>
       \<exists>new w'. StatusUpdate (Clusters cl) pc w = (Inr new, w')"
    and create_sts_ok:
      "v_StatefulSets (view w) (sts_key sts) = None \<Longrightarrow> adm_StatefulSet A None sts \<Longrightarrow>
       \<exists>sts' w'. Create (StatefulSets cl) sts w = (Inr sts', w')"
    and update_sts_ok:
      "v_StatefulSets (view w) (sts_key sts) = Some sts0 \<Longrightarrow>
       ResourceVersion (sts_Meta sts) = ResourceVersion (sts_Meta sts0) \<Longrightarrow> adm_StatefulSet A (Some sts0) sts \<Longrightarrow>
       \<exists>sts' w'. Update (StatefulSets cl) sts w = (Inr sts', w')"
    and cm_ok: "f (case v_ConfigMaps (view w) (meta_key (cm_Meta cm)) of Some c \<Rightarrow> c | None \<Rightarrow> cm) = Inr cm' \<Longrightarrow>
       meta_key (cm_Meta cm') = meta_key (cm_Meta cm) \<Longrightarrow>
       adm_ConfigMap A (v_ConfigMaps (view w) (meta_key (cm_Meta cm))) cm' \<Longrightarrow>
       \<exists>op w'. CreateOrUpdateConfigMap cl cm f w = (Inr op, w')"
    and svc_ok: "g (case v_Services (view w) (meta_key (svc_Meta svc)) of Some c \<Rightarrow> c | None \<Rightarrow> svc) = Inr svc' \<Longrightarrow>
       meta_key (svc_Meta svc') = meta_key (svc_Meta svc) \<Longrightarrow>
       adm_Service A (v_Services (view w) (meta_key (svc_Meta svc))) svc' \<Longrightarrow>
       \<exists>op w'. CreateOrUpdateService cl svc g w = (Inr op, w')"

end
