(* ===== verification/TarStream.thy ===== *)
theory TarStream
  imports KubeClient
begin

text \<open>
  \<open>tarStreamToS3\<close> (\<open>internal/backup/backup.go\<close>): a goroutine runs \<open>tar\<close> in the pod and writes
  its output into an \<open>io.Pipe\<close>, the caller uploads what it reads from the other end, closes
  it, and waits on a channel for the goroutine's error.

  The two goroutines are modelled as a step relation over their program counters, the
  pipe and the channel. Go's pipe is unbuffered: a write completes when a read has taken
  its bytes, or fails once the reader is closed; a read fails with the error the writer was
  closed with, and ends (EOF) when that is nil. What the pod and the upload do is
  a parameter, the record \<open>transfer\<close>: the chunks a reader takes one by one, what \<open>Exec\<close>
  returns after the last of them and after a failed write, when the upload gives up by
  itself, what it makes of a read error, and what it returns after EOF. A chunk is what one
  \<open>Read\<close> returns.
\<close>

section \<open>The two goroutines\<close>

record transfer =
  tr_Chunks :: "string list"
  tr_Exit :: "go_error option"
  tr_Broken :: "go_error option"
  tr_GiveUp :: "(nat \<times> go_error) option"
  tr_ReadError :: "go_error \<Rightarrow> go_error"
  tr_Finish :: "string \<Rightarrow> go_error option"

datatype exec_goroutine =
    Writing "string list"
  | Closing "go_error option"
  | Sending "go_error option"
  | ExecDone

datatype upload_goroutine =
    Uploading
  | ClosingReader "go_error option"
  | Waiting "go_error option"
  | Returned "unit result"

record tar_state =
  t_Exec :: exec_goroutine
  t_Main :: upload_goroutine
  t_Read :: string
  t_Reads :: nat
  t_WriterClosed :: "go_error option option"
  t_ReaderClosed :: bool
  t_ExecErr :: "go_error option option"
  t_Object :: "string option"

definition tar_start :: "transfer \<Rightarrow> tar_state" where
  "tar_start T =
     \<lparr>t_Exec = Writing (tr_Chunks T), t_Main = Uploading, t_Read = [], t_Reads = 0,
      t_WriterClosed = None, t_ReaderClosed = False, t_ExecErr = None, t_Object = None\<rparr>"

definition gives_up :: "transfer \<Rightarrow> nat \<Rightarrow> go_error option" where
  "gives_up T n = (case tr_GiveUp T of Some (m, e) \<Rightarrow> if m = n then Some e else None | None \<Rightarrow> None)"

definition tar_return :: "go_error option \<Rightarrow> go_error option \<Rightarrow> unit result" where
  "tar_return execErr putErr =
     (case execErr of
        Some e \<Rightarrow> Inl (Wrapped ''exec tar'' e)
      | None \<Rightarrow> (case putErr of Some e \<Rightarrow> Inl (Wrapped ''put object'' e) | None \<Rightarrow> Inr ()))"

inductive tar_step :: "transfer \<Rightarrow> tar_state \<Rightarrow> tar_state \<Rightarrow> bool" for T where
  pass_chunk:
    "t_Exec s = Writing (c # cs) \<Longrightarrow> t_Main s = Uploading \<Longrightarrow> gives_up T (t_Reads s) = None \<Longrightarrow>
     tar_step T s (s\<lparr>t_Exec := Writing cs, t_Read := t_Read s @ c, t_Reads := Suc (t_Reads s)\<rparr>)"
| exec_returns:
    "t_Exec s = Writing [] \<Longrightarrow> tar_step T s (s\<lparr>t_Exec := Closing (tr_Exit T)\<rparr>)"
| write_fails:
    "t_Exec s = Writing (c # cs) \<Longrightarrow> t_ReaderClosed s \<Longrightarrow>
     tar_step T s (s\<lparr>t_Exec := Closing (tr_Broken T)\<rparr>)"
| close_writer:
    "t_Exec s = Closing err \<Longrightarrow>
     tar_step T s (s\<lparr>t_Exec := Sending err, t_WriterClosed := Some err\<rparr>)"
| send_error:
    "t_Exec s = Sending err \<Longrightarrow> t_ExecErr s = None \<Longrightarrow>
     tar_step T s (s\<lparr>t_Exec := ExecDone, t_ExecErr := Some err\<rparr>)"
| give_up:
    "t_Main s = Uploading \<Longrightarrow> gives_up T (t_Reads s) = Some e \<Longrightarrow>
     tar_step T s (s\<lparr>t_Main := ClosingReader (Some e)\<rparr>)"
| read_eof:
    "t_Main s = Uploading \<Longrightarrow> gives_up T (t_Reads s) = None \<Longrightarrow> t_WriterClosed s = Some None \<Longrightarrow>
     tar_step T s (s\<lparr>t_Main := ClosingReader (tr_Finish T (t_Read s)),
       t_Object := (if tr_Finish T (t_Read s) = None then Some (t_Read s) else None)\<rparr>)"
| read_error:
    "t_Main s = Uploading \<Longrightarrow> gives_up T (t_Reads s) = None \<Longrightarrow> t_WriterClosed s = Some (Some e) \<Longrightarrow>
     tar_step T s (s\<lparr>t_Main := ClosingReader (Some (tr_ReadError T e))\<rparr>)"
| close_reader:
    "t_Main s = ClosingReader p \<Longrightarrow>
     tar_step T s (s\<lparr>t_Main := Waiting p, t_ReaderClosed := True\<rparr>)"
| receive_error:
    "t_Main s = Waiting p \<Longrightarrow> t_ExecErr s = Some err \<Longrightarrow>
     tar_step T s (s\<lparr>t_Main := Returned (tar_return err p), t_ExecErr := None\<rparr>)"

inductive_cases tar_stepE: "tar_step T s t"

section \<open>The outcome\<close>

text \<open>What the call returns and which object it leaves, computed without the interleaving.\<close>

definition tar_cut :: "transfer \<Rightarrow> (nat \<times> go_error) option" where
  "tar_cut T =
     (case tr_GiveUp T of
        Some (m, e) \<Rightarrow> if m \<le> length (tr_Chunks T) then Some (m, e) else None
      | None \<Rightarrow> None)"

definition tar_exec_err :: "transfer \<Rightarrow> go_error option" where
  "tar_exec_err T =
     (case tar_cut T of
        Some (m, _) \<Rightarrow> if m < length (tr_Chunks T) then tr_Broken T else tr_Exit T
      | None \<Rightarrow> tr_Exit T)"

definition tar_put_err :: "transfer \<Rightarrow> go_error option" where
  "tar_put_err T =
     (case tar_cut T of
        Some (_, e) \<Rightarrow> Some e
      | None \<Rightarrow> (case tr_Exit T of
                    Some e \<Rightarrow> Some (tr_ReadError T e)
                  | None \<Rightarrow> tr_Finish T (concat (tr_Chunks T))))"

definition tar_result :: "transfer \<Rightarrow> unit result" where
  "tar_result T = tar_return (tar_exec_err T) (tar_put_err T)"

definition tar_object :: "transfer \<Rightarrow> string option" where
  "tar_object T = (if tar_put_err T = None then Some (concat (tr_Chunks T)) else None)"

section \<open>Invariant\<close>

definition exec_err_ok :: "transfer \<Rightarrow> tar_state \<Rightarrow> go_error option \<Rightarrow> bool" where
  "exec_err_ok T s err \<longleftrightarrow>
     t_Reads s = length (tr_Chunks T) \<and> err = tr_Exit T \<or>
     t_Reads s < length (tr_Chunks T) \<and> err = tr_Broken T \<and> t_ReaderClosed s"

definition exec_ok :: "transfer \<Rightarrow> tar_state \<Rightarrow> bool" where
  "exec_ok T s \<longleftrightarrow>
     (case t_Exec s of
        Writing cs \<Rightarrow> cs = drop (t_Reads s) (tr_Chunks T) \<and> t_WriterClosed s = None \<and> t_ExecErr s = None
      | Closing err \<Rightarrow> exec_err_ok T s err \<and> t_WriterClosed s = None \<and> t_ExecErr s = None
      | Sending err \<Rightarrow> exec_err_ok T s err \<and> t_WriterClosed s = Some err \<and> t_ExecErr s = None
      | ExecDone \<Rightarrow> (\<exists>err. exec_err_ok T s err \<and> t_WriterClosed s = Some err \<and>
          (t_ExecErr s = Some err \<or> t_ExecErr s = None \<and> (\<exists>r. t_Main s = Returned r))))"

definition put_ok :: "transfer \<Rightarrow> tar_state \<Rightarrow> go_error option \<Rightarrow> bool" where
  "put_ok T s p \<longleftrightarrow>
     p = tar_put_err T \<and> t_Object s = tar_object T \<and>
     t_Reads s = (case tar_cut T of Some (m, _) \<Rightarrow> m | None \<Rightarrow> length (tr_Chunks T))"

definition main_ok :: "transfer \<Rightarrow> tar_state \<Rightarrow> bool" where
  "main_ok T s \<longleftrightarrow>
     (case t_Main s of
        Uploading \<Rightarrow> \<not> t_ReaderClosed s \<and> t_Object s = None \<and>
          (\<forall>m e. tr_GiveUp T = Some (m, e) \<longrightarrow> t_Reads s \<le> m)
      | ClosingReader p \<Rightarrow> \<not> t_ReaderClosed s \<and> put_ok T s p
      | Waiting p \<Rightarrow> t_ReaderClosed s \<and> put_ok T s p
      | Returned r \<Rightarrow> t_ReaderClosed s \<and> t_Exec s = ExecDone \<and> put_ok T s (tar_put_err T) \<and> r = tar_result T)"

definition tar_inv :: "transfer \<Rightarrow> tar_state \<Rightarrow> bool" where
  "tar_inv T s \<longleftrightarrow> t_Reads s \<le> length (tr_Chunks T) \<and>
     t_Read s = concat (take (t_Reads s) (tr_Chunks T)) \<and> exec_ok T s \<and> main_ok T s"

lemma tar_inv_start: "tar_inv T (tar_start T)"
  by (simp add: tar_inv_def tar_start_def exec_ok_def main_ok_def)

lemma exec_err_is:
  assumes "exec_err_ok T s err" and "put_ok T s p"
  shows "err = tar_exec_err T"
  using assms by (auto simp: exec_err_ok_def put_ok_def tar_exec_err_def tar_cut_def split: option.splits if_splits)

lemma gives_up_cut:
  assumes "gives_up T n = Some e" and "n \<le> length (tr_Chunks T)"
  shows "tar_cut T = Some (n, e)"
  using assms by (auto simp: gives_up_def tar_cut_def split: option.splits if_splits)

lemma gives_up_none:
  assumes "gives_up T n = None" and "n = length (tr_Chunks T)" and "\<And>m e. tr_GiveUp T = Some (m, e) \<Longrightarrow> n \<le> m"
  shows "tar_cut T = None"
  using assms by (force simp: gives_up_def tar_cut_def split: option.splits if_splits)

lemma closed_writer:
  assumes "tar_inv T s" and "t_Main s = Uploading" and "t_WriterClosed s = Some err"
  shows "t_Reads s = length (tr_Chunks T) \<and> tr_Exit T = err"
  using assms by (auto simp: tar_inv_def main_ok_def exec_ok_def exec_err_ok_def split: exec_goroutine.splits)

lemma tar_inv_step:
  assumes "tar_step T s t" and "tar_inv T s"
  shows "tar_inv T t"
  using assms(1)
proof cases
  case (pass_chunk c cs)
  have rest: "c # cs = drop (t_Reads s) (tr_Chunks T)"
    using assms(2) pass_chunk by (simp add: tar_inv_def exec_ok_def)
  then have lt: "t_Reads s < length (tr_Chunks T)"
    by (metis drop_eq_Nil list.discI not_le)
  then have c: "c = tr_Chunks T ! t_Reads s" "cs = drop (Suc (t_Reads s)) (tr_Chunks T)"
    using rest by (simp_all add: Cons_nth_drop_Suc [symmetric])
  have "m \<noteq> t_Reads s" if "tr_GiveUp T = Some (m, e)" for m e
    using pass_chunk that by (auto simp: gives_up_def)
  then show ?thesis
    using assms(2) pass_chunk lt
    by (fastforce simp: tar_inv_def exec_ok_def main_ok_def c take_Suc_conv_app_nth)
next
  case exec_returns
  then show ?thesis
    using assms(2) by (auto simp: tar_inv_def exec_ok_def main_ok_def put_ok_def exec_err_ok_def
        split: upload_goroutine.splits)
next
  case (write_fails c cs)
  have "c # cs = drop (t_Reads s) (tr_Chunks T)"
    using assms(2) write_fails by (simp add: tar_inv_def exec_ok_def)
  then have "t_Reads s < length (tr_Chunks T)"
    by (metis drop_eq_Nil list.discI not_le)
  then show ?thesis
    using assms(2) write_fails by (auto simp: tar_inv_def exec_ok_def main_ok_def put_ok_def exec_err_ok_def
        split: upload_goroutine.splits)
next
  case (close_writer err)
  then show ?thesis
    using assms(2) by (auto simp: tar_inv_def exec_ok_def main_ok_def put_ok_def exec_err_ok_def
        split: upload_goroutine.splits)
next
  case (send_error err)
  then show ?thesis
    using assms(2) by (auto simp: tar_inv_def exec_ok_def main_ok_def put_ok_def exec_err_ok_def
        split: upload_goroutine.splits)
next
  case (give_up e)
  have "tar_cut T = Some (t_Reads s, e)"
    by (rule gives_up_cut [OF give_up(3)]) (use assms(2) in \<open>simp add: tar_inv_def\<close>)
  then show ?thesis
    using assms(2) give_up
    by (auto simp: tar_inv_def main_ok_def put_ok_def tar_put_err_def tar_object_def exec_ok_def exec_err_ok_def
        split: exec_goroutine.splits)
next
  case read_eof
  have "t_Reads s = length (tr_Chunks T)" "tr_Exit T = None"
    using closed_writer [OF assms(2) read_eof(2,4)] by simp_all
  moreover have "tar_cut T = None"
    by (rule gives_up_none [OF read_eof(3) calculation(1)]) (use assms(2) read_eof in \<open>simp add: tar_inv_def main_ok_def\<close>)
  ultimately show ?thesis
    using assms(2) read_eof
    by (auto simp: tar_inv_def main_ok_def put_ok_def tar_put_err_def tar_object_def exec_ok_def exec_err_ok_def
        split: exec_goroutine.splits)
next
  case (read_error e)
  have "t_Reads s = length (tr_Chunks T)" "tr_Exit T = Some e"
    using closed_writer [OF assms(2) read_error(2,4)] by simp_all
  moreover have "tar_cut T = None"
    by (rule gives_up_none [OF read_error(3) calculation(1)])
      (use assms(2) read_error in \<open>simp add: tar_inv_def main_ok_def\<close>)
  ultimately show ?thesis
    using assms(2) read_error
    by (auto simp: tar_inv_def main_ok_def put_ok_def tar_put_err_def tar_object_def exec_ok_def exec_err_ok_def
        split: exec_goroutine.splits)
next
  case (close_reader p)
  then show ?thesis
    using assms(2) by (auto simp: tar_inv_def main_ok_def put_ok_def exec_ok_def exec_err_ok_def
        split: exec_goroutine.splits)
next
  case (receive_error p err)
  have put: "put_ok T s p" and err: "exec_err_ok T s err" and ex: "t_Exec s = ExecDone"
    and wc: "t_WriterClosed s = Some err" "t_ReaderClosed s"
    using assms(2) receive_error by (auto simp: tar_inv_def main_ok_def exec_ok_def split: exec_goroutine.splits)
  have "p = tar_put_err T" using put by (simp add: put_ok_def)
  moreover have "err = tar_exec_err T" by (rule exec_err_is [OF err put])
  ultimately show ?thesis
    using assms(2) receive_error put err ex wc
    by (auto simp: tar_inv_def main_ok_def exec_ok_def put_ok_def exec_err_ok_def tar_result_def)
qed

section \<open>Progress\<close>

definition tar_final :: "tar_state \<Rightarrow> bool" where
  "tar_final s \<longleftrightarrow> (\<exists>r. t_Main s = Returned r)"

definition tar_measure :: "tar_state \<Rightarrow> nat" where
  "tar_measure s =
     (case t_Exec s of Writing cs \<Rightarrow> length cs + 3 | Closing _ \<Rightarrow> 2 | Sending _ \<Rightarrow> 1 | ExecDone \<Rightarrow> 0) +
     (case t_Main s of Uploading \<Rightarrow> 3 | ClosingReader _ \<Rightarrow> 2 | Waiting _ \<Rightarrow> 1 | Returned _ \<Rightarrow> 0)"

lemma tar_step_measure: "tar_step T s t \<Longrightarrow> tar_measure t < tar_measure s"
  by (erule tar_stepE) (auto simp: tar_measure_def)

lemma tar_progress:
  assumes "tar_inv T s" and "\<not> tar_final s"
  shows "\<exists>t. tar_step T s t"
proof (cases "t_Main s")
  case Uploading
  show ?thesis
  proof (cases "gives_up T (t_Reads s)")
    case None
    show ?thesis
    proof (cases "t_Exec s")
      case (Writing cs)
      then show ?thesis
        using tar_step.exec_returns tar_step.pass_chunk [OF _ Uploading None] by (cases cs) blast+
    next
      case (Closing err)
      then show ?thesis using tar_step.close_writer by blast
    next
      case (Sending err)
      then have "t_WriterClosed s = Some err" using assms(1) by (simp add: tar_inv_def exec_ok_def)
      then show ?thesis
        using tar_step.read_eof [OF Uploading None] tar_step.read_error [OF Uploading None] by (cases err) blast+
    next
      case ExecDone
      then obtain err where "t_WriterClosed s = Some err" using assms(1) by (auto simp: tar_inv_def exec_ok_def)
      then show ?thesis
        using tar_step.read_eof [OF Uploading None] tar_step.read_error [OF Uploading None] by (cases err) blast+
    qed
  qed (use tar_step.give_up [OF Uploading] in blast)
next
  case (ClosingReader p)
  then show ?thesis using tar_step.close_reader by blast
next
  case (Waiting p)
  then have closed: "t_ReaderClosed s" using assms(1) by (simp add: tar_inv_def main_ok_def)
  show ?thesis
  proof (cases "t_Exec s")
    case (Writing cs)
    then show ?thesis
      using tar_step.exec_returns tar_step.write_fails [OF _ closed] by (cases cs) blast+
  next
    case (Closing err)
    then show ?thesis using tar_step.close_writer by blast
  next
    case (Sending err)
    then have "t_ExecErr s = None" using assms(1) by (simp add: tar_inv_def exec_ok_def)
    then show ?thesis using tar_step.send_error [OF Sending] by blast
  next
    case ExecDone
    then obtain err where "t_ExecErr s = Some err"
      using assms(1) Waiting by (auto simp: tar_inv_def exec_ok_def)
    then show ?thesis using tar_step.receive_error [OF Waiting] by blast
  qed
qed (use assms(2) in \<open>simp add: tar_final_def\<close>)

definition tar_steps :: "transfer \<Rightarrow> tar_state \<Rightarrow> tar_state \<Rightarrow> bool" where
  "tar_steps T = (tar_step T)\<^sup>*\<^sup>*"

lemma tar_inv_steps: "tar_steps T s t \<Longrightarrow> tar_inv T s \<Longrightarrow> tar_inv T t"
  unfolding tar_steps_def by (induction rule: rtranclp_induct) (auto intro: tar_inv_step)

lemma tar_returns:
  assumes "tar_inv T s"
  shows "\<exists>t. tar_steps T s t \<and> tar_final t"
  using assms
proof (induction "tar_measure s" arbitrary: s rule: less_induct)
  case less
  show ?case
  proof (cases "tar_final s")
    case True
    then show ?thesis unfolding tar_steps_def by blast
  next
    case False
    then obtain u where step: "tar_step T s u" using tar_progress less.prems by blast
    with less.hyps [OF tar_step_measure [OF step] tar_inv_step [OF step less.prems]]
    show ?thesis unfolding tar_steps_def by (meson converse_rtranclp_into_rtranclp)
  qed
qed

lemma tar_final_result:
  assumes "tar_inv T s" and "t_Main s = Returned r"
  shows "r = tar_result T \<and> t_Object s = tar_object T"
  using assms by (simp add: tar_inv_def main_ok_def put_ok_def)

lemma tar_success_shape:
  assumes "tar_result T = Inr ()"
  shows "tr_Exit T = None \<and> tar_cut T = None \<and> tar_object T = Some (concat (tr_Chunks T))"
proof -
  have err: "tar_exec_err T = None" "tar_put_err T = None"
    using assms by (auto simp: tar_result_def tar_return_def split: option.splits)
  have "tar_cut T = None" using err(2) by (auto simp: tar_put_err_def split: option.splits)
  with err show ?thesis by (auto simp: tar_exec_err_def tar_object_def)
qed

section \<open>Properties\<close>

text \<open>
  C3: the streamed backup always returns, and the interleaving of its goroutines does not
  matter. No execution runs forever, none gets stuck before the call has returned, and all
  of them return the same result and leave the same object.
\<close>

theorem tar_stream_outcome:
  "wfP (\<lambda>t s. tar_step T s t) \<and>
   (\<forall>s. tar_steps T (tar_start T) s \<longrightarrow> (\<nexists>t. tar_step T s t) \<longrightarrow> (\<exists>r. t_Main s = Returned r)) \<and>
   (\<exists>s. tar_steps T (tar_start T) s \<and> t_Main s = Returned (tar_result T)) \<and>
   (\<forall>s r. tar_steps T (tar_start T) s \<longrightarrow> t_Main s = Returned r \<longrightarrow>
      r = tar_result T \<and> t_Object s = tar_object T)"
proof (intro conjI allI impI)
  show "wfP (\<lambda>t s. tar_step T s t)"
    using wfp_if_convertible_to_nat [of "\<lambda>t s. tar_step T s t" tar_measure] by (simp add: tar_step_measure)
  show "\<exists>r. t_Main s = Returned r" if "tar_steps T (tar_start T) s" "\<nexists>t. tar_step T s t" for s
    using tar_progress [OF tar_inv_steps [OF that(1) tar_inv_start]] that(2) by (auto simp: tar_final_def)
  obtain u where "tar_steps T (tar_start T) u" "tar_final u"
    using tar_returns [OF tar_inv_start] by blast
  then show "\<exists>s. tar_steps T (tar_start T) s \<and> t_Main s = Returned (tar_result T)"
    using tar_final_result tar_inv_steps tar_inv_start by (metis tar_final_def)
  show "r = tar_result T" "t_Object s = tar_object T"
    if "tar_steps T (tar_start T) s" "t_Main s = Returned r" for s r
    using tar_final_result [OF tar_inv_steps [OF that(1) tar_inv_start] that(2)] by simp_all
qed

text \<open>
  C23: a streamed backup that reports success is complete: \<open>tar\<close> exited without an error and the
  object in the bucket is the whole of its output, every chunk in order. A truncated
  archive is never reported as a backup.
\<close>

theorem tar_stream_success_is_complete:
  assumes "tar_steps T (tar_start T) s" and "t_Main s = Returned (Inr ())"
  shows "t_Object s = Some (concat (tr_Chunks T)) \<and> tr_Exit T = None"
  using tar_final_result [OF tar_inv_steps [OF assms(1) tar_inv_start] assms(2)] tar_success_shape [of T] by simp

text \<open>
  Which failure the streamed backup names. An upload that gives up before \<open>tar\<close> has written
  everything makes the write fail, and when \<open>Exec\<close> reports that, the call blames \<open>tar\<close> and
  the upload's own error is lost; it is returned only when \<open>Exec\<close> itself reports none.
  A failure of \<open>tar\<close> is always the one returned, and never leaves an object.
\<close>

theorem tar_stream_error_attribution:
  assumes "tar_steps T (tar_start T) s" and "t_Main s = Returned r"
  shows "(\<forall>m e. tr_GiveUp T = Some (m, e) \<and> m < length (tr_Chunks T) \<longrightarrow> t_Object s = None \<and>
      r = (case tr_Broken T of Some x \<Rightarrow> Inl (Wrapped ''exec tar'' x)
           | None \<Rightarrow> Inl (Wrapped ''put object'' e))) \<and>
    (\<forall>x. tr_GiveUp T = None \<and> tr_Exit T = Some x \<longrightarrow> t_Object s = None \<and> r = Inl (Wrapped ''exec tar'' x))"
  using tar_final_result [OF tar_inv_steps [OF assms(1) tar_inv_start] assms(2)]
  by (auto simp: tar_result_def tar_object_def tar_return_def tar_exec_err_def tar_put_err_def tar_cut_def
      split: option.splits)

definition demo_transfer :: "(nat \<times> go_error) option \<Rightarrow> transfer" where
  "demo_transfer stop =
     \<lparr>tr_Chunks = [''he'', ''ll'', ''o''], tr_Exit = None, tr_Broken = Some (ErrorString ''closed pipe''),
      tr_GiveUp = stop, tr_ReadError = (\<lambda>e. e), tr_Finish = (\<lambda>_. None)\<rparr>"

lemma demo_transfer_results:
  "tar_result (demo_transfer None) = Inr ()"
  "tar_result (demo_transfer (Some (1, ErrorString ''no such bucket''))) =
     Inl (Wrapped ''exec tar'' (ErrorString ''closed pipe''))"
  by (simp_all add: demo_transfer_def tar_result_def tar_return_def tar_exec_err_def tar_put_err_def tar_cut_def)

lemma demo_run:
  obtains s where "tar_steps T (tar_start T) s" "t_Main s = Returned (tar_result T)"
  using tar_returns [OF tar_inv_start, of T] tar_final_result [OF tar_inv_steps [OF _ tar_inv_start], of T]
  unfolding tar_final_def by metis

theorem tar_stream_outcome_witness:
  "\<exists>s. tar_steps (demo_transfer None) (tar_start (demo_transfer None)) s \<and> t_Main s = Returned (Inr ())"
  using tar_stream_outcome [of "demo_transfer None"] unfolding demo_transfer_results(1) by blast

theorem tar_stream_success_is_complete_witness:
  "\<exists>s. tar_steps (demo_transfer None) (tar_start (demo_transfer None)) s \<and> t_Object s = Some ''hello''"
proof -
  obtain s where run: "tar_steps (demo_transfer None) (tar_start (demo_transfer None)) s"
    and ret: "t_Main s = Returned (Inr ())" by (metis demo_run demo_transfer_results(1))
  show ?thesis
    using tar_stream_success_is_complete [OF run ret] run by (auto simp: demo_transfer_def)
qed

theorem tar_stream_error_attribution_witness:
  "\<exists>s. tar_steps (demo_transfer (Some (1, ErrorString ''no such bucket'')))
      (tar_start (demo_transfer (Some (1, ErrorString ''no such bucket'')))) s \<and> t_Object s = None \<and>
     t_Main s = Returned (Inl (Wrapped ''exec tar'' (ErrorString ''closed pipe'')))"
proof -
  let ?T = "demo_transfer (Some (1, ErrorString ''no such bucket''))"
  obtain s where run: "tar_steps ?T (tar_start ?T) s" and ret: "t_Main s = Returned (tar_result ?T)"
    by (rule demo_run)
  show ?thesis
    using tar_stream_error_attribution [OF run ret] run ret
    by (auto simp: demo_transfer_def demo_transfer_results [unfolded demo_transfer_def])
qed

end
