(* ===== verification/GoStrings.thy ===== *)
theory GoStrings
  imports Prelude
begin

text \<open>
  The parts of Go's standard library that the operator's text output rests on: UTF-8
  decoding and encoding (\<open>unicode/utf8\<close>), \<open>strconv.Quote\<close> as \<open>fmt\<close>'s verb \<open>%q\<close> calls it,
  \<open>strings.TrimRight\<close> and \<open>strings.SplitSeq\<close> for the newline. A Go string is a sequence of
  bytes; here a \<open>string\<close> is a list of 8-bit characters. The table of printable runes above
  Latin-1 (\<open>strconv.IsPrint\<close>) is a parameter.

  Shown: quoting never emits a control byte, and a YAML reader gets a quoted string of valid UTF-8
  back from it, quotes, line breaks and unprintable characters included.
\<close>

section \<open>Runes and UTF-8\<close>

type_synonym rune = nat
type_synonym byte_seq = "nat list"

definition rune_error :: nat where
  "rune_error = 0xFFFD"

definition cont_byte :: "nat \<Rightarrow> bool" where
  "cont_byte b \<longleftrightarrow> 0x80 \<le> b \<and> b \<le> 0xBF"
definition second_byte :: "nat \<Rightarrow> nat \<Rightarrow> bool" where
  "second_byte s0 s1 \<longleftrightarrow>
     (if s0 = 0xE0 then 0xA0 \<le> s1 \<and> s1 \<le> 0xBF
      else if s0 = 0xED then 0x80 \<le> s1 \<and> s1 \<le> 0x9F
      else if s0 = 0xF0 then 0x90 \<le> s1 \<and> s1 \<le> 0xBF
      else if s0 = 0xF4 then 0x80 \<le> s1 \<and> s1 \<le> 0x8F
      else cont_byte s1)"

text \<open>\<open>utf8.AppendRune\<close>, and \<open>utf8.DecodeRuneInString\<close> with its width.\<close>

definition encode_rune :: "nat \<Rightarrow> nat list" where
  "encode_rune r =
     (if r < 0x80 then [r]
      else if r < 0x800 then [0xC0 + r div 64, 0x80 + r mod 64]
      else if (0xD800 \<le> r \<and> r \<le> 0xDFFF) \<or> 0x10FFFF < r then [0xEF, 0xBF, 0xBD]
      else if r < 0x10000 then [0xE0 + r div 4096, 0x80 + (r div 64) mod 64, 0x80 + r mod 64]
      else [0xF0 + r div 262144, 0x80 + (r div 4096) mod 64, 0x80 + (r div 64) mod 64,
            0x80 + r mod 64])"

lemma offset_mod: "x = m * k + a \<Longrightarrow> a < m \<Longrightarrow> x mod m = a" for a m k x :: nat
  by simp

lemma cont_byteE:
  assumes "cont_byte b"
  obtains c where "b = 128 + c" and "c < 64" and "b mod 64 = c"
proof -
  have "b = 128 + (b - 128)" "b - 128 < 64"
    using assms unfolding cont_byte_def by linarith+
  then show thesis
    using that offset_mod [of b 64 2 "b - 128"] by simp
qed

text \<open>The value a continuation byte carries, and the digits of a rune in base 64.\<close>

lemma digits64:
  fixes a c :: nat
  assumes "c < 64"
  shows "(64 * a + c) div 64 = a" and "(64 * a + c) mod 64 = c"
  using assms by simp_all

lemma encode_two:
  assumes "2 \<le> a" and "a < 32" and "b < 64"
  shows "encode_rune (64 * a + b) = [0xC0 + a, 0x80 + b]"
  using assms digits64 [OF assms(3), of a] by (simp add: encode_rune_def)

lemma encode_three:
  assumes "a < 16" "b < 64" "c < 64" and "32 \<le> 64 * a + b" 
   and "\<not> (0x360 \<le> 64 * a + b \<and> 64 * a + b < 0x380)"
  shows "encode_rune (64 * (64 * a + b) + c) = [0xE0 + a, 0x80 + b, 0x80 + c]"
proof -
  let ?r = "64 * (64 * a + b) + c"
  have "?r div 64 = 64 * a + b" "?r mod 64 = c" by (rule digits64 [OF assms(3)])+
  moreover have "?r div 4096 = ?r div 64 div 64" by (simp add: div_mult2_eq [symmetric])
  moreover have "0x800 \<le> ?r" using assms(4) by simp
  moreover have "?r < 0x10000" using assms(1-3) by simp
  moreover have "\<not> (0xD800 \<le> ?r \<and> ?r \<le> 0xDFFF)" 
  proof (cases "64 * a + b < 0x360")
    case True
    then show ?thesis using assms(3) by simp
  next
    case False
    with assms(5) have "0x380 \<le> 64 * a + b" by linarith
    then show ?thesis by simp
  qed
  moreover have "(64 * a + b) div 64 = a" "(64 * a + b) mod 64 = b" by (rule digits64 [OF assms(2)])+
  ultimately show ?thesis by (simp add: encode_rune_def)
qed

lemma encode_four:
  assumes "a < 8" "b < 64" "c < 64" "d < 64" and "16 \<le> 64 * a + b" "64 * a + b < 272"
  shows "encode_rune (64 * (64 * (64 * a + b) + c) + d) = [0xF0 + a, 0x80 + b, 0x80 + c, 0x80 + d]"
proof -
  let ?q = "64 * (64 * a + b) + c"
  let ?r = "64 * ?q + d"
  have r: "?r div 64 = ?q" "?r mod 64 = d" by (rule digits64 [OF assms(4)])+
  have q: "?q div 64 = 64 * a + b" "?q mod 64 = c" by (rule digits64 [OF assms(3)])+
  have p: "(64 * a + b) div 64 = a" "(64 * a + b) mod 64 = b" by (rule digits64 [OF assms(2)])+
  have "?r div 4096 = ?r div 64 div 64" "?r div 262144 = ?r div 64 div 64 div 64"
    by (simp_all add: div_mult2_eq [symmetric])
  moreover have "0x10000 \<le> ?r" using assms(5) by simp
  moreover have "?r \<le> 0x10FFFF" using assms(3,4,6) by simp
  ultimately show ?thesis
    using r q p by (simp add: encode_rune_def)
qed

fun decode_rune :: "nat list \<Rightarrow> nat \<times> nat" where
  "decode_rune [] = (rune_error, 0)"
| "decode_rune (s0 # rest) =
     (if s0 < 0x80 then (s0, 1)
      else if 0xC2 \<le> s0 \<and> s0 \<le> 0xDF then
        (case rest of
           s1 # _ \<Rightarrow>
             if second_byte s0 s1 then (64 * (s0 mod 32) + s1 mod 64, 2) else (rune_error, 1)
         | _ \<Rightarrow> (rune_error, 1))
      else if 0xE0 \<le> s0 \<and> s0 \<le> 0xEF then
        (case rest of
           s1 # s2 # _ \<Rightarrow>
             if second_byte s0 s1 \<and> cont_byte s2
             then (64 * (64 * (s0 mod 16) + s1 mod 64) + s2 mod 64, 3) else (rune_error, 1)
         | _ \<Rightarrow> (rune_error, 1))
      else if 0xF0 \<le> s0 \<and> s0 \<le> 0xF4 then
        (case rest of
           s1 # s2 # s3 # _ \<Rightarrow>
             if second_byte s0 s1 \<and> cont_byte s2 \<and> cont_byte s3
             then (64 * (64 * (64 * (s0 mod 8) + s1 mod 64) + s2 mod 64) + s3 mod 64, 4)
             else (rune_error, 1)
         | _ \<Rightarrow> (rune_error, 1))
      else (rune_error, 1))"

declare decode_rune.simps(2) [simp del]

text \<open>
  What a successful decode establishes: the rune encodes to the bytes it was read from, is a
  Unicode scalar value, and is ASCII exactly when its first byte is.
\<close>

definition good_decode :: "nat list \<Rightarrow> nat \<Rightarrow> nat \<Rightarrow> bool" where
  "good_decode s r w \<longleftrightarrow> encode_rune r = take w s \<and> 1 \<le> w \<and> w \<le> length s \<and>
     (0x80 \<le> hd s \<longrightarrow> 0x80 \<le> r) \<and> (hd s < 0x80 \<longrightarrow> r = hd s) \<and> r \<le> 0x10FFFF \<and>
     \<not> (0xD800 \<le> r \<and> r \<le> 0xDFFF)"

lemma second_byte_cont: "second_byte s0 s1 \<Longrightarrow> cont_byte s1"
  by (auto simp: second_byte_def cont_byte_def split: if_splits)

lemma good_two:
  assumes "0xC2 \<le> s0" "s0 \<le> 0xDF" "second_byte s0 s1"
  shows "good_decode (s0 # s1 # t) (64 * (s0 mod 32) + s1 mod 64) 2"
proof -
  obtain b where b: "s1 = 128 + b" "b < 64" "s1 mod 64 = b"
    using second_byte_cont [OF assms(3)] by (rule cont_byteE)
  define a where "a = s0 - 192"
  have a: "s0 = 192 + a" "2 \<le> a" "a < 32" using assms(1,2) unfolding a_def by linarith+
  have "s0 mod 32 = a" using a offset_mod [of s0 32 6 a] by simp
  then show ?thesis
    using encode_two [OF a(2,3) b(2)] a b by (simp add: good_decode_def)
qed

lemma good_three:
  assumes "0xE0 \<le> s0" "s0 \<le> 0xEF" "second_byte s0 s1" "cont_byte s2"
  shows "good_decode (s0 # s1 # s2 # t) (64 * (64 * (s0 mod 16) + s1 mod 64) + s2 mod 64) 3"
proof -
  obtain b where b: "s1 = 128 + b" "b < 64" "s1 mod 64 = b"
    using second_byte_cont [OF assms(3)] by (rule cont_byteE)
  obtain c where c: "s2 = 128 + c" "c < 64" "s2 mod 64 = c"
    using assms(4) by (rule cont_byteE)
  define a where "a = s0 - 224"
  have a: "s0 = 224 + a" "a < 16" using assms(1,2) unfolding a_def by linarith+
  have m: "s0 mod 16 = a" using a offset_mod [of s0 16 14 a] by simp
  have lo: "a = 0 \<Longrightarrow> 32 \<le> b" and sur: "a = 13 \<Longrightarrow> b < 32"
    using assms(3) a b by (auto simp: second_byte_def)
  have "32 \<le> 64 * a + b" using lo by (cases "a = 0") auto
  moreover have "\<not> (0x360 \<le> 64 * a + b \<and> 64 * a + b < 0x380)"
  proof
    assume "0x360 \<le> 64 * a + b \<and> 64 * a + b < 0x380"
    then have a13: "a = 13" and "864 \<le> 64 * a + b" using b(2) by linarith+
    then have "32 \<le> b" by simp
    with a13 sur show False by simp
  qed
  ultimately show ?thesis
    using encode_three [OF a(2) b(2) c(2)] a b c m by (auto simp: good_decode_def)
qed

lemma good_four:
  assumes "0xF0 \<le> s0" "s0 \<le> 0xF4" "second_byte s0 s1" "cont_byte s2" "cont_byte s3"
  shows "good_decode (s0 # s1 # s2 # s3 # t)
    (64 * (64 * (64 * (s0 mod 8) + s1 mod 64) + s2 mod 64) + s3 mod 64) 4"
proof -
  obtain b where b: "s1 = 128 + b" "b < 64" "s1 mod 64 = b"
    using second_byte_cont [OF assms(3)] by (rule cont_byteE)
  obtain c where c: "s2 = 128 + c" "c < 64" "s2 mod 64 = c"
    using assms(4) by (rule cont_byteE)
  obtain d where d: "s3 = 128 + d" "d < 64" "s3 mod 64 = d"
    using assms(5) by (rule cont_byteE)
  define a where "a = s0 - 240"
  have a: "s0 = 240 + a" "a < 8" "a \<le> 4" using assms(1,2) unfolding a_def by linarith+
  have m: "s0 mod 8 = a" using a offset_mod [of s0 8 30 a] by simp
  have lo: "a = 0 \<Longrightarrow> 16 \<le> b" and hi: "a = 4 \<Longrightarrow> b < 16"
    using assms(3) a b by (auto simp: second_byte_def)
  have "16 \<le> 64 * a + b" using lo by (cases "a = 0") auto
  moreover have "64 * a + b < 272" using hi a(3) b(2) by (cases "a = 4") auto
  ultimately show ?thesis
    using encode_four [OF a(2) b(2) c(2) d(2)] a b c d m by (auto simp: good_decode_def)
qed

lemma decode_rune_good:
  assumes "decode_rune (s0 # rest) = (r, w)" and "\<not> (w = 1 \<and> r = rune_error)"
  shows "good_decode (s0 # rest) r w"
proof (cases "s0 < 0x80")
  case True
  with assms show ?thesis by (auto simp: good_decode_def encode_rune_def decode_rune.simps(2))
next
  case False
  with assms show ?thesis
    by (auto simp: decode_rune.simps(2) simp del: distrib_left_numeral split: if_splits list.splits
        intro!: good_two good_three good_four)
qed

lemma decode_rune_width: "decode_rune (s0 # rest) = (r, w) \<Longrightarrow> 1 \<le> w"
  by (auto simp: decode_rune.simps(2) split: if_splits list.splits)

section \<open>Quoting: strconv.Quote\<close>


definition is_print :: "(nat \<Rightarrow> bool) \<Rightarrow> nat \<Rightarrow> bool" where
  "is_print table r =
     (if r \<le> 0xFF then (0x20 \<le> r \<and> r < 0x7F) \<or> (0xA1 \<le> r \<and> r \<noteq> 0xAD) else table r)"

definition lowerhex :: "nat \<Rightarrow> nat" where
  "lowerhex d = (if d < 10 then 48 + d else 87 + d)"

fun hex_digits :: "nat \<Rightarrow> nat \<Rightarrow> nat list" where
  "hex_digits 0 r = []"
| "hex_digits (Suc n) r = hex_digits n (r div 16) @ [lowerhex (r mod 16)]"

definition valid_rune :: "nat \<Rightarrow> bool" where
  "valid_rune r \<longleftrightarrow> r < 0xD800 \<or> (0xDFFF < r \<and> r \<le> 0x10FFFF)"

definition append_escaped_rune :: "(nat \<Rightarrow> bool) \<Rightarrow> nat \<Rightarrow> nat list" where
  "append_escaped_rune table r =
     (if r = 34 \<or> r = 92 then [92, r]
      else if is_print table r then encode_rune r
      else if r = 7 then [92, 97]
      else if r = 8 then [92, 98]
      else if r = 12 then [92, 102]
      else if r = 10 then [92, 110]
      else if r = 13 then [92, 114]
      else if r = 9 then [92, 116]
      else if r = 11 then [92, 118]
      else if r < 32 \<or> r = 0x7F then [92, 120] @ hex_digits 2 r
      else if \<not> valid_rune r then [92, 117] @ hex_digits 4 rune_error
      else if r < 0x10000 then [92, 117] @ hex_digits 4 r
      else [92, 85] @ hex_digits 8 r)"

fun quote_body :: "(nat \<Rightarrow> bool) \<Rightarrow> nat list \<Rightarrow> nat list" where
  "quote_body table [] = []"
| "quote_body table (s0 # rest) =
     (case decode_rune (s0 # rest) of (r, width) \<Rightarrow>
        if width = 1 \<and> r = rune_error
        then [92, 120] @ hex_digits 2 s0 @ quote_body table rest
        else append_escaped_rune table r @ quote_body table (drop (width - 1) rest))"

declare quote_body.simps(2) [simp del]

definition byte_codes :: "string \<Rightarrow> nat list" where
  "byte_codes s = map of_char s"

definition quote :: "(nat \<Rightarrow> bool) \<Rightarrow> string \<Rightarrow> string" where
  "quote table s = map char_of ([34] @ quote_body table (byte_codes s) @ [34])"

section \<open>Reading a YAML scalar\<close>

text \<open>
  A double-quoted scalar on one line, as YAML 1.2 reads it: the escapes of its chapter 5.7, of which
  \<open>\xNN\<close>, \<open>\uNNNN\<close> and \<open>\UNNNNNNNN\<close> are code points, not bytes; every other character from the space on
  stands for itself. It is the specification \<open>quote\<close> is checked against: what Go quotes is read by
  somebody else. The two differ for a byte that is not UTF-8, so quoting is faithful for valid UTF-8
  only (\<open>utf8.ValidString\<close>).
\<close>

definition unhex :: "nat \<Rightarrow> nat option" where
  "unhex c = (if 48 \<le> c \<and> c \<le> 57 then Some (c - 48)
     else if 97 \<le> c \<and> c \<le> 102 then Some (c - 87)
     else if 65 \<le> c \<and> c \<le> 70 then Some (c - 55) else None)"

fun read_hex :: "nat \<Rightarrow> nat \<Rightarrow> nat list \<Rightarrow> (nat \<times> nat list) option" where
  "read_hex 0 acc cs = Some (acc, cs)"
| "read_hex (Suc n) acc [] = None"
| "read_hex (Suc n) acc (c # cs) =
     (case unhex c of None \<Rightarrow> None | Some d \<Rightarrow> read_hex n (16 * acc + d) cs)"

lemma read_hex_length: "read_hex n acc cs = Some (v, rest) \<Longrightarrow> length rest \<le> length cs"
  by (induction n acc cs rule: read_hex.induct) (auto split: option.splits)

definition yaml_escape :: "nat \<Rightarrow> nat option" where
  "yaml_escape c = map_of [(48, 0), (97, 7), (98, 8), (116, 9), (9, 9), (110, 10), (118, 11), (102, 12), (114, 13),
     (101, 27), (32, 32), (34, 34), (47, 47), (92, 92), (78, 0x85), (95, 0xA0), (76, 0x2028), (80, 0x2029)] c"

definition yaml_hex_length :: "nat \<Rightarrow> nat option" where
  "yaml_hex_length c = map_of [(120, 2), (117, 4), (85, 8)] c"

function yaml_body :: "nat list \<Rightarrow> nat list option" where
  "yaml_body [] = None"
| "yaml_body (c # cs) =
     (if c = 34 then (if cs = [] then Some [] else None)
      else if c < 32 \<and> c \<noteq> 9 then None
      else if c \<noteq> 92 then map_option ((#) c) (yaml_body cs)
      else (case cs of
          [] \<Rightarrow> None
        | e # es \<Rightarrow>
            (case yaml_escape e of
               Some r \<Rightarrow> map_option ((@) (encode_rune r)) (yaml_body es)
             | None \<Rightarrow>
                 (case yaml_hex_length e of
                    None \<Rightarrow> None
                  | Some n \<Rightarrow>
                      (case read_hex n 0 es of
                         None \<Rightarrow> None
                       | Some (r, rest) \<Rightarrow> map_option ((@) (encode_rune r)) (yaml_body rest))))))"
  by pat_completeness auto
termination
  by (relation "measure length") (auto dest!: read_hex_length)

declare yaml_body.simps(2) [simp del]

definition yaml_scalar :: "string \<Rightarrow> string option" where
  "yaml_scalar q = (case byte_codes q of
       c # cs \<Rightarrow> if c = 34 then map_option (map char_of) (yaml_body cs) else None
     | [] \<Rightarrow> None)"

text \<open>\<open>utf8.ValidString\<close>.\<close>

fun valid_utf8 :: "nat list \<Rightarrow> bool" where
  "valid_utf8 [] \<longleftrightarrow> True"
| "valid_utf8 (s0 # rest) \<longleftrightarrow>
     (case decode_rune (s0 # rest) of (r, width) \<Rightarrow>
        \<not> (width = 1 \<and> r = rune_error) \<and> valid_utf8 (drop (width - 1) rest))"

declare valid_utf8.simps(2) [simp del]

definition ValidString :: "string \<Rightarrow> bool" where
  "ValidString s = valid_utf8 (byte_codes s)"

lemma unhex_lowerhex: "d < 16 \<Longrightarrow> unhex (lowerhex d) = Some d"
  by (auto simp: unhex_def lowerhex_def)

lemma read_hex_append:
  "read_hex (m + n) acc cs =
     (case read_hex m acc cs of None \<Rightarrow> None | Some (v, rest) \<Rightarrow> read_hex n v rest)"
  by (induction m acc cs rule: read_hex.induct) (auto split: option.splits)

lemma read_hex_digits:
  "r < 16 ^ n \<Longrightarrow> read_hex n acc (hex_digits n r @ cs) = Some (16 ^ n * acc + r, cs)"
proof (induction n arbitrary: r cs)
  case 0
  then show ?case by simp
next
  case (Suc n)
  have "r div 16 < 16 ^ n" using Suc.prems by (simp add: less_mult_imp_div_less mult.commute)
  then have "read_hex n acc (hex_digits n (r div 16) @ lowerhex (r mod 16) # cs)
      = Some (16 ^ n * acc + r div 16, lowerhex (r mod 16) # cs)"
    by (rule Suc.IH)
  moreover have "16 * (16 ^ n * acc + r div 16) + r mod 16 = 16 ^ Suc n * acc + r"
    by (simp add: distrib_left mult.assoc)
  ultimately show ?case
    using read_hex_append [of n 1 acc "hex_digits n (r div 16) @ lowerhex (r mod 16) # cs"]
    by (simp add: unhex_lowerhex)
qed

lemma yaml_raw:
  "\<forall>b \<in> set bs. b \<noteq> 34 \<and> b \<noteq> 92 \<and> 32 \<le> b \<Longrightarrow>
     yaml_body (bs @ cs) = map_option ((@) bs) (yaml_body cs)"
  by (induction bs; cases "yaml_body cs") (auto simp: yaml_body.simps(2))

lemma yaml_hex:
  assumes "(e, n) \<in> {(120, 2), (117, 4), (85, 8)}" and "v < 16 ^ n"
  shows "yaml_body ([92, e] @ hex_digits n v @ cs) = map_option ((@) (encode_rune v)) (yaml_body cs)"
  using assms read_hex_digits [of v n 0 cs]
  by (auto simp: yaml_body.simps(2) yaml_escape_def yaml_hex_length_def)

lemma yaml_simple:
  "yaml_escape e = Some r \<Longrightarrow> yaml_body ([92, e] @ cs) = map_option ((@) (encode_rune r)) (yaml_body cs)"
  by (simp add: yaml_body.simps(2))

lemma encode_rune_high: "0x80 \<le> r \<Longrightarrow> \<forall>b \<in> set (encode_rune r). 0x80 \<le> b"
  by (auto simp: encode_rune_def)

lemma encode_rune_bytes: "r \<le> 0x10FFFF \<Longrightarrow> \<forall>b \<in> set (encode_rune r). b < 256"
proof -
  assume "r \<le> 0x10FFFF"
  then have "r div 262144 \<le> 4" by simp
  moreover have "r < 0x10000 \<Longrightarrow> r div 4096 < 16" "r < 0x800 \<Longrightarrow> r div 64 < 32" by simp_all
  moreover have "\<And>x. x mod 64 < (64::nat)" by simp
  ultimately show ?thesis
    by (auto simp: encode_rune_def intro: order.strict_trans1)
qed

lemma hex_digits_plain: "b \<in> set (hex_digits n r) \<Longrightarrow> 48 \<le> b \<and> b \<le> 102"
  by (induction n arbitrary: r) (auto simp: lowerhex_def split: if_splits)

lemma yaml_escaped:
  assumes "r \<le> 0x10FFFF" and "\<not> (0xD800 \<le> r \<and> r \<le> 0xDFFF)"
  shows "yaml_body (append_escaped_rune table r @ cs) = map_option ((@) (encode_rune r)) (yaml_body cs)"
proof -
  have valid: "valid_rune r" using assms by (auto simp: valid_rune_def)
  consider (s) "r \<in> {34, 92}" | (p) "r \<noteq> 34" "r \<noteq> 92" "is_print table r"
    | (e) "r \<in> {7, 8, 9, 10, 11, 12, 13}"
    | (x) "r \<noteq> 34" "r \<noteq> 92" "\<not> is_print table r" "r \<notin> {7, 8, 9, 10, 11, 12, 13}"
    by auto
  then show ?thesis
  proof cases
    case s
    then show ?thesis
      using yaml_simple [of r r cs] by (auto simp: append_escaped_rune_def yaml_escape_def)
  next
    case p
    have "\<forall>b \<in> set (encode_rune r). b \<noteq> 34 \<and> b \<noteq> 92 \<and> 32 \<le> b"
    proof (cases "r < 0x80")
      case True
      with p show ?thesis by (auto simp: encode_rune_def is_print_def)
    next
      case False
      then show ?thesis using encode_rune_high [of r] by fastforce
    qed
    from yaml_raw [OF this] p show ?thesis by (simp add: append_escaped_rune_def)
  next
    case e
    then have "\<exists>c. yaml_escape c = Some r \<and> append_escaped_rune table r = [92, c]"
      by (auto simp: append_escaped_rune_def is_print_def yaml_escape_def)
    then show ?thesis using yaml_simple by auto
  next
    case x
    then show ?thesis
      using yaml_hex [of 120 2 r cs] yaml_hex [of 117 4 r cs] yaml_hex [of 85 8 r cs] assms valid
      by (auto simp: append_escaped_rune_def)
  qed
qed

lemma yaml_quote_body:
  "valid_utf8 s \<Longrightarrow> yaml_body (quote_body table s @ [34]) = Some s"
proof (induction table s rule: quote_body.induct)
  case (1 table)
  then show ?case by (simp add: yaml_body.simps(2))
next
  case (2 table s0 rest)
  obtain r w where dec: "decode_rune (s0 # rest) = (r, w)" by (cases "decode_rune (s0 # rest)")
  have ok: "\<not> (w = 1 \<and> r = rune_error)" and valid: "valid_utf8 (drop (w - 1) rest)"
    using "2.prems" dec by (auto simp: valid_utf8.simps(2))
  have good: "good_decode (s0 # rest) r w" by (rule decode_rune_good [OF dec ok])
  then have w: "1 \<le> w" and tk: "encode_rune r = take w (s0 # rest)"
    and r: "r \<le> 0x10FFFF" "\<not> (0xD800 \<le> r \<and> r \<le> 0xDFFF)"
    by (auto simp: good_decode_def)
  have "yaml_body (quote_body table (drop (w - 1) rest) @ [34]) = Some (drop (w - 1) rest)"
    using "2.IH"(2) [OF dec [symmetric] ok valid] .
  moreover have "drop (w - 1) rest = drop w (s0 # rest)" using w by (cases w) auto
  ultimately show ?case
    using ok dec tk yaml_escaped [OF r, of table "quote_body table (drop (w - 1) rest) @ [34]"]
    by (auto simp: quote_body.simps(2))
qed

definition plain_bytes :: "nat list \<Rightarrow> bool" where
  "plain_bytes bs \<longleftrightarrow> (\<forall>b \<in> set bs. 32 \<le> b \<and> b \<noteq> 0x7F \<and> b < 256)"

lemma plain_append [simp]: "plain_bytes (xs @ ys) \<longleftrightarrow> plain_bytes xs \<and> plain_bytes ys"
  by (auto simp: plain_bytes_def)

lemma plain_hex: "plain_bytes (hex_digits n r)"
  by (auto simp: plain_bytes_def dest!: hex_digits_plain)

lemma plain_escaped:
  assumes "r \<le> 0x10FFFF"
  shows "plain_bytes (append_escaped_rune table r)"
proof -
  have esc: "plain_bytes (92 # c # bs)" if "plain_bytes bs" "plain_bytes [c]" for c bs
    using that by (auto simp: plain_bytes_def)
  have "plain_bytes (encode_rune r)" if "is_print table r"
  proof (cases "r < 0x80")
    case True
    with that show ?thesis by (auto simp: plain_bytes_def encode_rune_def is_print_def split: if_splits)
  next
    case False
    then show ?thesis
      using encode_rune_high [of r] encode_rune_bytes [OF assms] by (fastforce simp: plain_bytes_def)
  qed
  moreover have "plain_bytes [120]" "plain_bytes [117]" "plain_bytes [85]" "plain_bytes [97]"
      "plain_bytes [98]" "plain_bytes [102]" "plain_bytes [110]" "plain_bytes [114]"
      "plain_bytes [116]" "plain_bytes [118]" "plain_bytes []" "plain_bytes [34]" "plain_bytes [92]"
    by (simp_all add: plain_bytes_def)
  ultimately show ?thesis
    using plain_hex by (auto simp: append_escaped_rune_def intro!: esc)
qed

lemma plain_quote_body: "plain_bytes (quote_body table s)"
proof (induction table s rule: quote_body.induct)
  case (1 table)
  then show ?case by (simp add: plain_bytes_def)
next
  case (2 table s0 rest)
  obtain r w where dec: "decode_rune (s0 # rest) = (r, w)" by (cases "decode_rune (s0 # rest)")
  show ?case
  proof (cases "w = 1 \<and> r = rune_error")
    case True
    have "plain_bytes ([92, 120] @ hex_digits 2 s0)"
      using plain_hex [of 2 s0] by (auto simp: plain_bytes_def)
    with True dec "2.IH"(1) [OF dec [symmetric] True] show ?thesis
      using plain_append [of "92 # 120 # hex_digits 2 s0" "quote_body table rest"]
      by (simp add: quote_body.simps(2))
  next
    case False
    then have "r \<le> 0x10FFFF" using decode_rune_good [OF dec] by (simp add: good_decode_def)
    from plain_escaped [OF this] show ?thesis
      using False dec "2.IH"(2) [OF dec [symmetric] False] by (auto simp: quote_body.simps(2))
  qed
qed

lemma byte_codes_char_of: "\<forall>b \<in> set bs. b < 256 \<Longrightarrow> byte_codes (map char_of bs) = bs"
  by (induction bs) (auto simp: byte_codes_def)

lemma map_char_of_byte_codes: "map char_of (byte_codes s) = s"
  by (induction s) (auto simp: byte_codes_def)

lemma yaml_quote:
  assumes "ValidString s"
  shows "yaml_scalar (quote table s) = Some s"
proof -
  have "\<forall>b \<in> set ([34] @ quote_body table (byte_codes s) @ [34]). b < 256"
    using plain_quote_body [of table "byte_codes s"] by (auto simp: plain_bytes_def)
  then have "byte_codes (quote table s) = 34 # quote_body table (byte_codes s) @ [34]"
    unfolding quote_def by (subst byte_codes_char_of) auto
  then show ?thesis
    using assms by (simp add: yaml_scalar_def ValidString_def yaml_quote_body map_char_of_byte_codes)
qed

theorem quote_plain:
  "c \<in> set (quote table s) \<Longrightarrow> 32 \<le> (of_char c :: nat) \<and> of_char c \<noteq> (0x7F :: nat)"
proof -
  assume "c \<in> set (quote table s)"
  then obtain b where "b \<in> set ([34] @ quote_body table (byte_codes s) @ [34])" and c: "c = char_of b"
    by (auto simp: quote_def)
  with plain_quote_body [of table "byte_codes s"]
  have "32 \<le> b \<and> b \<noteq> 0x7F \<and> b < 256" by (auto simp: plain_bytes_def)
  with c show ?thesis by simp
qed

lemma quote_no_newline: "CHR 0x0A \<notin> set (quote table s)"
  using quote_plain [of "CHR 0x0A" table s] by (auto simp: of_char_Char)

section \<open>Trimming and splitting at newlines\<close>

abbreviation newline :: char where
  "newline \<equiv> CHR 0x0A"

text \<open>\<open>strings.TrimRight(s, "\n")\<close> and \<open>strings.SplitSeq(s, "\n")\<close>.\<close>

definition trim_right_nl :: "string \<Rightarrow> string" where
  "trim_right_nl s = rev (dropWhile (\<lambda>c. c = newline) (rev s))"

fun split_nl :: "string \<Rightarrow> string list" where
  "split_nl [] = [[]]"
| "split_nl (c # cs) =
     (if c = newline then [] # split_nl cs
      else (case split_nl cs of [] \<Rightarrow> [[c]] | l # ls \<Rightarrow> (c # l) # ls))"

fun join_nl :: "string list \<Rightarrow> string" where
  "join_nl [] = []"
| "join_nl [l] = l"
| "join_nl (l # ls) = l @ newline # join_nl ls"

lemma split_nl_nonempty [simp]: "split_nl s \<noteq> []"
  by (induction s) (auto split: list.splits)

lemma join_split_nl: "join_nl (split_nl s) = s"
proof (induction s)
  case Nil
  then show ?case by simp
next
  case (Cons c cs)
  obtain l ls where ls: "split_nl cs = l # ls" by (cases "split_nl cs") auto
  with Cons show ?case by (cases ls) auto
qed

lemma split_nl_lines: "l \<in> set (split_nl s) \<Longrightarrow> newline \<notin> set l"
  by (induction s arbitrary: l) (auto split: list.splits if_splits)

lemma split_nl_append_line:
  "newline \<notin> set l \<Longrightarrow> split_nl (l @ newline # s) = l # split_nl s"
  by (induction l) auto

lemma split_nl_single: "newline \<notin> set l \<Longrightarrow> split_nl l = [l]"
  by (induction l) auto

lemma count_newlines: "length (split_nl s) = Suc (count_list s newline)"
  by (induction s) (auto split: list.splits)

end
