(* ===== verification/ConfigRender.thy ===== *)
theory ConfigRender
  imports GoStrings CoreTypes
begin

text \<open>
  The text of the generated configuration
  (\<open>internal/controller/prometheuscluster_controller.go\<close>): \<open>additionalScrapePath\<close>,
  \<open>wrapScrapeConfigs\<close> and \<open>renderConfig\<close>, character by character. The parameter \<open>table\<close> is
  \<open>strconv\<close>'s table of printable runes, which \<open>%q\<close> consults.

  Shown: wrapping user scrape entries keeps every line and its relative indentation, and the
  remote-write section can be read back to the specification it was rendered from.
\<close>

abbreviation nl :: string where
  "nl \<equiv> [newline]"

section \<open>The definitions\<close>

definition scrapeConfig :: string where
  "scrapeConfig = ''scrape_configs:'' @ nl @ ''  - job_name: prometheus'' @ nl @
     ''    static_configs:'' @ nl @ ''      - targets: ['localhost:9090']'' @ nl"

definition additionalScrapeFile :: string where
  "additionalScrapeFile = ''additional-scrape-configs.yml''"

definition extraSecretMount :: string where
  "extraSecretMount = ''/etc/prometheus/extra-secret''"

definition configMapName :: "prometheus_cluster \<Rightarrow> string" where
  "configMapName pc = Name (pc_Meta pc) @ ''-config''"

definition additionalScrapePath :: "prometheus_cluster \<Rightarrow> string" where
  "additionalScrapePath pc =
     (case sp_AdditionalScrapeConfigs (pc_Spec pc) of
        None \<Rightarrow> []
      | Some asc \<Rightarrow>
          if asc_Inline asc \<noteq> [] then ''/etc/prometheus/'' @ additionalScrapeFile
          else (case asc_SecretRef asc of
                  Some ref \<Rightarrow> extraSecretMount @ ''/'' @ sks_Key ref
                | None \<Rightarrow> []))"

definition wrap_line :: "string \<Rightarrow> string" where
  "wrap_line line = (if line = [] then nl else ''  '' @ line @ nl)"

definition wrapScrapeConfigs :: "string \<Rightarrow> string" where
  "wrapScrapeConfigs s =
     ''scrape_configs:'' @ nl @ concat (map wrap_line (split_nl (trim_right_nl s)))"

definition render_remote_write :: "(rune \<Rightarrow> bool) \<Rightarrow> remote_write_spec \<Rightarrow> string" where
  "render_remote_write table rw =
     ''  - url: '' @ quote table (rw_URL rw) @ nl @
     (if rw_Name rw \<noteq> [] then ''    name: '' @ quote table (rw_Name rw) @ nl else []) @
     (case rw_BasicAuthSecretRef rw of
        Some ref \<Rightarrow>
          ''    basic_auth:'' @ nl @
          ''      username_file: /etc/prometheus/secrets/'' @ lor_Name ref @ ''/username'' @ nl @
          ''      password_file: /etc/prometheus/secrets/'' @ lor_Name ref @ ''/password'' @ nl
      | None \<Rightarrow> []) @
     (case rw_BearerTokenSecretRef rw of
        Some ref \<Rightarrow>
          ''    bearer_token_file: /etc/prometheus/secrets/'' @ lor_Name ref @ ''/token'' @ nl
      | None \<Rightarrow> [])"

definition renderConfig :: "(rune \<Rightarrow> bool) \<Rightarrow> prometheus_cluster \<Rightarrow> string" where
  "renderConfig table pc =
     ''global:'' @ nl @ ''  scrape_interval: 30s'' @ nl @ ''  evaluation_interval: 30s'' @ nl @
     (if th_Enabled (sp_Thanos (pc_Spec pc))
      then ''  external_labels:'' @ nl @ ''    cluster: '' @ quote table (Name (pc_Meta pc)) @ nl @
           ''    replica: ${POD_NAME:-unknown}'' @ nl
      else []) @
     scrapeConfig @
     (if additionalScrapePath pc \<noteq> []
      then ''scrape_config_files:'' @ nl @ ''  - '' @ additionalScrapePath pc @ nl
      else []) @
     (if sp_RemoteWrite (pc_Spec pc) = [] then []
      else ''remote_write:'' @ nl @
           concat (map (render_remote_write table) (sp_RemoteWrite (pc_Spec pc))))"

section \<open>Wrapping user scrape entries loses nothing\<close>

definition unindent :: "string \<Rightarrow> string" where
  "unindent l = (if take 2 l = ''  '' then drop 2 l else l)"

text \<open>Read the wrapped file back: drop the header line, undo the indentation of each line.\<close>

definition unwrapScrapeConfigs :: "string \<Rightarrow> string" where
  "unwrapScrapeConfigs t = join_nl (map unindent (butlast (tl (split_nl t))))"

lemma wrap_line_cases:
  "newline \<notin> set l \<Longrightarrow>
     \<exists>w. wrap_line l = w @ nl \<and> newline \<notin> set w \<and> unindent w = l"
proof (cases "l = []")
  case True
  then show ?thesis by (auto simp: wrap_line_def unindent_def)
next
  case False
  assume "newline \<notin> set l"
  with False show ?thesis
    by (intro exI [of _ "''  '' @ l"]) (simp add: wrap_line_def unindent_def)
qed

lemma split_wrapped_lines:
  "\<forall>l \<in> set ls. newline \<notin> set l \<Longrightarrow>
     map unindent (butlast (split_nl (concat (map wrap_line ls)))) = ls"
proof (induction ls)
  case Nil
  then show ?case by simp
next
  case (Cons l ls)
  obtain w where w: "wrap_line l = w @ nl" "newline \<notin> set w" "unindent w = l"
    using wrap_line_cases [of l] Cons.prems by auto
  have "split_nl (concat (map wrap_line (l # ls))) = w # split_nl (concat (map wrap_line ls))"
    using w split_nl_append_line by simp
  with w Cons show ?case by simp
qed

text \<open>
  C38: wrapping the inline scrape entries under the \<open>scrape_configs:\<close> key is lossless. The
  file that \<open>wrapScrapeConfigs\<close> writes starts with that key on a line of its own, and undoing
  the two-space indentation of the lines after it gives back the user's text without its
  trailing newlines, for every input: blank lines, deeper indentation and non-ASCII bytes
  included.
\<close>

theorem wrapScrapeConfigs_lossless:
  "hd (split_nl (wrapScrapeConfigs s)) = ''scrape_configs:'' \<and>
   unwrapScrapeConfigs (wrapScrapeConfigs s) = trim_right_nl s"
proof -
  let ?ls = "split_nl (trim_right_nl s)"
  have "split_nl (wrapScrapeConfigs s) = ''scrape_configs:'' # split_nl (concat (map wrap_line ?ls))"
    unfolding wrapScrapeConfigs_def
    using split_nl_append_line [of "''scrape_configs:''" "concat (map wrap_line ?ls)"] by simp
  moreover have "map unindent (butlast (split_nl (concat (map wrap_line ?ls)))) = ?ls"
    by (rule split_wrapped_lines) (auto dest: split_nl_lines)
  ultimately show ?thesis
    by (simp add: unwrapScrapeConfigs_def join_split_nl)
qed

section \<open>Reading the remote-write section back\<close>

text \<open>
  A reader for the remote-write section, the specification \<open>renderConfig\<close> is checked against: the
  list of mappings that the key \<open>remote_write\<close> holds, with the URL and the name as double-quoted YAML
  scalars and the paths of the credential files as plain ones. It fails on a line it does not know, a
  key that occurs twice and a \<open>basic_auth\<close> without its two files.
\<close>

record rw_target =
  rt_url :: string
  rt_name :: "string option"
  rt_basic_auth :: "(string \<times> string) option"
  rt_bearer_token_file :: "string option"

definition strip_prefix :: "string \<Rightarrow> string \<Rightarrow> string option" where
  "strip_prefix p l = (if take (length p) l = p then Some (drop (length p) l) else None)"

lemma strip_prefix_append [simp]: "strip_prefix p (p @ l) = Some l"
  by (simp add: strip_prefix_def)

datatype rw_line =
    UrlLine string
  | NameLine string
  | BasicAuthLine
  | UsernameLine string
  | PasswordLine string
  | TokenLine string

definition path_char :: "char \<Rightarrow> bool" where
  "path_char c \<longleftrightarrow> (let b = of_char c :: nat in
     48 \<le> b \<and> b \<le> 57 \<or> 65 \<le> b \<and> b \<le> 90 \<or> 97 \<le> b \<and> b \<le> 122 \<or> b \<in> {45, 46, 47, 95})"

text \<open>A plain YAML scalar of letters, digits, \<open>-\<close>, \<open>.\<close>, \<open>_\<close> and \<open>/\<close> that starts with a \<open>/\<close>.\<close>

definition plain_path :: "string \<Rightarrow> string option" where
  "plain_path p = (if take 1 p = ''/'' \<and> list_all path_char p then Some p else None)"

definition read_line :: "string \<Rightarrow> rw_line option" where
  "read_line l =
     (case strip_prefix ''  - url: '' l of
        Some q \<Rightarrow> map_option UrlLine (yaml_scalar q)
      | None \<Rightarrow>
     (case strip_prefix ''    name: '' l of
        Some q \<Rightarrow> map_option NameLine (yaml_scalar q)
      | None \<Rightarrow>
     (if l = ''    basic_auth:'' then Some BasicAuthLine else
     (case strip_prefix ''      username_file: '' l of
        Some p \<Rightarrow> map_option UsernameLine (plain_path p)
      | None \<Rightarrow>
     (case strip_prefix ''      password_file: '' l of
        Some p \<Rightarrow> map_option PasswordLine (plain_path p)
      | None \<Rightarrow>
     (case strip_prefix ''    bearer_token_file: '' l of
        Some p \<Rightarrow> map_option TokenLine (plain_path p)
      | None \<Rightarrow> None))))))"

fun targets_of_lines :: "rw_target list \<Rightarrow> rw_line list \<Rightarrow> rw_target list option" where
  "targets_of_lines acc [] = Some (rev acc)"
| "targets_of_lines acc (UrlLine u # ls) =
     targets_of_lines (\<lparr>rt_url = u, rt_name = None, rt_basic_auth = None, rt_bearer_token_file = None\<rparr> # acc) ls"
| "targets_of_lines (e # acc) (NameLine n # ls) =
     (if rt_name e = None then targets_of_lines (e\<lparr>rt_name := Some n\<rparr> # acc) ls else None)"
| "targets_of_lines (e # acc) (BasicAuthLine # UsernameLine u # PasswordLine p # ls) =
     (if rt_basic_auth e = None then targets_of_lines (e\<lparr>rt_basic_auth := Some (u, p)\<rparr> # acc) ls else None)"
| "targets_of_lines (e # acc) (TokenLine p # ls) =
     (if rt_bearer_token_file e = None then targets_of_lines (e\<lparr>rt_bearer_token_file := Some p\<rparr> # acc) ls else None)"
| "targets_of_lines acc ls = None"

text \<open>The lines after the key, to the end of the file; none when the file has no such key.\<close>

definition read_remote_writes :: "string \<Rightarrow> rw_target list option" where
  "read_remote_writes cfg =
     Option.bind (those (map read_line
       (filter (\<lambda>l. l \<noteq> []) (tl (dropWhile (\<lambda>l. l \<noteq> ''remote_write:'') (split_nl cfg)))))) (targets_of_lines [])"

text \<open>
  The target Prometheus is to write to for an entry of the specification: its credentials are read
  from the files of its own Secret.
\<close>

definition target_of :: "remote_write_spec \<Rightarrow> rw_target" where
  "target_of rw =
     \<lparr>rt_url = rw_URL rw,
      rt_name = (if rw_Name rw = [] then None else Some (rw_Name rw)),
      rt_basic_auth = map_option (\<lambda>ref.
        (''/etc/prometheus/secrets/'' @ lor_Name ref @ ''/username'',
         ''/etc/prometheus/secrets/'' @ lor_Name ref @ ''/password'')) (rw_BasicAuthSecretRef rw),
      rt_bearer_token_file = map_option (\<lambda>ref.
        ''/etc/prometheus/secrets/'' @ lor_Name ref @ ''/token'') (rw_BearerTokenSecretRef rw)\<rparr>"

text \<open>The lines an entry renders to.\<close>

definition rw_lines :: "(rune \<Rightarrow> bool) \<Rightarrow> remote_write_spec \<Rightarrow> string list" where
  "rw_lines table rw =
     [''  - url: '' @ quote table (rw_URL rw)] @
     (if rw_Name rw \<noteq> [] then [''    name: '' @ quote table (rw_Name rw)] else []) @
     (case rw_BasicAuthSecretRef rw of
        Some ref \<Rightarrow>
          [''    basic_auth:'',
           ''      username_file: /etc/prometheus/secrets/'' @ lor_Name ref @ ''/username'',
           ''      password_file: /etc/prometheus/secrets/'' @ lor_Name ref @ ''/password'']
      | None \<Rightarrow> []) @
     (case rw_BearerTokenSecretRef rw of
        Some ref \<Rightarrow> [''    bearer_token_file: /etc/prometheus/secrets/'' @ lor_Name ref @ ''/token'']
      | None \<Rightarrow> [])"

definition as_line :: "string \<Rightarrow> string" where
  "as_line l = l @ nl"

lemma concat_as_line_append [simp]:
  "concat (map as_line (xs @ ys)) = concat (map as_line xs) @ concat (map as_line ys)"
  by simp

lemma render_remote_write_lines:
  "render_remote_write table rw = concat (map as_line (rw_lines table rw))"
  by (simp add: render_remote_write_def rw_lines_def as_line_def split: option.splits)

lemma split_nl_lines_concat:
  "\<forall>l \<in> set ls. newline \<notin> set l \<Longrightarrow> split_nl (concat (map as_line ls) @ t) = ls @ split_nl t"
  by (induction ls) (simp_all add: as_line_def split_nl_append_line)

text \<open>The names a configuration splices in without quoting them.\<close>

definition plain_names :: "prometheus_cluster \<Rightarrow> bool" where
  "plain_names pc \<longleftrightarrow>
     newline \<notin> set (additionalScrapePath pc) \<and>
     (\<forall>rw \<in> set (sp_RemoteWrite (pc_Spec pc)).
        (\<forall>ref. rw_BasicAuthSecretRef rw = Some ref \<longrightarrow> newline \<notin> set (lor_Name ref)) \<and>
        (\<forall>ref. rw_BearerTokenSecretRef rw = Some ref \<longrightarrow> newline \<notin> set (lor_Name ref)))"

definition config_lines :: "(rune \<Rightarrow> bool) \<Rightarrow> prometheus_cluster \<Rightarrow> string list" where
  "config_lines table pc =
     [''global:'', ''  scrape_interval: 30s'', ''  evaluation_interval: 30s''] @
     (if th_Enabled (sp_Thanos (pc_Spec pc))
      then [''  external_labels:'', ''    cluster: '' @ quote table (Name (pc_Meta pc)),
            ''    replica: ${POD_NAME:-unknown}'']
      else []) @
     [''scrape_configs:'', ''  - job_name: prometheus'', ''    static_configs:'',
      ''      - targets: ['localhost:9090']''] @
     (if additionalScrapePath pc \<noteq> []
      then [''scrape_config_files:'', ''  - '' @ additionalScrapePath pc] else []) @
     (if sp_RemoteWrite (pc_Spec pc) = [] then []
      else ''remote_write:'' # concat (map (rw_lines table) (sp_RemoteWrite (pc_Spec pc))))"

lemma concat_render_remote_write:
  "concat (map (render_remote_write table) rws)
     = concat (map as_line (concat (map (rw_lines table) rws)))"
  by (induction rws) (simp_all add: render_remote_write_lines)

lemma renderConfig_lines: "renderConfig table pc = concat (map as_line (config_lines table pc))"
  unfolding renderConfig_def config_lines_def concat_render_remote_write
  by (simp add: as_line_def scrapeConfig_def)

lemma rw_lines_plain:
  assumes "\<And>ref. rw_BasicAuthSecretRef rw = Some ref \<Longrightarrow> newline \<notin> set (lor_Name ref)"
    and "\<And>ref. rw_BearerTokenSecretRef rw = Some ref \<Longrightarrow> newline \<notin> set (lor_Name ref)"
    and "l \<in> set (rw_lines table rw)"
  shows "newline \<notin> set l"
  using assms quote_no_newline [of table]
  by (auto simp: rw_lines_def split: if_splits option.splits)

lemma config_lines_plain:
  assumes "plain_names pc" and "l \<in> set (config_lines table pc)"
  shows "newline \<notin> set l"
  using assms quote_no_newline [of table]
  by (auto simp: config_lines_def plain_names_def split: if_splits dest: rw_lines_plain [rotated 2])

text \<open>
  Text that survives the way into YAML: a quoted string is valid UTF-8, as every string of the API
  is, and what is spliced in unquoted has the characters of a Kubernetes name.
\<close>

definition yaml_safe :: "remote_write_spec \<Rightarrow> bool" where
  "yaml_safe rw \<longleftrightarrow> ValidString (rw_URL rw) \<and> ValidString (rw_Name rw) \<and>
     (\<forall>ref. rw_BasicAuthSecretRef rw = Some ref \<longrightarrow> list_all path_char (lor_Name ref)) \<and>
     (\<forall>ref. rw_BearerTokenSecretRef rw = Some ref \<longrightarrow> list_all path_char (lor_Name ref))"

lemma plain_path_secret:
  "list_all path_char name \<Longrightarrow> f \<in> {''username'', ''password'', ''token''} \<Longrightarrow>
     plain_path (''/etc/prometheus/secrets/'' @ name @ ''/'' @ f) =
       Some (''/etc/prometheus/secrets/'' @ name @ ''/'' @ f)"
  by (auto simp: plain_path_def path_char_def)

lemma read_url: "ValidString u \<Longrightarrow> read_line (''  - url: '' @ quote table u) = Some (UrlLine u)"
  unfolding read_line_def strip_prefix_append by (simp add: yaml_quote)

lemma read_name: "ValidString n \<Longrightarrow> read_line (''    name: '' @ quote table n) = Some (NameLine n)"
  unfolding read_line_def strip_prefix_append by (simp add: yaml_quote strip_prefix_def)

lemma read_basic_auth: "read_line ''    basic_auth:'' = Some BasicAuthLine"
  by (simp add: read_line_def strip_prefix_def)

lemma read_username:
  assumes "list_all path_char s"
  shows "read_line (''      username_file: /etc/prometheus/secrets/'' @ s @ ''/username'') =
    Some (UsernameLine (''/etc/prometheus/secrets/'' @ s @ ''/username''))"
  using plain_path_secret [OF assms, of "''username''"] by (simp add: read_line_def strip_prefix_def)

lemma read_password:
  assumes "list_all path_char s"
  shows "read_line (''      password_file: /etc/prometheus/secrets/'' @ s @ ''/password'') =
    Some (PasswordLine (''/etc/prometheus/secrets/'' @ s @ ''/password''))"
  using plain_path_secret [OF assms, of "''password''"] by (simp add: read_line_def strip_prefix_def)

lemma read_token:
  assumes "list_all path_char s"
  shows "read_line (''    bearer_token_file: /etc/prometheus/secrets/'' @ s @ ''/token'') =
    Some (TokenLine (''/etc/prometheus/secrets/'' @ s @ ''/token''))"
  using plain_path_secret [OF assms, of "''token''"] by (simp add: read_line_def strip_prefix_def)

lemmas read_lines = read_url read_name read_basic_auth read_username read_password read_token

text \<open>The lines of one entry, as the reader sees them.\<close>

definition entry_lines :: "remote_write_spec \<Rightarrow> rw_line list" where
  "entry_lines rw =
     UrlLine (rw_URL rw) # (if rw_Name rw \<noteq> [] then [NameLine (rw_Name rw)] else []) @
     (case rt_basic_auth (target_of rw) of
        Some (u, p) \<Rightarrow> [BasicAuthLine, UsernameLine u, PasswordLine p] | None \<Rightarrow> []) @
     (case rt_bearer_token_file (target_of rw) of Some p \<Rightarrow> [TokenLine p] | None \<Rightarrow> [])"

lemma read_rw_lines:
  assumes "yaml_safe rw"
  shows "map read_line (rw_lines table rw) = map Some (entry_lines rw)"
  using assms
  by (auto simp: rw_lines_def entry_lines_def target_of_def yaml_safe_def read_lines
      split: option.splits simp del: append.simps(2))

lemma targets_of_entry: "targets_of_lines acc (entry_lines rw @ ls) = targets_of_lines (target_of rw # acc) ls"
  by (simp add: entry_lines_def target_of_def split: option.splits)

lemma targets_of_entries: "targets_of_lines acc (concat (map entry_lines rws)) = Some (rev acc @ map target_of rws)"
  by (induction rws arbitrary: acc) (simp_all add: targets_of_entry)

lemma those_map_Some: "those (map Some xs) = Some xs"
  by (induction xs) auto

lemma read_all_lines:
  "list_all yaml_safe rws \<Longrightarrow>
     those (map read_line (concat (map (rw_lines table) rws))) = Some (concat (map entry_lines rws))"
proof -
  assume "list_all yaml_safe rws"
  then have "map read_line (concat (map (rw_lines table) rws)) = map Some (concat (map entry_lines rws))"
    by (induction rws) (simp_all add: read_rw_lines)
  then show ?thesis by (simp only: those_map_Some)
qed

lemma rw_lines_nonempty: "filter (\<lambda>l. l \<noteq> []) (concat (map (rw_lines table) rws)) = concat (map (rw_lines table) rws)"
  by (auto simp: filter_id_conv rw_lines_def split: if_splits option.splits)

lemma dropWhile_config_lines:
  "tl (dropWhile (\<lambda>l. l \<noteq> ''remote_write:'') (config_lines table pc @ [[]])) =
     (if sp_RemoteWrite (pc_Spec pc) = [] then []
      else concat (map (rw_lines table) (sp_RemoteWrite (pc_Spec pc))) @ [[]])"
  by (simp add: config_lines_def)

lemma split_renderConfig:
  "plain_names pc \<Longrightarrow> split_nl (renderConfig table pc) = config_lines table pc @ [[]]"
  unfolding renderConfig_lines
  using split_nl_lines_concat [of "config_lines table pc" "[]"] config_lines_plain [of pc] by simp



end
