(* ===== verification/StatefulSetBuilder.thy ===== *)
theory StatefulSetBuilder
  imports ConfigRender
begin

text \<open>
  The pod template of a cluster (\<open>internal/controller/prometheuscluster_controller.go\<close>):
  \<open>buildReloaderSidecar\<close>, \<open>buildThanosSidecar\<close> and \<open>buildStatefulSet\<close>. The operations of
  \<open>resource.Quantity\<close> (parsing, \<open>MustParse\<close> of a constant, \<open>IsZero\<close>) are a parameter.

  Shown: the volumes and mounts of the template fit together, which Secrets reach the pod,
  and which flags Prometheus is started with.
\<close>

record quantity_lib =
  ParseQuantity :: "string \<Rightarrow> quantity result"
  MustParse :: "string \<Rightarrow> quantity"
  QuantityIsZero :: "quantity \<Rightarrow> bool"

text \<open>A concrete instance: a quantity is its text, and the zero quantity is the text \<open>0\<close>.\<close>

definition text_quantities :: quantity_lib where
  "text_quantities = \<lparr>ParseQuantity = (\<lambda>s. Inr (Quantity s)), MustParse = Quantity,
     QuantityIsZero = (\<lambda>q. quantity_text q = ''0'')\<rparr>"

section \<open>The containers\<close>

definition reloaderImage :: string where
  "reloaderImage = ''ghcr.io/jimmidyson/configmap-reload:v0.13.1''"

definition resourceMustParseOrZero :: "quantity_lib \<Rightarrow> string \<Rightarrow> quantity" where
  "resourceMustParseOrZero Q s = (case ParseQuantity Q s of Inl err \<Rightarrow> Quantity ''0'' | Inr q \<Rightarrow> q)"

definition buildReloaderSidecar :: "quantity_lib \<Rightarrow> container" where
  "buildReloaderSidecar Q =
     \<lparr>c_Name = ''config-reloader'',
      c_Image = reloaderImage,
      c_Args = [''--volume-dir=/etc/prometheus'', ''--webhook-method=POST'',
        ''--webhook-url=http://127.0.0.1:9090/-/reload''],
      c_Env = [],
      c_Ports = [],
      c_ReadinessProbe = None,
      c_LivenessProbe = None,
      c_VolumeMounts =
        [\<lparr>vm_Name = ''config'', vm_MountPath = ''/etc/prometheus'', vm_ReadOnly = True\<rparr>],
      c_Resources = \<lparr>Limits = Map.empty,
        Requests = [''cpu'' \<mapsto> resourceMustParseOrZero Q ''10m'',
                    ''memory'' \<mapsto> resourceMustParseOrZero Q ''16Mi'']\<rparr>\<rparr>"

definition buildThanosSidecar :: "thanos_spec \<Rightarrow> container \<times> pod_volume option" where
  "buildThanosSidecar t =
     (let image = (if th_Image t = [] then ''quay.io/thanos/thanos:v0.37.2'' else th_Image t);
          args = [''sidecar'', ''--tsdb.path=/prometheus'',
            ''--prometheus.url=http://localhost:9090'', ''--http-address=0.0.0.0:10902'',
            ''--grpc-address=0.0.0.0:10901''];
          mounts = [\<lparr>vm_Name = ''data'', vm_MountPath = ''/prometheus'', vm_ReadOnly = False\<rparr>];
          (args, mounts, volume) =
            (case th_ObjectStorageConfigSecretRef t of
               Some ref \<Rightarrow>
                 (args @ [''--objstore.config-file=/etc/thanos/objstore/objstore.yml''],
                  mounts @ [\<lparr>vm_Name = ''thanos-objstore'', vm_MountPath = ''/etc/thanos/objstore'',
                              vm_ReadOnly = True\<rparr>],
                  Some \<lparr>vol_Name = ''thanos-objstore'', vol_Source = SecretSource (lor_Name ref)\<rparr>)
             | None \<Rightarrow> (args, mounts, None))
      in (\<lparr>c_Name = ''thanos-sidecar'',
           c_Image = image,
           c_Args = args,
           c_Env = [],
           c_Ports = [\<lparr>cp_Name = ''thanos-http'', cp_ContainerPort = 10902\<rparr>,
                      \<lparr>cp_Name = ''thanos-grpc'', cp_ContainerPort = 10901\<rparr>],
           c_ReadinessProbe = Some \<lparr>hg_Path = ''/-/ready'', hg_Port = 10902\<rparr>,
           c_LivenessProbe = None,
           c_VolumeMounts = mounts,
           c_Resources = zero_resources\<rparr>,
          volume))"

text \<open>The Prometheus container's flags and the container itself, before the optional mount.\<close>

definition prometheusArgs :: "prometheus_cluster \<Rightarrow> string list" where
  "prometheusArgs pc =
     (let retention = (if sp_Retention (pc_Spec pc) = [] then ''15d'' else sp_Retention (pc_Spec pc))
      in [''--config.file=/etc/prometheus/prometheus.yml'',
          ''--storage.tsdb.path=/prometheus'',
          ''--storage.tsdb.retention.time='' @ retention,
          ''--web.enable-lifecycle''] @
         (if bk_Enabled (sp_Backup (pc_Spec pc)) then [''--web.enable-admin-api''] else []) @
         (if th_Enabled (sp_Thanos (pc_Spec pc))
          then [''--storage.tsdb.min-block-duration=2h'', ''--storage.tsdb.max-block-duration=2h'',
                ''--enable-feature=expand-external-labels'']
          else []))"

definition prometheusContainer :: "prometheus_cluster \<Rightarrow> container" where
  "prometheusContainer pc =
     \<lparr>c_Name = ''prometheus'',
      c_Image = (if sp_Image (pc_Spec pc) = [] then ''prom/prometheus:v2.55.1'' else sp_Image (pc_Spec pc)),
      c_Args = prometheusArgs pc,
      c_Env = [\<lparr>ev_Name = ''POD_NAME'', ev_FieldPath = ''metadata.name''\<rparr>],
      c_Ports = [\<lparr>cp_Name = ''http'', cp_ContainerPort = 9090\<rparr>],
      c_ReadinessProbe = Some \<lparr>hg_Path = ''/-/ready'', hg_Port = 9090\<rparr>,
      c_LivenessProbe = Some \<lparr>hg_Path = ''/-/healthy'', hg_Port = 9090\<rparr>,
      c_VolumeMounts =
        [\<lparr>vm_Name = ''data'', vm_MountPath = ''/prometheus'', vm_ReadOnly = False\<rparr>,
         \<lparr>vm_Name = ''config'', vm_MountPath = ''/etc/prometheus'', vm_ReadOnly = False\<rparr>],
      c_Resources = sp_Resources (pc_Spec pc)\<rparr>"

section \<open>The StatefulSet\<close>

definition mount_extra_secret :: "container \<Rightarrow> container" where
  "mount_extra_secret c =
     (if c_Name c = ''prometheus''
      then c\<lparr>c_VolumeMounts := c_VolumeMounts c @
             [\<lparr>vm_Name = ''extra-scrape-secret'', vm_MountPath = extraSecretMount, vm_ReadOnly = True\<rparr>]\<rparr>
      else c)"

definition buildPodSpec :: "quantity_lib \<Rightarrow> prometheus_cluster \<Rightarrow> pod_spec" where
  "buildPodSpec Q pc =
     (let containers = [buildReloaderSidecar Q, prometheusContainer pc];
          volumes = [\<lparr>vol_Name = ''config'', vol_Source = ConfigMapSource (configMapName pc)\<rparr>];
          (containers, volumes) =
            (if th_Enabled (sp_Thanos (pc_Spec pc))
             then (case buildThanosSidecar (sp_Thanos (pc_Spec pc)) of
                     (sidecar, extraVolume) \<Rightarrow>
                       (containers @ [sidecar],
                        volumes @ (case extraVolume of Some v \<Rightarrow> [v] | None \<Rightarrow> [])))
             else (containers, volumes));
          (containers, volumes) =
            (case sp_AdditionalScrapeConfigs (pc_Spec pc) of
               Some asc \<Rightarrow>
                 (case asc_SecretRef asc of
                    Some ref \<Rightarrow>
                      (map mount_extra_secret containers,
                       volumes @ [\<lparr>vol_Name = ''extra-scrape-secret'',
                                   vol_Source = SecretSource (sks_Name ref)\<rparr>])
                  | None \<Rightarrow> (containers, volumes))
             | None \<Rightarrow> (containers, volumes))
      in \<lparr>ps_Containers = containers, ps_Volumes = volumes\<rparr>)"

definition clusterLabels :: "prometheus_cluster \<Rightarrow> (string \<rightharpoonup> string)" where
  "clusterLabels pc = [''app.kubernetes.io/name'' \<mapsto> ''prometheus'',
     ''app.kubernetes.io/instance'' \<mapsto> Name (pc_Meta pc)]"

definition buildStatefulSet :: "quantity_lib \<Rightarrow> prometheus_cluster \<Rightarrow> stateful_set" where
  "buildStatefulSet Q pc =
     (let labels = clusterLabels pc;
          size = (if QuantityIsZero Q (st_Size (sp_Storage (pc_Spec pc)))
                  then MustParse Q ''20Gi'' else st_Size (sp_Storage (pc_Spec pc)))
      in \<lparr>sts_Meta = zero_meta\<lparr>Name := Name (pc_Meta pc), Namespace := Namespace (pc_Meta pc),
                               Labels := labels\<rparr>,
          sts_ServiceName = Name (pc_Meta pc),
          sts_Replicas = Some (sp_Replicas (pc_Spec pc)),
          sts_Selector = Some \<lparr>MatchLabels = labels, MatchExpressions = []\<rparr>,
          sts_Template = \<lparr>pt_Labels = labels, pt_Spec = buildPodSpec Q pc\<rparr>,
          sts_VolumeClaimTemplates =
            [\<lparr>vc_Name = ''data'', vc_AccessModes = [''ReadWriteOnce''],
              vc_StorageClassName = st_StorageClassName (sp_Storage (pc_Spec pc)),
              vc_Requests = [''storage'' \<mapsto> size]\<rparr>],
          sts_ReadyReplicas = 0\<rparr>)"

section \<open>Shape of the template\<close>

text \<open>The optional parts, named: the Thanos volume and the extra Secret.\<close>

definition thanos_secret :: "prometheus_cluster \<Rightarrow> string option" where
  "thanos_secret pc =
     (if th_Enabled (sp_Thanos (pc_Spec pc))
      then map_option lor_Name (th_ObjectStorageConfigSecretRef (sp_Thanos (pc_Spec pc))) else None)"

definition scrape_secret :: "prometheus_cluster \<Rightarrow> string option" where
  "scrape_secret pc =
     Option.bind (sp_AdditionalScrapeConfigs (pc_Spec pc)) (\<lambda>asc. map_option sks_Name (asc_SecretRef asc))"

definition option_list :: "'a option \<Rightarrow> 'a list" where
  "option_list x = (case x of None \<Rightarrow> [] | Some a \<Rightarrow> [a])"

lemma option_list_simps [simp]: "option_list None = []" "option_list (Some a) = [a]"
  by (simp_all add: option_list_def)

lemma volumes_eq:
  "ps_Volumes (buildPodSpec Q pc) =
     [\<lparr>vol_Name = ''config'', vol_Source = ConfigMapSource (configMapName pc)\<rparr>] @
     map (\<lambda>s. \<lparr>vol_Name = ''thanos-objstore'', vol_Source = SecretSource s\<rparr>) (option_list (thanos_secret pc)) @
     map (\<lambda>s. \<lparr>vol_Name = ''extra-scrape-secret'', vol_Source = SecretSource s\<rparr>) (option_list (scrape_secret pc))"
  by (auto simp: buildPodSpec_def buildThanosSidecar_def thanos_secret_def scrape_secret_def Let_def
      split: option.splits)

lemma containers_eq:
  "ps_Containers (buildPodSpec Q pc) =
     [buildReloaderSidecar Q,
      (case scrape_secret pc of None \<Rightarrow> prometheusContainer pc
         | Some _ \<Rightarrow> mount_extra_secret (prometheusContainer pc))] @
     (if th_Enabled (sp_Thanos (pc_Spec pc)) then [fst (buildThanosSidecar (sp_Thanos (pc_Spec pc)))] else [])"
  by (auto simp: buildPodSpec_def buildThanosSidecar_def scrape_secret_def mount_extra_secret_def
      buildReloaderSidecar_def Let_def split: option.splits)

section \<open>Properties of the template\<close>


lemma template_names:
  "map vol_Name (ps_Volumes (buildPodSpec Q pc)) =
     ''config'' # (if thanos_secret pc = None then [] else [''thanos-objstore'']) @
     (if scrape_secret pc = None then [] else [''extra-scrape-secret''])"
  by (auto simp: volumes_eq)

lemma sidecar_mounts:
  "c_VolumeMounts (fst (buildThanosSidecar t)) =
     \<lparr>vm_Name = ''data'', vm_MountPath = ''/prometheus'', vm_ReadOnly = False\<rparr> #
     (if th_ObjectStorageConfigSecretRef t = None then []
      else [\<lparr>vm_Name = ''thanos-objstore'', vm_MountPath = ''/etc/thanos/objstore'', vm_ReadOnly = True\<rparr>])"
  by (auto simp: buildThanosSidecar_def Let_def split: option.splits)

text \<open>
  A container is well wired with respect to the volumes of its pod when it names an image,
  mounts nothing twice at one path, and every mount refers to one of the volumes.
\<close>

definition well_wired :: "container \<Rightarrow> string list \<Rightarrow> bool" where
  "well_wired c names \<longleftrightarrow> c_Image c \<noteq> [] \<and> distinct (map vm_MountPath (c_VolumeMounts c)) \<and>
     set (map vm_Name (c_VolumeMounts c)) \<subseteq> set names"

lemma well_wired_mono: "well_wired c ns \<Longrightarrow> set ns \<subseteq> set ns' \<Longrightarrow> well_wired c ns'"
  by (auto simp: well_wired_def)

lemma well_wired_containers:
  "well_wired (buildReloaderSidecar Q) [''config'']"
  "well_wired (prometheusContainer pc) [''config'', ''data'']"
  "well_wired (mount_extra_secret (prometheusContainer pc)) [''config'', ''data'', ''extra-scrape-secret'']"
  "well_wired (fst (buildThanosSidecar t))
     (''data'' # (if th_ObjectStorageConfigSecretRef t = None then [] else [''thanos-objstore'']))"
  by (auto simp: well_wired_def buildReloaderSidecar_def prometheusContainer_def mount_extra_secret_def
      extraSecretMount_def reloaderImage_def buildThanosSidecar_def Let_def split: option.splits)

lemma container_names:
  "map c_Name (ps_Containers (buildPodSpec Q pc)) =
     [''config-reloader'', ''prometheus''] @
     (if th_Enabled (sp_Thanos (pc_Spec pc)) then [''thanos-sidecar''] else [])"
  by (auto simp: containers_eq buildReloaderSidecar_def prometheusContainer_def mount_extra_secret_def
      buildThanosSidecar_def Let_def split: option.splits)

text \<open>
  C39: for every cluster specification, the generated pod template fits together: volume and
  claim names are distinct, container names are distinct, and every container has an image,
  distinct mount paths, and mounts only volumes that the template or its claim templates
  declare. The API server rejects a template without these.
\<close>

theorem template_well_wired:
  "let pod = buildPodSpec Q pc;
       names = map vol_Name (ps_Volumes pod) @ map vc_Name (sts_VolumeClaimTemplates (buildStatefulSet Q pc))
   in distinct names \<and> distinct (map c_Name (ps_Containers pod)) \<and>
      list_all (\<lambda>c. well_wired c names) (ps_Containers pod)"
proof -
  let ?names = "map vol_Name (ps_Volumes (buildPodSpec Q pc)) @ [''data'']"
  have claims: "map vc_Name (sts_VolumeClaimTemplates (buildStatefulSet Q pc)) = [''data'']"
    by (simp add: buildStatefulSet_def Let_def)
  have "well_wired (buildReloaderSidecar Q) ?names" "well_wired (prometheusContainer pc) ?names"
    by (rule well_wired_containers [THEN well_wired_mono], simp add: template_names)+
  moreover have "well_wired (mount_extra_secret (prometheusContainer pc)) ?names"
    if "scrape_secret pc = Some s" for s
    by (rule well_wired_containers(3) [THEN well_wired_mono]) (simp add: template_names that)
  moreover have "well_wired (fst (buildThanosSidecar (sp_Thanos (pc_Spec pc)))) ?names"
    if "th_Enabled (sp_Thanos (pc_Spec pc))"
    by (rule well_wired_containers(4) [THEN well_wired_mono])
      (simp add: template_names thanos_secret_def that)
  ultimately have "list_all (\<lambda>c. well_wired c ?names) (ps_Containers (buildPodSpec Q pc))"
    by (cases "scrape_secret pc") (simp_all add: containers_eq)
  moreover have "distinct ?names" "distinct (map c_Name (ps_Containers (buildPodSpec Q pc)))"
    by (simp_all add: template_names container_names)
  ultimately show ?thesis
    unfolding Let_def claims by simp
qed

lemma secret_sources:
  "SecretSource s \<in> vol_Source ` set (ps_Volumes (buildPodSpec Q pc)) \<longleftrightarrow>
     thanos_secret pc = Some s \<or> scrape_secret pc = Some s"
  by (cases "thanos_secret pc"; cases "scrape_secret pc") (auto simp: volumes_eq)

definition mount_paths :: "pod_spec \<Rightarrow> string list" where
  "mount_paths pod = concat (map (\<lambda>c. map vm_MountPath (c_VolumeMounts c)) (ps_Containers pod))"

lemma mount_paths_known:
  "set (mount_paths (buildPodSpec Q pc)) \<subseteq>
     {''/etc/prometheus'', ''/prometheus'', extraSecretMount, ''/etc/thanos/objstore''}"
  unfolding mount_paths_def containers_eq
  by (cases "scrape_secret pc")
    (auto simp: buildReloaderSidecar_def prometheusContainer_def mount_extra_secret_def sidecar_mounts)

text \<open>
  C40: the credentials of a remote-write target are referenced but never mounted. For a target
  with a basic-auth Secret the generated configuration tells Prometheus to read
  \<open>/etc/prometheus/secrets/<name>/username\<close>, yet no container of the generated template
  mounts anything at or below \<open>/etc/prometheus/secrets\<close>, and the Secret is a volume of the
  pod only if it happens to be the Thanos or the scrape Secret too.
\<close>

theorem remote_write_credentials_not_mounted:
  assumes "plain_names pc" and "rw \<in> set (sp_RemoteWrite (pc_Spec pc))"
    and "rw_BasicAuthSecretRef rw = Some ref"
  shows "(''      username_file: /etc/prometheus/secrets/'' @ lor_Name ref @ ''/username'')
      \<in> set (split_nl (renderConfig table pc)) \<and>
    (\<forall>p \<in> set (mount_paths (buildPodSpec Q pc)). strip_prefix ''/etc/prometheus/secrets'' p = None) \<and>
    (SecretSource (lor_Name ref) \<in> vol_Source ` set (ps_Volumes (buildPodSpec Q pc)) \<longleftrightarrow>
       thanos_secret pc = Some (lor_Name ref) \<or> scrape_secret pc = Some (lor_Name ref))"
proof (intro conjI)
  have "(''      username_file: /etc/prometheus/secrets/'' @ lor_Name ref @ ''/username'')
      \<in> set (rw_lines table rw)"
    using assms(3) by (simp add: rw_lines_def)
  then have "(''      username_file: /etc/prometheus/secrets/'' @ lor_Name ref @ ''/username'')
      \<in> set (config_lines table pc)"
    using assms(2) by (auto simp: config_lines_def)
  then show "(''      username_file: /etc/prometheus/secrets/'' @ lor_Name ref @ ''/username'')
      \<in> set (split_nl (renderConfig table pc))"
    by (simp add: split_renderConfig [OF assms(1)])
  show "\<forall>p \<in> set (mount_paths (buildPodSpec Q pc)). strip_prefix ''/etc/prometheus/secrets'' p = None"
    using mount_paths_known [of Q pc] by (auto simp: strip_prefix_def extraSecretMount_def dest!: subsetD)
qed (rule secret_sources)

text \<open>
  The flags follow the features. Prometheus serves the admin API, which the snapshot of a
  backup needs, exactly when backup is enabled; local compaction is switched off exactly when
  the Thanos sidecar ships blocks; and environment expansion in external labels is on exactly
  when the rendered configuration uses it.
\<close>

theorem prometheus_flags:
  "(''--web.enable-admin-api'' \<in> set (prometheusArgs pc) \<longleftrightarrow> bk_Enabled (sp_Backup (pc_Spec pc))) \<and>
   (''--storage.tsdb.min-block-duration=2h'' \<in> set (prometheusArgs pc) \<longleftrightarrow> th_Enabled (sp_Thanos (pc_Spec pc))) \<and>
   (''--storage.tsdb.max-block-duration=2h'' \<in> set (prometheusArgs pc) \<longleftrightarrow> th_Enabled (sp_Thanos (pc_Spec pc))) \<and>
   (''--enable-feature=expand-external-labels'' \<in> set (prometheusArgs pc) \<longleftrightarrow>
      ''    replica: ${POD_NAME:-unknown}'' \<in> set (config_lines table pc))"
  by (auto simp: prometheusArgs_def config_lines_def rw_lines_def Let_def split: option.splits if_splits)
theorem remote_write_credentials_not_mounted_witness:
  "\<exists>pc. (''      username_file: /etc/prometheus/secrets/creds/username'')
        \<in> set (split_nl (renderConfig (\<lambda>_. False) pc)) \<and>
     SecretSource ''creds'' \<notin> vol_Source ` set (ps_Volumes (buildPodSpec text_quantities pc))"
proof -
  let ?rw = "\<lparr>rw_URL = ''u'', rw_Name = [], rw_BasicAuthSecretRef = Some \<lparr>lor_Name = ''creds''\<rparr>,
      rw_BearerTokenSecretRef = None\<rparr>"
  let ?pc = "zero_cluster\<lparr>pc_Spec := zero_spec\<lparr>sp_RemoteWrite := [?rw]\<rparr>\<rparr>"
  have "plain_names ?pc" and none: "thanos_secret ?pc = None" "scrape_secret ?pc = None"
    by (simp_all add: plain_names_def additionalScrapePath_def thanos_secret_def scrape_secret_def
        zero_value_defs)
  from remote_write_credentials_not_mounted [OF this(1), of ?rw "\<lparr>lor_Name = ''creds''\<rparr>" "\<lambda>_. False" text_quantities]
  show ?thesis
    by (intro exI [of _ ?pc]) (simp add: none)
qed

end
