(* ===== verification/ClusterReconciler.thy ===== *)
theory ClusterReconciler
  imports KubeClient StatefulSetBuilder
begin

text \<open>
  The PrometheusCluster reconciler (\<open>internal/controller/prometheuscluster_controller.go\<close>):
  \<open>Reconcile\<close> and the operations it calls, on the state of the process. Every API call, every
  early return and the nil dereference of \<open>*current.Spec.Replicas\<close> is a branch. The helpers
  of controller-runtime that the handler calls on objects (finalizers, owner references,
  \<open>equality.Semantic.DeepEqual\<close>) are parameters, with their laws in the locale
  \<open>controller_util\<close>. Logging is left out.
\<close>

record reconcile_lib =
  ContainsFinalizer :: "prometheus_cluster \<Rightarrow> string \<Rightarrow> bool"
  AddFinalizer :: "prometheus_cluster \<Rightarrow> string \<Rightarrow> prometheus_cluster"
  RemoveFinalizer :: "prometheus_cluster \<Rightarrow> string \<Rightarrow> prometheus_cluster"
  SetControllerReference :: "prometheus_cluster \<Rightarrow> object_meta \<Rightarrow> object_meta result"
  PodSpecDeepEqual :: "pod_spec \<Rightarrow> pod_spec \<Rightarrow> bool"
  Quantities :: quantity_lib
  PrintTable :: "rune \<Rightarrow> bool"

record 'w cluster_reconciler =
  Client :: "'w client"
  BackupSchedule :: "(prometheus_cluster \<Rightarrow> 'w process \<Rightarrow> unit result \<times> 'w process) option"

record ctrl_result =
  Requeue :: bool

section \<open>The handler\<close>

definition finalizerName :: string where
  "finalizerName = ''observability.merlionos.org/finalizer''"

definition updatePhase ::
    "'w cluster_reconciler \<Rightarrow> prometheus_cluster \<Rightarrow> cluster_phase \<Rightarrow> int32 \<Rightarrow> 'w process \<Rightarrow>
     ctrl_result result \<times> 'w process" where
  "updatePhase R pc phase ready =
     (let pc = pc\<lparr>pc_Status := (pc_Status pc)\<lparr>cs_Phase := phase, cs_ReadyReplicas := ready\<rparr>\<rparr>
      in attempt ''update status'' (call (StatusUpdate (Clusters (Client R)) pc))
           (\<lambda>pc s. (Inr \<lparr>Requeue = False\<rparr>,
              s\<lparr>mets := SetPhase (Namespace (pc_Meta pc)) (Name (pc_Meta pc)) phase (mets s)\<rparr>)))"

definition finalize ::
    "reconcile_lib \<Rightarrow> 'w cluster_reconciler \<Rightarrow> prometheus_cluster \<Rightarrow> 'w process \<Rightarrow>
     ctrl_result result \<times> 'w process" where
  "finalize L R pc =
     (if \<not> ContainsFinalizer L pc finalizerName then (\<lambda>s. (Inr \<lparr>Requeue = False\<rparr>, s))
      else attempt ''remove finalizer''
             (call (Update (Clusters (Client R)) (RemoveFinalizer L pc finalizerName)))
             (\<lambda>pc s. (Inr \<lparr>Requeue = False\<rparr>,
                s\<lparr>mets := DeleteCluster (Namespace (pc_Meta pc)) (Name (pc_Meta pc)) (mets s)\<rparr>)))"

definition mutateConfigMap ::
    "reconcile_lib \<Rightarrow> prometheus_cluster \<Rightarrow> config_map \<Rightarrow> config_map result" where
  "mutateConfigMap L pc cm =
     (let data = (cm_Data cm)(''prometheus.yml'' \<mapsto> renderConfig (PrintTable L) pc);
          data = (case sp_AdditionalScrapeConfigs (pc_Spec pc) of
                    Some asc \<Rightarrow>
                      if asc_Inline asc \<noteq> []
                      then data(additionalScrapeFile \<mapsto> wrapScrapeConfigs (asc_Inline asc))
                      else data(additionalScrapeFile := None)
                  | None \<Rightarrow> data(additionalScrapeFile := None))
      in case SetControllerReference L pc (cm_Meta cm) of
           Inl e \<Rightarrow> Inl e
         | Inr m \<Rightarrow> Inr (cm\<lparr>cm_Meta := m, cm_Data := data\<rparr>))"

definition new_config_map :: "prometheus_cluster \<Rightarrow> config_map" where
  "new_config_map pc =
     \<lparr>cm_Meta = zero_meta\<lparr>Name := configMapName pc, Namespace := Namespace (pc_Meta pc)\<rparr>,
      cm_Data = Map.empty\<rparr>"

definition reconcileConfigMap ::
    "reconcile_lib \<Rightarrow> 'w cluster_reconciler \<Rightarrow> prometheus_cluster \<Rightarrow> 'w process \<Rightarrow>
     bool result \<times> 'w process" where
  "reconcileConfigMap L R pc s =
     (case call (CreateOrUpdateConfigMap (Client R) (new_config_map pc) (mutateConfigMap L pc)) s of
        (Inl e, s) \<Rightarrow> (Inl e, s)
      | (Inr op, s) \<Rightarrow> (Inr (op = OperationUpdated), s))"

definition mutateService ::
    "reconcile_lib \<Rightarrow> prometheus_cluster \<Rightarrow> service \<Rightarrow> service result" where
  "mutateService L pc svc =
     (let svc = svc\<lparr>svc_ClusterIP := ''None'',
                    svc_Selector := [''app.kubernetes.io/instance'' \<mapsto> Name (pc_Meta pc)],
                    svc_Ports := [\<lparr>svp_Name = ''http'', svp_Port = 9090, svp_TargetPort = 9090\<rparr>]\<rparr>
      in case SetControllerReference L pc (svc_Meta svc) of
           Inl e \<Rightarrow> Inl e
         | Inr m \<Rightarrow> Inr (svc\<lparr>svc_Meta := m\<rparr>))"

definition new_service :: "prometheus_cluster \<Rightarrow> service" where
  "new_service pc =
     \<lparr>svc_Meta = zero_meta\<lparr>Name := Name (pc_Meta pc), Namespace := Namespace (pc_Meta pc)\<rparr>,
      svc_ClusterIP = [], svc_Selector = Map.empty, svc_Ports = []\<rparr>"

definition reconcileHeadlessService ::
    "reconcile_lib \<Rightarrow> 'w cluster_reconciler \<Rightarrow> prometheus_cluster \<Rightarrow> 'w process \<Rightarrow>
     operation_result result \<times> 'w process" where
  "reconcileHeadlessService L R pc =
     call (CreateOrUpdateService (Client R) (new_service pc) (mutateService L pc))"

definition phaseFor :: "bool \<Rightarrow> int32 \<Rightarrow> int32 \<Rightarrow> cluster_phase" where
  "phaseFor replicasChanged readyReplicas replicas =
     (if replicasChanged then PhaseScaling
      else if sint readyReplicas < sint replicas then PhaseProvisioning
      else PhaseActive)"

definition updateStatefulSet ::
    "reconcile_lib \<Rightarrow> 'w cluster_reconciler \<Rightarrow> prometheus_cluster \<Rightarrow> stateful_set \<Rightarrow> stateful_set \<Rightarrow>
     'w process \<Rightarrow> ctrl_result result \<times> 'w process" where
  "updateStatefulSet L R pc desired current =
     (case sts_Replicas current of
        None \<Rightarrow> (\<lambda>s. (Inl NilDereference, s))
      | Some n \<Rightarrow>
          (let replicasChanged = (n \<noteq> sp_Replicas (pc_Spec pc));
               templateChanged = (\<not> PodSpecDeepEqual L (pt_Spec (sts_Template current))
                                                       (pt_Spec (sts_Template desired)));
               finish = (\<lambda>current. updatePhase R pc
                   (phaseFor replicasChanged (sts_ReadyReplicas current) (sp_Replicas (pc_Spec pc)))
                   (sts_ReadyReplicas current))
           in if replicasChanged \<or> templateChanged
              then attempt ''update statefulset''
                     (call (Update (StatefulSets (Client R))
                        (current\<lparr>sts_Replicas := Some (sp_Replicas (pc_Spec pc)),
                                 sts_Template := sts_Template desired\<rparr>)))
                     finish
              else finish current))"

definition createStatefulSet ::
    "reconcile_lib \<Rightarrow> 'w cluster_reconciler \<Rightarrow> prometheus_cluster \<Rightarrow> stateful_set \<Rightarrow>
     'w process \<Rightarrow> ctrl_result result \<times> 'w process" where
  "createStatefulSet L R pc desired =
     (case SetControllerReference L pc (sts_Meta desired) of
        Inl e \<Rightarrow> (\<lambda>s. (Inl (Wrapped ''set owner ref'' e), s))
      | Inr m \<Rightarrow> attempt ''create statefulset''
                   (call (Create (StatefulSets (Client R)) (desired\<lparr>sts_Meta := m\<rparr>)))
                   (\<lambda>_. updatePhase R pc PhaseProvisioning 0))"

definition reconcileStatefulSet ::
    "reconcile_lib \<Rightarrow> 'w cluster_reconciler \<Rightarrow> prometheus_cluster \<Rightarrow> 'w process \<Rightarrow>
     ctrl_result result \<times> 'w process" where
  "reconcileStatefulSet L R pc s =
     (let desired = buildStatefulSet (Quantities L) pc
      in case call (Get (StatefulSets (Client R)) (sts_key desired)) s of
           (Inl e, s) \<Rightarrow>
             if is_not_found e then createStatefulSet L R pc desired s
             else (Inl (Wrapped ''get statefulset'' e), s)
         | (Inr current, s) \<Rightarrow> updateStatefulSet L R pc desired current s)"

definition registerBackup ::
    "'w cluster_reconciler \<Rightarrow> prometheus_cluster \<Rightarrow> 'w process \<Rightarrow> unit result \<times> 'w process" where
  "registerBackup R pc =
     (case BackupSchedule R of
        Some register \<Rightarrow>
          (if bk_Enabled (sp_Backup (pc_Spec pc)) then register pc else (\<lambda>s. (Inr (), s)))
      | None \<Rightarrow> (\<lambda>s. (Inr (), s)))"

definition reconcileChildren ::
    "reconcile_lib \<Rightarrow> 'w cluster_reconciler \<Rightarrow> prometheus_cluster \<Rightarrow> 'w process \<Rightarrow>
     ctrl_result result \<times> 'w process" where
  "reconcileChildren L R pc =
     attempt ''register backup'' (registerBackup R pc) (\<lambda>_.
     attempt ''reconcile configmap'' (reconcileConfigMap L R pc) (\<lambda>_.
     attempt ''reconcile service'' (reconcileHeadlessService L R pc) (\<lambda>_.
     reconcileStatefulSet L R pc)))"

definition Reconcile ::
    "reconcile_lib \<Rightarrow> 'w cluster_reconciler \<Rightarrow> namespaced_name \<Rightarrow> 'w process \<Rightarrow>
     ctrl_result result \<times> 'w process" where
  "Reconcile L R req s =
     (case call (Get (Clusters (Client R)) req) s of
        (Inl e, s) \<Rightarrow>
          if is_not_found e then (Inr \<lparr>Requeue = False\<rparr>, s)
          else (Inl (Wrapped ''get PrometheusCluster'' e), s)
      | (Inr pc, s) \<Rightarrow>
          if DeletionTimestamp (pc_Meta pc) \<noteq> None then finalize L R pc s
          else if \<not> ContainsFinalizer L pc finalizerName then
            attempt ''add finalizer''
              (call (Update (Clusters (Client R)) (AddFinalizer L pc finalizerName)))
              (\<lambda>_ s. (Inr \<lparr>Requeue = True\<rparr>, s)) s
          else reconcileChildren L R pc s)"

section \<open>Laws of the helpers\<close>

text \<open>
  What \<open>controllerutil\<close> documents: the finalizer helpers change the finalizers only and do
  what their names say; \<open>SetControllerReference\<close> changes the owner references only, accepts
  an object without owners, and accepts again what it returned; \<open>DeepEqual\<close> is reflexive.
\<close>

locale controller_util =
  fixes L :: reconcile_lib
  assumes add_only: "\<exists>fs. AddFinalizer L pc f = pc\<lparr>pc_Meta := (pc_Meta pc)\<lparr>Finalizers := fs\<rparr>\<rparr>"
    and remove_only: "\<exists>fs. RemoveFinalizer L pc f = pc\<lparr>pc_Meta := (pc_Meta pc)\<lparr>Finalizers := fs\<rparr>\<rparr>"
    and contains_meta: "Finalizers (pc_Meta pc) = Finalizers (pc_Meta pc') \<Longrightarrow>
      ContainsFinalizer L pc f = ContainsFinalizer L pc' f"
    and contains_add: "ContainsFinalizer L (AddFinalizer L pc f) f"
    and contains_remove: "\<not> ContainsFinalizer L (RemoveFinalizer L pc f) f"
    and owner_only: "SetControllerReference L pc m = Inr m' \<Longrightarrow> \<exists>os. m' = m\<lparr>OwnerReferences := os\<rparr>"
    and owner_fresh: "OwnerReferences m = [] \<Longrightarrow> \<exists>m'. SetControllerReference L pc m = Inr m'"
    and owner_again: "SetControllerReference L pc m = Inr m' \<Longrightarrow>
      OwnerReferences m'' = OwnerReferences m' \<Longrightarrow> \<exists>r. SetControllerReference L pc m'' = Inr r"
    and owner_same: "pc_key pc = pc_key pc' \<Longrightarrow> UID (pc_Meta pc) = UID (pc_Meta pc') \<Longrightarrow>
      SetControllerReference L pc m = SetControllerReference L pc' m"
    and deep_equal_refl: "PodSpecDeepEqual L p p"
begin

lemma add_key: "pc_key (AddFinalizer L pc f) = pc_key pc"
  using add_only [of pc f] by (auto simp: pc_key_def meta_key_def)

lemma remove_key: "pc_key (RemoveFinalizer L pc f) = pc_key pc"
  using remove_only [of pc f] by (auto simp: pc_key_def meta_key_def)

lemma owner_version:
  "SetControllerReference L pc m = Inr m' \<Longrightarrow> \<exists>r. SetControllerReference L pc (with_version m' v) = Inr r"
  by (erule owner_again) simp

lemma owner_key: "SetControllerReference L pc m = Inr m' \<Longrightarrow> meta_key m' = meta_key m"
  by (auto dest!: owner_only simp: meta_key_def)

end

section \<open>The objects a reconcile may touch\<close>

lemma sts_key_build [simp]: "sts_key (buildStatefulSet Q pc) = pc_key pc"
  by (simp add: sts_key_def buildStatefulSet_def pc_key_def meta_key_def Let_def)

lemma new_children_keys [simp]:
  "meta_key (cm_Meta (new_config_map pc)) = (Namespace (pc_Meta pc), configMapName pc)"
  "meta_key (svc_Meta (new_service pc)) = pc_key pc"
  by (simp_all add: new_config_map_def new_service_def meta_key_def pc_key_def)

definition own_objects :: "namespaced_name \<Rightarrow> object_id set" where
  "own_objects k = {ClusterId k, StatefulSetId k, ServiceId k, ConfigMapId (fst k, snd k @ ''-config'')}"

lemma own_objects_mem [simp]:
  "ClusterId k' \<in> own_objects k \<longleftrightarrow> k' = k" "StatefulSetId k' \<in> own_objects k \<longleftrightarrow> k' = k"
  "ServiceId k' \<in> own_objects k \<longleftrightarrow> k' = k"
  "ConfigMapId (Namespace (pc_Meta pc), configMapName pc) \<in> own_objects (pc_key pc)"
  by (auto simp: own_objects_def configMapName_def pc_key_def meta_key_def)

section \<open>What a reconcile promises\<close>

definition additional_data :: "prometheus_cluster \<Rightarrow> string option" where
  "additional_data pc =
     (case sp_AdditionalScrapeConfigs (pc_Spec pc) of
        Some asc \<Rightarrow> if asc_Inline asc \<noteq> [] then Some (wrapScrapeConfigs (asc_Inline asc)) else None
      | None \<Rightarrow> None)"

definition controlled :: "reconcile_lib \<Rightarrow> prometheus_cluster \<Rightarrow> object_meta \<Rightarrow> bool" where
  "controlled L pc m \<longleftrightarrow> (\<exists>m'. SetControllerReference L pc m = Inr m')"

definition config_in_place :: "reconcile_lib \<Rightarrow> prometheus_cluster \<Rightarrow> store \<Rightarrow> bool" where
  "config_in_place L pc st \<longleftrightarrow>
     (\<exists>cm. v_ConfigMaps st (Namespace (pc_Meta pc), configMapName pc) = Some cm \<and>
        cm_Data cm ''prometheus.yml'' = Some (renderConfig (PrintTable L) pc) \<and>
        cm_Data cm additionalScrapeFile = additional_data pc \<and> controlled L pc (cm_Meta cm))"

definition service_in_place :: "reconcile_lib \<Rightarrow> prometheus_cluster \<Rightarrow> store \<Rightarrow> bool" where
  "service_in_place L pc st \<longleftrightarrow>
     (\<exists>svc. v_Services st (pc_key pc) = Some svc \<and> svc_ClusterIP svc = ''None'' \<and>
        svc_Selector svc = [''app.kubernetes.io/instance'' \<mapsto> Name (pc_Meta pc)] \<and>
        svc_Ports svc = [\<lparr>svp_Name = ''http'', svp_Port = 9090, svp_TargetPort = 9090\<rparr>] \<and> controlled L pc (svc_Meta svc))"

definition sts_matches ::
    "reconcile_lib \<Rightarrow> (stateful_set \<Rightarrow> stateful_set) \<Rightarrow> prometheus_cluster \<Rightarrow> stateful_set \<Rightarrow> bool" where
  "sts_matches L admit pc sts \<longleftrightarrow>
     sts_Replicas sts = Some (sp_Replicas (pc_Spec pc)) \<and>
     (let desired = buildStatefulSet (Quantities L) pc
      in PodSpecDeepEqual L (pt_Spec (sts_Template sts)) (pt_Spec (sts_Template desired)) \<or>
         sts_Template sts = sts_Template (admit desired))"

definition sts_in_place ::
    "reconcile_lib \<Rightarrow> (stateful_set \<Rightarrow> stateful_set) \<Rightarrow> prometheus_cluster \<Rightarrow> store \<Rightarrow> bool" where
  "sts_in_place L admit pc st \<longleftrightarrow>
     (\<exists>sts. v_StatefulSets st (pc_key pc) = Some sts \<and> sts_matches L admit pc sts)"

definition reported :: "('w \<Rightarrow> store) \<Rightarrow> prometheus_cluster \<Rightarrow> cluster_phase \<Rightarrow> int32 \<Rightarrow>
    'w process \<Rightarrow> 'w process \<Rightarrow> bool" where
  "reported view pc phase ready s t \<longleftrightarrow>
     (\<exists>pc0 v. v_Clusters (view (ext s)) (pc_key pc) = Some pc0 \<and>
        v_Clusters (view (ext t)) (pc_key pc) =
          Some (pc0\<lparr>pc_Meta := with_version (pc_Meta pc0) v,
                    pc_Status := (pc_Status pc)\<lparr>cs_Phase := phase, cs_ReadyReplicas := ready\<rparr>\<rparr>)) \<and>
     mets t = SetPhase (Namespace (pc_Meta pc)) (Name (pc_Meta pc)) phase (mets s)"

definition converged :: "reconcile_lib \<Rightarrow> (stateful_set \<Rightarrow> stateful_set) \<Rightarrow> prometheus_cluster \<Rightarrow> store \<Rightarrow> bool" where
  "converged L admit pc st \<longleftrightarrow>
     config_in_place L pc st \<and> service_in_place L pc st \<and> sts_in_place L admit pc st"

definition observed :: "prometheus_cluster \<Rightarrow> store \<Rightarrow> cluster_phase \<times> int32" where
  "observed pc st =
     (case v_StatefulSets st (pc_key pc) of
        Some sts \<Rightarrow> (phaseFor (sts_Replicas sts \<noteq> Some (sp_Replicas (pc_Spec pc)))
                       (sts_ReadyReplicas sts) (sp_Replicas (pc_Spec pc)), sts_ReadyReplicas sts)
      | None \<Rightarrow> (PhaseProvisioning, 0))"

lemma mutateConfigMap_data:
  "mutateConfigMap L pc cm = Inr cm' \<Longrightarrow>
     cm_Data cm' ''prometheus.yml'' = Some (renderConfig (PrintTable L) pc) \<and>
     cm_Data cm' additionalScrapeFile = additional_data pc \<and>
     SetControllerReference L pc (cm_Meta cm) = Inr (cm_Meta cm')"
  by (auto simp: mutateConfigMap_def additional_data_def Let_def additionalScrapeFile_def
      split: sum.splits option.splits if_splits)

lemma mutateService_fields:
  "mutateService L pc svc = Inr svc' \<Longrightarrow> svc_ClusterIP svc' = ''None'' \<and>
     svc_Selector svc' = [''app.kubernetes.io/instance'' \<mapsto> Name (pc_Meta pc)] \<and>
     svc_Ports svc' = [\<lparr>svp_Name = ''http'', svp_Port = 9090, svp_TargetPort = 9090\<rparr>] \<and>
     SetControllerReference L pc (svc_Meta svc) = Inr (svc_Meta svc')"
  by (auto simp: mutateService_def Let_def split: sum.splits)

locale cluster_reconcile =
  kube_scope "Client R" view admit + controller_util L
  for R :: "'w cluster_reconciler" and view :: "'w \<Rightarrow> store"
    and admit :: "stateful_set \<Rightarrow> stateful_set" and L :: reconcile_lib +
  assumes registrar_scope: "BackupSchedule R = Some reg \<Longrightarrow> keeps (confined view {}) (reg pc)"
    and registrar_metrics: "BackupSchedule R = Some reg \<Longrightarrow> reg pc s = (u, t) \<Longrightarrow> mets t = mets s"
begin

lemma confined_mono: "keeps (confined view X) op \<Longrightarrow> X \<subseteq> Y \<Longrightarrow> keeps (confined view Y) op"
  by (auto simp: keeps_def confined_def intro: same_except_mono)

lemma keeps_metrics [keeps_intro]: "keeps (confined view X) (\<lambda>s. (r, s\<lparr>mets := f (mets s)\<rparr>))"
  by (rule keepsI) (auto simp: confined_def)

lemma keeps_updatePhase:
  "ClusterId (pc_key pc) \<in> X \<Longrightarrow> keeps (confined view X) (updatePhase R pc phase ready)"
  unfolding updatePhase_def Let_def
  by (intro keeps_attempt clusters.keeps_status keeps_metrics) (simp_all add: pc_key_def)

lemma keeps_finalize:
  "ClusterId (pc_key pc) \<in> X \<Longrightarrow> keeps (confined view X) (finalize L R pc)"
  unfolding finalize_def
  by (intro keeps_if keeps_attempt keeps_return clusters.keeps_update keeps_metrics) (simp_all add: remove_key)

lemma keeps_registerBackup: "keeps (confined view X) (registerBackup R pc)"
  unfolding registerBackup_def
  by (auto split: option.splits intro!: keeps_return intro: confined_mono [OF registrar_scope])

lemma keeps_reconcileConfigMap:
  assumes "ConfigMapId (Namespace (pc_Meta pc), configMapName pc) \<in> X"
  shows "keeps (confined view X) (reconcileConfigMap L R pc)"
proof -
  have "keeps (confined view X) (call (CreateOrUpdateConfigMap (Client R) (new_config_map pc) (mutateConfigMap L pc)))"
    by (rule keeps_config_map) (use assms in simp)
  then show ?thesis
    unfolding reconcileConfigMap_def keeps_def by (auto split: prod.splits sum.splits)
       (metis snd_conv)+
qed

lemma keeps_reconcileHeadlessService:
  "ServiceId (pc_key pc) \<in> X \<Longrightarrow> keeps (confined view X) (reconcileHeadlessService L R pc)"
  unfolding reconcileHeadlessService_def by (rule keeps_service) simp

lemma keeps_createStatefulSet:
  assumes "ClusterId (pc_key pc) \<in> X" and "StatefulSetId (pc_key pc) \<in> X" and "sts_key desired = pc_key pc"
  shows "keeps (confined view X) (createStatefulSet L R pc desired)"
  unfolding createStatefulSet_def
  using assms by (auto split: sum.splits intro!: keeps_return keeps_attempt stss.keeps_create keeps_updatePhase
      simp: sts_key_def dest!: owner_key)

lemma keeps_updateStatefulSet:
  assumes "ClusterId (pc_key pc) \<in> X" and "StatefulSetId (pc_key pc) \<in> X" and "sts_key current = pc_key pc"
  shows "keeps (confined view X) (updateStatefulSet L R pc desired current)"
  unfolding updateStatefulSet_def Let_def
  using assms by (auto split: option.splits intro!: keeps_return keeps_attempt stss.keeps_update keeps_updatePhase keeps_if
      simp: sts_key_def)

lemma keeps_reconcileStatefulSet:
  assumes "ClusterId (pc_key pc) \<in> X" and "StatefulSetId (pc_key pc) \<in> X"
  shows "keeps (confined view X) (reconcileStatefulSet L R pc)"
proof (rule keepsI)
  fix s r t
  assume run: "reconcileStatefulSet L R pc s = (r, t)"
  let ?desired = "buildStatefulSet (Quantities L) pc"
  obtain x w where get: "Get (StatefulSets (Client R)) (sts_key ?desired) (ext s) = (x, w)"
    by (cases "Get (StatefulSets (Client R)) (sts_key ?desired) (ext s)")
  have first: "confined view X s (s\<lparr>ext := w\<rparr>)"
    using stss.get_same [OF get] by (simp add: confined_def)
  have "confined view X (s\<lparr>ext := w\<rparr>) t"
  proof (cases x)
    case (Inl e)
    with run get have "(if is_not_found e then createStatefulSet L R pc ?desired (s\<lparr>ext := w\<rparr>)
        else (Inl (Wrapped ''get statefulset'' e), s\<lparr>ext := w\<rparr>)) = (r, t)"
      by (simp add: reconcileStatefulSet_def Let_def)
    then show ?thesis
      using keepsD [OF keeps_createStatefulSet [OF assms, of ?desired]]
      by (auto split: if_splits simp: reflpD [OF confined_refl])
  next
    case (Inr current)
    with run get have "updateStatefulSet L R pc ?desired current (s\<lparr>ext := w\<rparr>) = (r, t)"
      by (simp add: reconcileStatefulSet_def Let_def)
    moreover have "sts_key current = pc_key pc"
      using stss.get_key [OF get [unfolded Inr]] by simp
    ultimately show ?thesis by (blast intro: keepsD [OF keeps_updateStatefulSet [OF assms]])
  qed
  with first show "confined view X s t" by (rule transpD [OF confined_trans])
qed

lemma keeps_reconcileChildren:
  "pc_key pc = k \<Longrightarrow> keeps (confined view (own_objects k)) (reconcileChildren L R pc)"
  unfolding reconcileChildren_def
  by (intro keeps_attempt keeps_registerBackup keeps_reconcileConfigMap keeps_reconcileHeadlessService
      keeps_reconcileStatefulSet) (auto)

lemma Reconcile_confined: "keeps (confined view (own_objects k)) (Reconcile L R k)"
proof (rule keepsI)
  fix s r t
  assume run: "Reconcile L R k s = (r, t)"
  obtain x w where get: "Get (Clusters (Client R)) k (ext s) = (x, w)"
    by (cases "Get (Clusters (Client R)) k (ext s)")
  let ?s = "s\<lparr>ext := w\<rparr>"
  let ?P = "confined view (own_objects k)"
  have first: "?P s ?s" using clusters.get_same [OF get] by (simp add: confined_def)
  have "?P ?s t"
  proof (cases x)
    case (Inl e)
    with run get show ?thesis
      by (auto simp: Reconcile_def reflpD [OF confined_refl] split: if_splits)
  next
    case (Inr pc)
    have key: "pc_key pc = k" by (rule clusters.get_key [OF get [unfolded Inr]])
    have "keeps ?P (finalize L R pc)" "keeps ?P (reconcileChildren L R pc)"
      by (rule keeps_finalize keeps_reconcileChildren, simp add: key)+
    moreover have "keeps ?P (attempt ''add finalizer''
        (call (Update (Clusters (Client R)) (AddFinalizer L pc finalizerName)))
        (\<lambda>_ s. (Inr \<lparr>Requeue = True\<rparr>, s)))"
      by (intro keeps_attempt clusters.keeps_update keeps_return) (simp_all add: add_key key)
    ultimately show ?thesis
      using run get Inr by (auto simp: Reconcile_def split: if_splits dest: keepsD)
  qed
  with first show "?P s t" by (rule transpD [OF confined_trans])
qed


lemma reconcileConfigMap_stored:
  assumes "reconcileConfigMap L R pc s = (Inr b, t)"
  shows "config_in_place L pc (view (ext t))"
proof -
  obtain op w where run: "CreateOrUpdateConfigMap (Client R) (new_config_map pc) (mutateConfigMap L pc) (ext s)
      = (Inr op, w)" and t: "t = s\<lparr>ext := w\<rparr>"
    using assms by (auto simp: reconcileConfigMap_def split: prod.splits sum.splits elim!: callE)
  from cm_stored [OF run] obtain old new v where "mutateConfigMap L pc old = Inr new"
    and "v_ConfigMaps (view w) (Namespace (pc_Meta pc), configMapName pc) =
      Some (new\<lparr>cm_Meta := with_version (cm_Meta new) v\<rparr>)"
    by auto
  with mutateConfigMap_data owner_version show ?thesis
    by (fastforce simp: config_in_place_def controlled_def t)
qed

lemma reconcileHeadlessService_stored:
  assumes "reconcileHeadlessService L R pc s = (Inr op, t)"
  shows "service_in_place L pc (view (ext t))"
proof -
  obtain w where run: "CreateOrUpdateService (Client R) (new_service pc) (mutateService L pc) (ext s)
      = (Inr op, w)" and t: "t = s\<lparr>ext := w\<rparr>"
    using assms by (auto simp: reconcileHeadlessService_def elim!: callE)
  from svc_stored [OF run] obtain old new v where "mutateService L pc old = Inr new"
    and "v_Services (view w) (pc_key pc) = Some (new\<lparr>svc_Meta := with_version (svc_Meta new) v\<rparr>)"
    by auto
  with mutateService_fields owner_version show ?thesis
    by (fastforce simp: service_in_place_def controlled_def t)
qed

lemma updatePhase_ok:
  assumes "updatePhase R pc phase ready s = (Inr res, t)"
  shows "\<not> Requeue res \<and> reported view pc phase ready s t \<and> confined view {ClusterId (pc_key pc)} s t"
proof -
  let ?pc = "pc\<lparr>pc_Status := (pc_Status pc)\<lparr>cs_Phase := phase, cs_ReadyReplicas := ready\<rparr>\<rparr>"
  have key: "pc_key ?pc = pc_key pc" by (simp add: pc_key_def)
  obtain y w where run: "StatusUpdate (Clusters (Client R)) ?pc (ext s) = (Inr y, w)"
    and res: "res = \<lparr>Requeue = False\<rparr>"
    and t: "t = s\<lparr>ext := w, mets := SetPhase (Namespace (pc_Meta y)) (Name (pc_Meta y)) phase (mets s)\<rparr>"
    using assms by (auto simp: updatePhase_def Let_def attempt_Inr_iff elim!: callE)
  from cluster_status_stored [OF run] obtain pc0 v where
    st: "v_Clusters (view (ext s)) (pc_key pc) = Some pc0"
      "y = pc0\<lparr>pc_Meta := with_version (pc_Meta pc0) v, pc_Status := pc_Status ?pc\<rparr>"
      "v_Clusters (view w) (pc_key pc) = Some y"
    unfolding key by auto
  have "pc_key pc0 = pc_key pc" by (rule clusters.stored_key [OF st(1)])
  then have "Namespace (pc_Meta y) = Namespace (pc_Meta pc)" "Name (pc_Meta y) = Name (pc_Meta pc)"
    using st(2) by (simp_all add: pc_key_def meta_key_def)
  moreover have "same_except {ClusterId (pc_key pc)} (view (ext s)) (view w)"
    using clusters.status_scope [OF run] unfolding key .
  ultimately show ?thesis
    using st by (auto simp: res t reported_def confined_def)
qed

lemma createStatefulSet_ok:
  assumes "createStatefulSet L R pc (buildStatefulSet (Quantities L) pc) s = (Inr res, t)"
  shows "\<not> Requeue res \<and> reported view pc PhaseProvisioning 0 s t \<and> sts_in_place L admit pc (view (ext t)) \<and>
    v_StatefulSets (view (ext s)) (pc_key pc) = None"
proof -
  let ?d = "buildStatefulSet (Quantities L) pc"
  obtain m where m: "SetControllerReference L pc (sts_Meta ?d) = Inr m"
    and run: "attempt ''create statefulset'' (call (Create (StatefulSets (Client R)) (?d\<lparr>sts_Meta := m\<rparr>)))
      (\<lambda>_. updatePhase R pc PhaseProvisioning 0) s = (Inr res, t)"
    using assms by (auto simp: createStatefulSet_def split: sum.splits)
  from run obtain new w where create: "Create (StatefulSets (Client R)) (?d\<lparr>sts_Meta := m\<rparr>) (ext s) = (Inr new, w)"
    and phase: "updatePhase R pc PhaseProvisioning 0 (s\<lparr>ext := w\<rparr>) = (Inr res, t)"
    by (auto simp: attempt_Inr_iff elim!: callE)
  have key: "sts_key (?d\<lparr>sts_Meta := m\<rparr>) = pc_key pc"
    using owner_key [OF m] sts_key_build [of "Quantities L" pc] by (simp add: sts_key_def)
  have stored: "v_StatefulSets (view w) (pc_key pc) = Some new"
    and tmpl: "sts_Template new = sts_Template (admit (?d\<lparr>sts_Meta := m\<rparr>))"
    and repl: "sts_Replicas new = sts_Replicas (admit (?d\<lparr>sts_Meta := m\<rparr>))"
    and fresh: "v_StatefulSets (view (ext s)) (pc_key pc) = None"
    using sts_create_stored [OF create] by (simp_all add: key)
  have "sts_Replicas new = Some (sp_Replicas (pc_Spec pc))"
    unfolding repl by (rule admit_replicas) (simp add: buildStatefulSet_def Let_def)
  moreover have "sts_Template new = sts_Template (admit ?d)"
    unfolding tmpl by (rule admit_template) simp
  ultimately have "sts_matches L admit pc new" by (simp add: sts_matches_def Let_def)
  moreover have "same_except {StatefulSetId (pc_key pc)} (view (ext s)) (view w)"
    using stss.create_scope [OF create] by (simp add: key)
  then have "v_Clusters (view w) (pc_key pc) = v_Clusters (view (ext s)) (pc_key pc)"
    by (rule same_exceptD) simp
  moreover have "v_StatefulSets (view (ext t)) (pc_key pc) = Some new"
    using same_exceptD(2) [of "{ClusterId (pc_key pc)}" "view w" "view (ext t)"] updatePhase_ok [OF phase] stored
    by (simp add: confined_def)
  ultimately show ?thesis
    using updatePhase_ok [OF phase] fresh by (auto simp: reported_def sts_in_place_def)
qed

lemma updateStatefulSet_ok:
  assumes "updateStatefulSet L R pc (buildStatefulSet (Quantities L) pc) current s = (Inr res, t)"
    and stored: "v_StatefulSets (view (ext s)) (pc_key pc) = Some current"
  shows "\<not> Requeue res \<and> sts_in_place L admit pc (view (ext t)) \<and>
    reported view pc
      (phaseFor (sts_Replicas current \<noteq> Some (sp_Replicas (pc_Spec pc)))
         (sts_ReadyReplicas current) (sp_Replicas (pc_Spec pc)))
      (sts_ReadyReplicas current) s t"
proof -
  let ?d = "buildStatefulSet (Quantities L) pc"
  let ?new = "current\<lparr>sts_Replicas := Some (sp_Replicas (pc_Spec pc)), sts_Template := sts_Template ?d\<rparr>"
  have key: "sts_key current = pc_key pc" by (rule stss.stored_key [OF stored])
  then have nkey: "sts_key ?new = pc_key pc" by (simp add: sts_key_def)
  obtain n where n: "sts_Replicas current = Some n"
    using assms(1) by (cases "sts_Replicas current") (auto simp: updateStatefulSet_def)
  define replChanged where "replChanged \<longleftrightarrow> n \<noteq> sp_Replicas (pc_Spec pc)"
  define tmplChanged where "tmplChanged \<longleftrightarrow> \<not> PodSpecDeepEqual L (pt_Spec (sts_Template current)) (pt_Spec (sts_Template ?d))"
  let ?finish = "\<lambda>c. updatePhase R pc (phaseFor replChanged (sts_ReadyReplicas c) (sp_Replicas (pc_Spec pc)))
      (sts_ReadyReplicas c)"
  have run: "(if replChanged \<or> tmplChanged
       then attempt ''update statefulset'' (call (Update (StatefulSets (Client R)) ?new)) ?finish s
       else ?finish current s) = (Inr res, t)"
    using assms(1) by (cases "replChanged \<or> tmplChanged")
      (auto simp: updateStatefulSet_def n Let_def replChanged_def tmplChanged_def)
  have repl_eq: "(sts_Replicas current \<noteq> Some (sp_Replicas (pc_Spec pc))) = replChanged"
    by (simp add: n replChanged_def)
  show ?thesis
  proof (cases "replChanged \<or> tmplChanged")
    case True
    then obtain c w where upd: "Update (StatefulSets (Client R)) ?new (ext s) = (Inr c, w)"
      and phase: "?finish c (s\<lparr>ext := w\<rparr>) = (Inr res, t)"
      using run by (auto simp: attempt_Inr_iff elim!: callE)
    have c: "v_StatefulSets (view w) (pc_key pc) = Some c" "sts_Template c = sts_Template (admit ?new)"
      "sts_Replicas c = sts_Replicas (admit ?new)" "sts_ReadyReplicas c = sts_ReadyReplicas current"
      using sts_update_stored [OF upd] stored by (simp_all add: nkey)
    have "sts_Replicas c = Some (sp_Replicas (pc_Spec pc))"
      unfolding c(3) by (rule admit_replicas) simp
    moreover have "sts_Template c = sts_Template (admit ?d)"
      unfolding c(2) by (rule admit_template) simp
    ultimately have "sts_matches L admit pc c" by (simp add: sts_matches_def Let_def)
    moreover have "same_except {StatefulSetId (pc_key pc)} (view (ext s)) (view w)"
      using stss.update_scope [OF upd] by (simp add: nkey)
    then have "v_Clusters (view w) (pc_key pc) = v_Clusters (view (ext s)) (pc_key pc)"
      by (rule same_exceptD) simp
    moreover have "v_StatefulSets (view (ext t)) (pc_key pc) = Some c"
      using same_exceptD(2) [of "{ClusterId (pc_key pc)}" "view w" "view (ext t)"] updatePhase_ok [OF phase] c(1)
      by (simp add: confined_def)
    ultimately show ?thesis
      using updatePhase_ok [OF phase] c(4) unfolding repl_eq by (auto simp: reported_def sts_in_place_def)
  next
    case False
    then have phase: "?finish current s = (Inr res, t)" using run by simp
    have "sts_matches L admit pc current"
      using False by (simp add: sts_matches_def Let_def n replChanged_def tmplChanged_def)
    moreover have "v_StatefulSets (view (ext t)) (pc_key pc) = Some current"
      using same_exceptD(2) [of "{ClusterId (pc_key pc)}" "view (ext s)" "view (ext t)"] updatePhase_ok [OF phase] stored
      by (simp add: confined_def)
    ultimately show ?thesis
      using updatePhase_ok [OF phase] unfolding repl_eq by (auto simp: sts_in_place_def)
  qed
qed

lemma reconcileStatefulSet_ok:
  assumes "reconcileStatefulSet L R pc s = (Inr res, t)"
  shows "\<not> Requeue res \<and> sts_in_place L admit pc (view (ext t)) \<and>
    reported view pc (fst (observed pc (view (ext s)))) (snd (observed pc (view (ext s)))) s t"
proof -
  let ?d = "buildStatefulSet (Quantities L) pc"
  obtain x w where get: "Get (StatefulSets (Client R)) (sts_key ?d) (ext s) = (x, w)"
    by (cases "Get (StatefulSets (Client R)) (sts_key ?d) (ext s)")
  have same: "view w = view (ext s)" by (rule stss.get_same [OF get])
  then have rep: "reported view pc phase ready (s\<lparr>ext := w\<rparr>) t = reported view pc phase ready s t" for phase ready
    by (simp add: reported_def)
  show ?thesis
  proof (cases x)
    case (Inl e)
    with assms get have "createStatefulSet L R pc ?d (s\<lparr>ext := w\<rparr>) = (Inr res, t)"
      by (simp add: reconcileStatefulSet_def Let_def split: if_splits)
    from createStatefulSet_ok [OF this] show ?thesis
      unfolding rep by (simp add: same observed_def)
  next
    case (Inr current)
    with assms get have run: "updateStatefulSet L R pc ?d current (s\<lparr>ext := w\<rparr>) = (Inr res, t)"
      by (simp add: reconcileStatefulSet_def Let_def)
    have stored: "v_StatefulSets (view (ext s)) (pc_key pc) = Some current"
      using stss.get_stored [OF get [unfolded Inr]] by (simp add: same)
    show ?thesis
      using updateStatefulSet_ok [OF run] stored same unfolding rep by (simp add: observed_def)
  qed
qed

lemma registerBackup_ok:
  "registerBackup R pc s = (r, t) \<Longrightarrow> confined view {} s t \<and> mets t = mets s"
  using keepsD [OF keeps_registerBackup [of "{}" pc], of s r t] registrar_metrics
  by (auto simp: registerBackup_def split: option.splits if_splits)

lemma reconcileConfigMap_scope:
  "reconcileConfigMap L R pc s = (r, t) \<Longrightarrow>
     confined view {ConfigMapId (Namespace (pc_Meta pc), configMapName pc)} s t \<and> mets t = mets s"
  using keepsD [OF keeps_reconcileConfigMap [of pc "{ConfigMapId (Namespace (pc_Meta pc), configMapName pc)}"], of s r t]
  by (auto simp: reconcileConfigMap_def call_def split: prod.splits sum.splits)

lemma reconcileHeadlessService_scope:
  "reconcileHeadlessService L R pc s = (r, t) \<Longrightarrow>
     confined view {ServiceId (pc_key pc)} s t \<and> mets t = mets s"
  using keepsD [OF keeps_reconcileHeadlessService [of pc "{ServiceId (pc_key pc)}"], of s r t]
  by (auto simp: reconcileHeadlessService_def call_def split: prod.splits)

lemma reconcileStatefulSet_scope:
  "reconcileStatefulSet L R pc s = (r, t) \<Longrightarrow>
     confined view {ClusterId (pc_key pc), StatefulSetId (pc_key pc)} s t"
  by (erule keepsD [OF keeps_reconcileStatefulSet, rotated 2]) simp_all

lemma reconcileChildren_ok:
  assumes run: "reconcileChildren L R pc s = (Inr res, t)"
  shows "\<not> Requeue res \<and> converged L admit pc (view (ext t)) \<and>
    reported view pc (fst (observed pc (view (ext s)))) (snd (observed pc (view (ext s)))) s t"
proof -
  from run obtain s1 s2 s3 u b op where
    1: "registerBackup R pc s = (Inr u, s1)" and
    2: "reconcileConfigMap L R pc s1 = (Inr b, s2)" and
    3: "reconcileHeadlessService L R pc s2 = (Inr op, s3)" and
    4: "reconcileStatefulSet L R pc s3 = (Inr res, t)"
    by (auto simp: reconcileChildren_def attempt_Inr_iff)
  note scopes = registerBackup_ok [OF 1] reconcileConfigMap_scope [OF 2]
    reconcileHeadlessService_scope [OF 3] reconcileStatefulSet_scope [OF 4]
  let ?v = "\<lambda>s. view (ext s)"
  have c3: "v_ConfigMaps (?v t) k = v_ConfigMaps (?v s2) k" for k
    using scopes by (simp add: confined_def same_except_def del: split_paired_All)
  have v3: "v_Services (?v t) k = v_Services (?v s3) k" for k
    using scopes by (simp add: confined_def same_except_def del: split_paired_All)
  have st: "v_StatefulSets (?v s3) k = v_StatefulSets (?v s) k" for k
    using scopes by (simp add: confined_def same_except_def del: split_paired_All)
  have cl: "v_Clusters (?v s3) k = v_Clusters (?v s) k" for k
    using scopes by (simp add: confined_def same_except_def del: split_paired_All)
  have m: "mets s3 = mets s" using scopes by simp
  have "config_in_place L pc (?v t)"
    using reconcileConfigMap_stored [OF 2] by (simp add: config_in_place_def c3)
  moreover have "service_in_place L pc (?v t)"
    using reconcileHeadlessService_stored [OF 3] by (simp add: service_in_place_def v3)
  moreover have "observed pc (?v s3) = observed pc (?v s)" by (simp add: observed_def st)
  ultimately show ?thesis
    using reconcileStatefulSet_ok [OF 4] by (simp add: converged_def reported_def cl m)
qed

lemma Reconcile_ok:
  assumes get: "Get (Clusters (Client R)) k (ext s) = (Inr pc, w)"
    and live: "DeletionTimestamp (pc_Meta pc) = None" "ContainsFinalizer L pc finalizerName"
    and run: "Reconcile L R k s = (Inr res, t)"
  shows "\<not> Requeue res \<and> converged L admit pc (view (ext t)) \<and>
    reported view pc (fst (observed pc (view (ext s)))) (snd (observed pc (view (ext s)))) s t"
proof -
  have "reconcileChildren L R pc (s\<lparr>ext := w\<rparr>) = (Inr res, t)"
    using run get live by (simp add: Reconcile_def)
  from reconcileChildren_ok [OF this] clusters.get_same [OF get] show ?thesis
    by (simp add: reported_def)
qed

lemma finalizer_update_fields:
  "pc_Spec (AddFinalizer L pc f) = pc_Spec pc" "pc_Spec (RemoveFinalizer L pc f) = pc_Spec pc"
  "pc_Status (AddFinalizer L pc f) = pc_Status pc" "pc_Status (RemoveFinalizer L pc f) = pc_Status pc"
  "same_identity (pc_Meta (AddFinalizer L pc f)) (pc_Meta pc)"
  "same_identity (pc_Meta (RemoveFinalizer L pc f)) (pc_Meta pc)"
  using add_only [of pc f] remove_only [of pc f] by (auto simp: same_identity_def meta_key_def)

lemma addFinalizer_ok:
  assumes get: "Get (Clusters (Client R)) k (ext s) = (Inr pc, w)"
    and live: "DeletionTimestamp (pc_Meta pc) = None" "\<not> ContainsFinalizer L pc finalizerName"
    and run: "Reconcile L R k s = (Inr res, t)"
  shows "Requeue res \<and> confined view {ClusterId k} s t \<and>
    (\<exists>pc'. v_Clusters (view (ext t)) k = Some pc' \<and> ContainsFinalizer L pc' finalizerName \<and>
       same_identity (pc_Meta pc') (pc_Meta pc) \<and> pc_Spec pc' = pc_Spec pc \<and> pc_Status pc' = pc_Status pc)"
proof -
  let ?x = "AddFinalizer L pc finalizerName"
  have stored: "v_Clusters (view w) k = Some pc"
    using clusters.get_stored [OF get] clusters.get_same [OF get] by simp
  have key: "pc_key ?x = k" using clusters.get_key [OF get] by (simp add: add_key)
  obtain y w' where upd: "Update (Clusters (Client R)) ?x w = (Inr y, w')"
    and res: "res = \<lparr>Requeue = True\<rparr>" and t: "t = s\<lparr>ext := w'\<rparr>"
    using run get live by (auto simp: Reconcile_def attempt_Inr_iff elim!: callE)
  obtain v where y: "y = ?x\<lparr>pc_Meta := with_version (pc_Meta ?x) v, pc_Status := pc_Status pc\<rparr>"
    and after: "v_Clusters (view w') k \<in> {None, Some y}"
    using cluster_update_stored [OF upd] stored key by (auto simp: finalizer_update_fields)
  moreover have "v_Clusters (view w') k \<noteq> None"
    using cluster_update_kept [OF upd, of pc] stored key live by simp
  ultimately have now: "v_Clusters (view w') k = Some y" by auto
  have "ContainsFinalizer L y finalizerName = ContainsFinalizer L ?x finalizerName"
    by (rule contains_meta) (simp add: y)
  moreover have "same_identity (pc_Meta y) (pc_Meta pc)"
    using finalizer_update_fields(5) [of pc finalizerName] by (simp add: y same_identity_def)
  moreover have "same_except {ClusterId k} (view (ext s)) (view w')"
    using clusters.update_scope [OF upd] clusters.get_same [OF get] by (simp add: key)
  ultimately show ?thesis
    using now by (simp add: res t confined_def contains_add) (simp add: y finalizer_update_fields)
qed

end

end
