(* ===== verification/BackupScheduler.thy ===== *)
theory BackupScheduler
  imports TarStream ClusterReconciler
begin

text \<open>
  The backup scheduler (\<open>internal/backup/backup.go\<close>): \<open>Register\<close>, which keeps one cron entry per
  cluster, and \<open>RunOnce\<close>, one backup: a snapshot through Prometheus's admin API, its
  directory streamed to the bucket (or, without an executor, the raw answer uploaded), the
  snapshot removed, the status stamped and the counter raised.

  The cron library, the HTTP client, the executor, the bucket, JSON parsing and the clock
  are parameters. A job is the pair of names its closure captured. A response's body is the
  result of reading all of it.
\<close>

section \<open>The scheduler\<close>

record 'w cron =
  AddFunc :: "string \<Rightarrow> namespaced_name \<Rightarrow> 'w \<Rightarrow> nat result \<times> 'w"
  RemoveEntry :: "nat \<Rightarrow> 'w \<Rightarrow> 'w"

record http_response =
  StatusCode :: int
  Body :: "string result"

record put_object =
  po_Bucket :: string
  po_Key :: string

record exec_request =
  ex_Namespace :: string
  ex_Pod :: string
  ex_Container :: string
  ex_Cmd :: "string list"

record snapshotResp =
  sr_Status :: string
  sr_Name :: string

text \<open>
  \<open>Exec\<close> runs a command and discards its output; \<open>ExecInto\<close> is the run that feeds an upload,
  see \<open>transfer\<close>.
\<close>

record 'w pod_executor =
  Exec :: "exec_request \<Rightarrow> 'w \<Rightarrow> unit result \<times> 'w"
  ExecInto :: "exec_request \<Rightarrow> put_object \<Rightarrow> 'w \<Rightarrow> transfer \<times> 'w"

record 'w scheduler =
  sch_Client :: "'w client"
  PutObject :: "put_object \<Rightarrow> string \<Rightarrow> 'w \<Rightarrow> unit result \<times> 'w"
  sch_Exec :: "'w pod_executor option"
  HTTP_Do :: "string \<Rightarrow> string \<Rightarrow> 'w \<Rightarrow> http_response result \<times> 'w"
  sch_cron :: "'w cron"
  Unmarshal :: "string \<Rightarrow> snapshotResp option"
  Now :: "'w \<Rightarrow> timestamp \<times> 'w"
  FormatTime :: "timestamp \<Rightarrow> string"

section \<open>Register\<close>

definition entry_key :: "namespaced_name \<Rightarrow> string" where
  "entry_key k = fst k @ ''/'' @ snd k"

definition Register ::
    "'w scheduler \<Rightarrow> prometheus_cluster \<Rightarrow> 'w process \<Rightarrow> unit result \<times> 'w process" where
  "Register S pc s =
     (if \<not> bk_Enabled (sp_Backup (pc_Spec pc)) \<or> bk_Schedule (sp_Backup (pc_Spec pc)) = [] then (Inr (), s)
      else
        (let key = Namespace (pc_Meta pc) @ ''/'' @ Name (pc_Meta pc);
             s = (case entries s key of
                    Some old \<Rightarrow> s\<lparr>ext := RemoveEntry (sch_cron S) old (ext s)\<rparr>
                  | None \<Rightarrow> s)
         in attempt ''add cron entry''
              (call (AddFunc (sch_cron S) (bk_Schedule (sp_Backup (pc_Spec pc)))
                 (Namespace (pc_Meta pc), Name (pc_Meta pc))))
              (\<lambda>new s. (Inr (), s\<lparr>entries := (entries s)(key \<mapsto> new)\<rparr>)) s))"

section \<open>Reading a byte slice\<close>

record byteReader =
  br_b :: string
  br_i :: nat

definition bytesReader :: "string \<Rightarrow> byteReader" where
  "bytesReader b = \<lparr>br_b = b, br_i = 0\<rparr>"

text \<open>\<open>Read\<close> into a buffer of length \<open>n\<close>: the bytes, or \<open>None\<close> for \<open>io.EOF\<close>.\<close>

definition Read :: "nat \<Rightarrow> byteReader \<Rightarrow> string option \<times> byteReader" where
  "Read n r =
     (if br_i r \<ge> length (br_b r) then (None, r)
      else (let bs = take n (drop (br_i r) (br_b r)) in (Some bs, r\<lparr>br_i := br_i r + length bs\<rparr>)))"

fun read_bytes :: "nat list \<Rightarrow> byteReader \<Rightarrow> string \<times> byteReader" where
  "read_bytes [] r = ([], r)"
| "read_bytes (n # ns) r =
     (case Read n r of
        (None, r) \<Rightarrow> ([], r)
      | (Some bs, r) \<Rightarrow> (case read_bytes ns r of (rest, r) \<Rightarrow> (bs @ rest, r)))"

section \<open>RunOnce\<close>

definition snapshot ::
    "'w scheduler \<Rightarrow> prometheus_cluster \<Rightarrow> 'w process \<Rightarrow> (string \<times> string) result \<times> 'w process" where
  "snapshot S pc =
     (let url = ''http://'' @ Name (pc_Meta pc) @ ''.'' @ Namespace (pc_Meta pc) @
                ''.svc:9090/api/v1/admin/tsdb/snapshot''
      in attempt ''trigger snapshot'' (call (HTTP_Do S ''POST'' url)) (\<lambda>resp s.
           case Body resp of
             Inl e \<Rightarrow> (Inl (Wrapped ''read snapshot response'' e), s)
           | Inr body \<Rightarrow>
               (case Unmarshal S body of
                  Some parsed \<Rightarrow>
                    if sr_Status parsed = ''success'' then (Inr (sr_Name parsed, body), s)
                    else (Inr ([], body), s)
                | None \<Rightarrow> (Inr ([], body), s))))"

definition tarStreamToS3 ::
    "'w pod_executor \<Rightarrow> prometheus_cluster \<Rightarrow> string \<Rightarrow> string \<Rightarrow> 'w process \<Rightarrow> unit result \<times> 'w process" where
  "tarStreamToS3 E pc snapName key s =
     (case call (ExecInto E
              \<lparr>ex_Namespace = Namespace (pc_Meta pc), ex_Pod = Name (pc_Meta pc) @ ''-0'',
               ex_Container = ''prometheus'',
               ex_Cmd = [''tar'', ''-C'', ''/prometheus/snapshots'', ''-cf'', ''-'', snapName]\<rparr>
              \<lparr>po_Bucket = bk_Bucket (sp_Backup (pc_Spec pc)), po_Key = key\<rparr>) s of
        (T, s) \<Rightarrow> (tar_result T, s))"

definition cleanupSnapshot ::
    "'w pod_executor \<Rightarrow> prometheus_cluster \<Rightarrow> string \<Rightarrow> 'w process \<Rightarrow> unit result \<times> 'w process" where
  "cleanupSnapshot E pc snapName =
     call (Exec E
       \<lparr>ex_Namespace = Namespace (pc_Meta pc), ex_Pod = Name (pc_Meta pc) @ ''-0'',
        ex_Container = ''prometheus'', ex_Cmd = [''rm'', ''-rf'', ''/prometheus/snapshots/'' @ snapName]\<rparr>)"

definition upload ::
    "'w scheduler \<Rightarrow> prometheus_cluster \<Rightarrow> string \<Rightarrow> string \<Rightarrow> string \<Rightarrow> 'w process \<Rightarrow> unit result \<times> 'w process" where
  "upload S pc snapName rawResp key =
     (case (if snapName = [] then None else sch_Exec S) of
        None \<Rightarrow>
          attempt ''put object (fallback)''
            (call (PutObject S \<lparr>po_Bucket = bk_Bucket (sp_Backup (pc_Spec pc)), po_Key = key\<rparr> rawResp))
            (\<lambda>_ s. (Inr (), s))
      | Some E \<Rightarrow>
          attempt ''tar stream'' (tarStreamToS3 E pc snapName key)
            (\<lambda>_ s. (Inr (), snd (cleanupSnapshot E pc snapName s))))"

text \<open>
  \<open>upload\<close> is the \<open>if\<close> of \<open>RunOnce\<close>; its errors are already wrapped, so \<open>RunOnce\<close> returns
  them as they are.
\<close>

definition backup_object_key :: "'w scheduler \<Rightarrow> prometheus_cluster \<Rightarrow> timestamp \<Rightarrow> string" where
  "backup_object_key S pc now =
     bk_Prefix (sp_Backup (pc_Spec pc)) @ ''/'' @ Name (pc_Meta pc) @ ''/'' @ FormatTime S now @ ''.tar''"

definition stampBackup ::
    "'w scheduler \<Rightarrow> prometheus_cluster \<Rightarrow> 'w process \<Rightarrow> unit result \<times> 'w process" where
  "stampBackup S pc s =
     (case call (Now S) s of
        (now, s) \<Rightarrow>
          attempt ''update status''
            (call (StatusUpdate (Clusters (sch_Client S))
               (pc\<lparr>pc_Status := (pc_Status pc)\<lparr>cs_LastBackupTime := Some now\<rparr>\<rparr>)))
            (\<lambda>_ s. (Inr (), s)) s)"

definition runBackup ::
    "'w scheduler \<Rightarrow> string \<Rightarrow> string \<Rightarrow> 'w process \<Rightarrow> unit result \<times> 'w process" where
  "runBackup S ns name =
     attempt ''get cluster'' (call (Get (Clusters (sch_Client S)) (ns, name))) (\<lambda>pc.
     attempt ''snapshot'' (snapshot S pc) (\<lambda>(snapName, rawResp) s.
       case call (Now S) s of
         (now, s) \<Rightarrow>
           (case upload S pc snapName rawResp (backup_object_key S pc now) s of
              (Inl e, s) \<Rightarrow> (Inl e, s)
            | (Inr _, s) \<Rightarrow> stampBackup S pc s)))"

definition RunOnce ::
    "'w scheduler \<Rightarrow> string \<Rightarrow> string \<Rightarrow> 'w process \<Rightarrow> unit result \<times> 'w process" where
  "RunOnce S ns name s =
     (case runBackup S ns name s of
        (r, s) \<Rightarrow>
          (r, s\<lparr>mets := (mets s)\<lparr>BackupTotal :=
                inc (BackupTotal (mets s)) (ns, name, case r of Inr _ \<Rightarrow> ''success'' | Inl _ \<Rightarrow> ''error'')\<rparr>\<rparr>))"

section \<open>What a run asks for and what it stores\<close>

text \<open>The name of the snapshot (empty for any answer but a success) and the raw answer.\<close>

definition snapshot_named :: "'w scheduler \<Rightarrow> http_response result \<Rightarrow> (string \<times> string) option" where
  "snapshot_named S answer =
     (case answer of
        Inl _ \<Rightarrow> None
      | Inr resp \<Rightarrow>
          (case Body resp of
             Inl _ \<Rightarrow> None
           | Inr raw \<Rightarrow>
               Some (case Unmarshal S raw of
                       Some p \<Rightarrow> if sr_Status p = ''success'' then sr_Name p else []
                     | None \<Rightarrow> [], raw)))"

definition snapshot_url :: "namespaced_name \<Rightarrow> string" where
  "snapshot_url k = ''http://'' @ snd k @ ''.'' @ fst k @ ''.svc:9090/api/v1/admin/tsdb/snapshot''"

text \<open>The object of a backup: in the bucket of the cluster, under its prefix, its name and the time.\<close>

definition archive_of :: "'w scheduler \<Rightarrow> prometheus_cluster \<Rightarrow> timestamp \<Rightarrow> put_object" where
  "archive_of S pc now =
     \<lparr>po_Bucket = bk_Bucket (sp_Backup (pc_Spec pc)),
      po_Key = bk_Prefix (sp_Backup (pc_Spec pc)) @ ''/'' @ Name (pc_Meta pc) @ ''/'' @ FormatTime S now @ ''.tar''\<rparr>"

lemma backup_object: "\<lparr>po_Bucket = bk_Bucket (sp_Backup (pc_Spec pc)), po_Key = backup_object_key S pc now\<rparr> = archive_of S pc now"
  by (simp add: archive_of_def backup_object_key_def)

lemma snapshot_call:
  assumes "snapshot S pc s = (r, t)" and "pc_key pc = k"
  obtains answer where "call (HTTP_Do S ''POST'' (snapshot_url k)) s = (answer, t)"
    and "case snapshot_named S answer of None \<Rightarrow> \<exists>e. r = Inl e | Some p \<Rightarrow> r = Inr p"
proof -
  have url: "''http://'' @ Name (pc_Meta pc) @ ''.'' @ Namespace (pc_Meta pc) @
      ''.svc:9090/api/v1/admin/tsdb/snapshot'' = snapshot_url k"
    using assms(2) by (auto simp: snapshot_url_def pc_key_def meta_key_def)
  obtain answer s' where h: "call (HTTP_Do S ''POST'' (snapshot_url k)) s = (answer, s')" by fastforce
  have "t = s'" and "case snapshot_named S answer of None \<Rightarrow> \<exists>e. r = Inl e | Some p \<Rightarrow> r = Inr p"
    using assms(1) h unfolding snapshot_def url Let_def
    by (auto simp: attempt_def snapshot_named_def split: sum.splits option.splits if_splits)
  with that h show ?thesis by blast
qed

text \<open>
  The upload of a run that got that far: the object that was put, or the transfer that was run
  into it, and the state after it (with the snapshot removed again).
\<close>

definition uploaded ::
    "'w scheduler \<Rightarrow> prometheus_cluster \<Rightarrow> string \<Rightarrow> string \<Rightarrow> put_object \<Rightarrow> 'w process \<Rightarrow> 'w process \<Rightarrow> bool" where
  "uploaded S pc snap raw obj s t \<longleftrightarrow>
     (case sch_Exec S of
        Some E \<Rightarrow>
          if snap = [] then call (PutObject S obj raw) s = (Inr (), t)
          else (\<exists>T u. call (ExecInto E
                  \<lparr>ex_Namespace = Namespace (pc_Meta pc), ex_Pod = Name (pc_Meta pc) @ ''-0'', ex_Container = ''prometheus'',
                   ex_Cmd = [''tar'', ''-C'', ''/prometheus/snapshots'', ''-cf'', ''-'', snap]\<rparr> obj) s = (T, u) \<and>
                tr_Exit T = None \<and> tar_object T = Some (concat (tr_Chunks T)) \<and>
                t = snd (cleanupSnapshot E pc snap u))
      | None \<Rightarrow> call (PutObject S obj raw) s = (Inr (), t))"

lemma upload_success:
  assumes "upload S pc snap raw (backup_object_key S pc now) s = (Inr u, t)"
  shows "uploaded S pc snap raw (archive_of S pc now) s t"
proof (cases "if snap = [] then None else sch_Exec S")
  case None
  with assms show ?thesis
    by (auto simp: upload_def uploaded_def backup_object attempt_Inr_iff split: option.splits if_splits)
next
  case (Some E)
  then have E: "sch_Exec S = Some E" "snap \<noteq> []" by (auto split: if_splits)
  obtain T v where T: "call (ExecInto E
      \<lparr>ex_Namespace = Namespace (pc_Meta pc), ex_Pod = Name (pc_Meta pc) @ ''-0'', ex_Container = ''prometheus'',
       ex_Cmd = [''tar'', ''-C'', ''/prometheus/snapshots'', ''-cf'', ''-'', snap]\<rparr> (archive_of S pc now)) s = (T, v)" by fastforce
  with assms E have ok: "tar_result T = Inr ()" and t: "t = snd (cleanupSnapshot E pc snap v)"
    by (auto simp: upload_def tarStreamToS3_def backup_object attempt_def split: sum.splits)
  then have "tr_Exit T = None" "tar_object T = Some (concat (tr_Chunks T))"
    by (auto simp: tar_result_def tar_return_def tar_exec_err_def tar_put_err_def tar_object_def split: option.splits if_splits)
  with T t E show ?thesis by (auto simp: uploaded_def)
qed

section \<open>Laws of the environment\<close>

text \<open>
  The cron library: an added entry gets an identifier that was never used before, a schedule
  that does not parse adds nothing, removing an absent entry does nothing.
\<close>

locale cron_lib =
  fixes cr :: "'w cron" and jobs :: "'w \<Rightarrow> nat \<rightharpoonup> string \<times> namespaced_name"
    and lastId :: "'w \<Rightarrow> nat" and parses :: "string \<Rightarrow> bool"
  assumes ids_used: "jobs w i \<noteq> None \<Longrightarrow> i \<le> lastId w"
    and add_ok: "AddFunc cr sched job w = (Inr i, w') \<Longrightarrow>
      lastId w < i \<and> lastId w' = i \<and> jobs w' = (jobs w)(i \<mapsto> (sched, job))"
    and add_error: "AddFunc cr sched job w = (Inl e, w') \<Longrightarrow> jobs w' = jobs w \<and> lastId w' = lastId w"
    and add_parses: "(\<exists>i w'. AddFunc cr sched job w = (Inr i, w')) \<longleftrightarrow> parses sched"
    and remove_job: "jobs (RemoveEntry cr i w) = (jobs w)(i := None)"
    and remove_last: "lastId (RemoveEntry cr i w) = lastId w"
begin

definition one_job_each :: "'w process \<Rightarrow> bool" where
  "one_job_each s \<longleftrightarrow>
     (\<forall>i sched job. jobs (ext s) i = Some (sched, job) \<longrightarrow> entries s (entry_key job) = Some i) \<and>
     (\<forall>k i. entries s k = Some i \<longrightarrow> i \<le> lastId (ext s)) \<and>
     (\<forall>k k' i. entries s k = Some i \<longrightarrow> entries s k' = Some i \<longrightarrow> k = k')"

lemma one_job_eachD:
  assumes "one_job_each s"
  shows "jobs (ext s) i = Some (sched, job) \<Longrightarrow> entries s (entry_key job) = Some i"
    and "entries s k = Some i \<Longrightarrow> i \<le> lastId (ext s)"
    and "entries s k = Some i \<Longrightarrow> entries s k' = Some i \<Longrightarrow> k = k'"
  using assms unfolding one_job_each_def by blast+

definition unscheduled :: "string \<Rightarrow> 'w process \<Rightarrow> 'w process" where
  "unscheduled k s = (case entries s k of Some i \<Rightarrow> s\<lparr>ext := RemoveEntry cr i (ext s)\<rparr> | None \<Rightarrow> s)"

lemma unscheduled_fields [simp]:
  "entries (unscheduled k s) = entries s" "mets (unscheduled k s) = mets s"
  "lastId (ext (unscheduled k s)) = lastId (ext s)"
  by (simp_all add: unscheduled_def remove_last split: option.splits)

lemma unscheduled_jobs:
  assumes "one_job_each s"
  shows "jobs (ext (unscheduled k s)) i = Some (sched, job) \<longleftrightarrow>
    jobs (ext s) i = Some (sched, job) \<and> entry_key job \<noteq> k"
proof (cases "entries s k")
  case None
  then show ?thesis using one_job_eachD(1) [OF assms, of i sched job] by (auto simp: unscheduled_def)
next
  case (Some e)
  have "jobs (ext s) i = Some (sched, job) \<Longrightarrow> entry_key job = k \<longleftrightarrow> i = e"
    using Some one_job_eachD(1) [OF assms, of i sched job] one_job_eachD(3) [OF assms] by auto
  then show ?thesis using Some by (auto simp: unscheduled_def remove_job)
qed

lemma unscheduled_inv: "one_job_each s \<Longrightarrow> one_job_each (unscheduled k s)"
  by (simp add: one_job_each_def [of "unscheduled k s"] unscheduled_jobs) (blast dest: one_job_eachD)

end

text \<open>Names of namespaces and objects contain no slash, so the key tells clusters apart.\<close>

lemma append_sep_inject:
  assumes "c \<notin> set a" and "c \<notin> set b"
  shows "a @ c # x = b @ c # y \<longleftrightarrow> a = b \<and> x = y"
  using assms
proof (induction a arbitrary: b)
  case Nil
  then show ?case by (cases b) auto
next
  case (Cons d a)
  then show ?case by (cases b) auto
qed

lemma entry_key_inject:
  "CHR ''/'' \<notin> set (fst k) \<Longrightarrow> CHR ''/'' \<notin> set (fst k') \<Longrightarrow> entry_key k = entry_key k' \<longleftrightarrow> k = k'"
  by (cases k; cases k') (simp add: entry_key_def append_sep_inject)

locale backup_registrar = cron_lib "sch_cron S" jobs lastId parses
  for S :: "'w scheduler" and jobs :: "'w \<Rightarrow> nat \<rightharpoonup> string \<times> namespaced_name"
    and lastId :: "'w \<Rightarrow> nat" and parses :: "string \<Rightarrow> bool"
begin

lemma Register_enabled:
  assumes "bk_Enabled (sp_Backup (pc_Spec pc))" and "bk_Schedule (sp_Backup (pc_Spec pc)) \<noteq> []"
  shows "Register S pc s =
    attempt ''add cron entry'' (call (AddFunc (sch_cron S) (bk_Schedule (sp_Backup (pc_Spec pc))) (pc_key pc)))
      (\<lambda>new s. (Inr (), s\<lparr>entries := (entries s)(entry_key (pc_key pc) \<mapsto> new)\<rparr>))
      (unscheduled (entry_key (pc_key pc)) s)"
  using assms by (simp add: Register_def unscheduled_def pc_key_def meta_key_def entry_key_def Let_def)

lemma Register_invariant:
  assumes inv: "one_job_each s" and run: "Register S pc s = (r, t)"
  shows "one_job_each t"
proof (cases "bk_Enabled (sp_Backup (pc_Spec pc)) \<and> bk_Schedule (sp_Backup (pc_Spec pc)) \<noteq> []")
  case False
  then show ?thesis using assms by (auto simp: Register_def split: if_splits)
next
  case True
  let ?k = "entry_key (pc_key pc)" and ?sched = "bk_Schedule (sp_Backup (pc_Spec pc))"
  let ?s = "unscheduled ?k s"
  obtain x w where add: "AddFunc (sch_cron S) ?sched (pc_key pc) (ext ?s) = (x, w)"
    by (cases "AddFunc (sch_cron S) ?sched (pc_key pc) (ext ?s)")
  have inv': "one_job_each ?s" by (rule unscheduled_inv [OF inv])
  show ?thesis
  proof (cases x)
    case (Inl e)
    then have "t = ?s\<lparr>ext := w\<rparr>" using run add True by (simp add: Register_enabled attempt_def call_def)
    then show ?thesis
      using inv' add_error [OF add [unfolded Inl]] by (simp add: one_job_each_def)
  next
    case (Inr i)
    then have t: "t = ?s\<lparr>ext := w, entries := (entries s)(?k \<mapsto> i)\<rparr>"
      using run add True by (simp add: Register_enabled attempt_def call_def)
    have new: "lastId (ext s) < i" "lastId w = i" "jobs w = (jobs (ext ?s))(i \<mapsto> (?sched, pc_key pc))"
      using add_ok [OF add [unfolded Inr]] by simp_all
    have old: "entries s k = Some j \<Longrightarrow> j < i" for k j
      using one_job_eachD(2) [OF inv] new(1) by fastforce
    have entry: "entries s (entry_key job) = Some n \<and> entry_key job \<noteq> ?k \<or> n = i \<and> job = pc_key pc"
      if "jobs w n = Some (sched, job)" for n sched job
    proof (cases "n = i")
      case True
      then show ?thesis using that new(3) by simp
    next
      case False
      then have "jobs (ext ?s) n = Some (sched, job)" using that new(3) by simp
      then show ?thesis using unscheduled_jobs [OF inv] one_job_eachD(1) [OF inv] by blast
    qed
    show ?thesis
      unfolding one_job_each_def
    proof (intro conjI allI impI)
      show "entries t (entry_key job) = Some n" if "jobs (ext t) n = Some (sched, job)" for n sched job
        using entry [of n sched job] that by (auto simp: t)
      show "n \<le> lastId (ext t)" if "entries t k = Some n" for k n
        using that old new(2) by (auto simp: t less_imp_le split: if_splits)
      show "k = k'" if "entries t k = Some n" "entries t k' = Some n" for k k' n
        using that old one_job_eachD(3) [OF inv] by (fastforce simp: t split: if_splits)
    qed
  qed
qed

definition job_of :: "'w process \<Rightarrow> string \<Rightarrow> nat \<Rightarrow> string \<times> namespaced_name \<Rightarrow> bool" where
  "job_of s k i j \<longleftrightarrow> jobs (ext s) i = Some j \<and> entry_key (snd j) = k"

lemma Register_replaces:
  assumes inv: "one_job_each s" and run: "Register S pc s = (Inr u, t)"
    and on: "bk_Enabled (sp_Backup (pc_Spec pc))" "bk_Schedule (sp_Backup (pc_Spec pc)) \<noteq> []"
  shows "(\<exists>i. \<forall>n j. job_of t (entry_key (pc_key pc)) n j \<longleftrightarrow>
        n = i \<and> j = (bk_Schedule (sp_Backup (pc_Spec pc)), pc_key pc)) \<and>
    (\<forall>k n j. k \<noteq> entry_key (pc_key pc) \<longrightarrow> job_of t k n j = job_of s k n j)"
proof -
  let ?k = "entry_key (pc_key pc)" and ?sched = "bk_Schedule (sp_Backup (pc_Spec pc))"
  let ?s = "unscheduled ?k s"
  obtain i w where add: "AddFunc (sch_cron S) ?sched (pc_key pc) (ext ?s) = (Inr i, w)"
    and t: "t = ?s\<lparr>ext := w, entries := (entries s)(?k \<mapsto> i)\<rparr>"
    using run on by (auto simp: Register_enabled attempt_def call_def split: prod.splits sum.splits)
  have new: "lastId (ext ?s) < i" "jobs w = (jobs (ext ?s))(i \<mapsto> (?sched, pc_key pc))"
    using add_ok [OF add] by simp_all
  have free: "jobs (ext s) i = None" "jobs (ext ?s) i = None"
    using ids_used [of "ext s" i] ids_used [of "ext ?s" i] new(1)
    by (fastforce simp del: not_None_eq)+
  have w: "jobs w n = Some (sched, job) \<longleftrightarrow>
      n = i \<and> sched = ?sched \<and> job = pc_key pc \<or> jobs (ext s) n = Some (sched, job) \<and> entry_key job \<noteq> ?k"
    for n sched job
    using free unscheduled_jobs [OF inv, of ?k n sched job] by (auto simp: new(2))
  have j: "job_of t k n j \<longleftrightarrow>
      n = i \<and> j = (?sched, pc_key pc) \<and> k = ?k \<or> job_of s k n j \<and> k \<noteq> ?k" for k n j
    by (cases j) (auto simp: job_of_def t w)
  show ?thesis
    by (intro conjI exI [of _ i] allI impI) (simp_all only: j, simp_all)
qed

lemma Register_fails:
  assumes inv: "one_job_each s" and run: "Register S pc s = (Inl e, t)"
  shows "(\<exists>e'. e = Wrapped ''add cron entry'' e') \<and> \<not> parses (bk_Schedule (sp_Backup (pc_Spec pc))) \<and>
    entries t = entries s \<and> (\<forall>n j. \<not> job_of t (entry_key (pc_key pc)) n j) \<and>
    (\<forall>k n j. k \<noteq> entry_key (pc_key pc) \<longrightarrow> job_of t k n j = job_of s k n j)"
proof -
  let ?k = "entry_key (pc_key pc)" and ?sched = "bk_Schedule (sp_Backup (pc_Spec pc))"
  let ?s = "unscheduled ?k s"
  have on: "bk_Enabled (sp_Backup (pc_Spec pc))" "?sched \<noteq> []"
    using run by (auto simp: Register_def split: if_splits)
  obtain e' w where add: "AddFunc (sch_cron S) ?sched (pc_key pc) (ext ?s) = (Inl e', w)"
    and e: "e = Wrapped ''add cron entry'' e'" and t: "t = ?s\<lparr>ext := w\<rparr>"
    using run on by (auto simp: Register_enabled attempt_def call_def split: prod.splits sum.splits)
  have "jobs w = jobs (ext ?s)" using add_error [OF add] by simp
  then have w: "jobs w n = Some (sched, job) \<longleftrightarrow> jobs (ext s) n = Some (sched, job) \<and> entry_key job \<noteq> ?k"
    for n sched job using unscheduled_jobs [OF inv] by simp
  have "\<not> parses ?sched" using add add_parses [of ?sched "pc_key pc" "ext ?s"] by auto
  moreover have "job_of t k n j \<longleftrightarrow> job_of s k n j \<and> k \<noteq> ?k" for k n j
    by (cases j) (auto simp: job_of_def t w)
  ultimately show ?thesis by (auto simp: e t)
qed

lemma Register_total:
  "bk_Schedule (sp_Backup (pc_Spec pc)) = [] \<or> parses (bk_Schedule (sp_Backup (pc_Spec pc))) \<Longrightarrow>
     \<exists>u t. Register S pc s = (Inr u, t)"
proof (cases "bk_Enabled (sp_Backup (pc_Spec pc)) \<and> bk_Schedule (sp_Backup (pc_Spec pc)) \<noteq> []")
  case False
  then show ?thesis by (auto simp: Register_def)
next
  case True
  assume "bk_Schedule (sp_Backup (pc_Spec pc)) = [] \<or> parses (bk_Schedule (sp_Backup (pc_Spec pc)))"
  with True obtain i w where "AddFunc (sch_cron S) (bk_Schedule (sp_Backup (pc_Spec pc))) (pc_key pc)
      (ext (unscheduled (entry_key (pc_key pc)) s)) = (Inr i, w)"
    using add_parses by blast
  then show ?thesis using True by (simp add: Register_enabled attempt_def call_def)
qed

end

section \<open>The abstract scheduler\<close>

text \<open>
  What the scheduler is to its clients: a map from clusters to what is scheduled for them. The
  entries and the jobs of the cron library represent that map.
\<close>

definition schedule_map ::
    "('w \<Rightarrow> nat \<rightharpoonup> string \<times> namespaced_name) \<Rightarrow> 'w process \<Rightarrow> string \<rightharpoonup> string \<times> namespaced_name" where
  "schedule_map jobs s k = Option.bind (entries s k) (jobs (ext s))"

definition set_schedule ::
    "(string \<Rightarrow> bool) \<Rightarrow> prometheus_cluster \<Rightarrow> (string \<rightharpoonup> string \<times> namespaced_name) \<Rightarrow>
     (string \<rightharpoonup> string \<times> namespaced_name)" where
  "set_schedule parses pc m =
     (let sched = bk_Schedule (sp_Backup (pc_Spec pc)); k = entry_key (pc_key pc)
      in if \<not> bk_Enabled (sp_Backup (pc_Spec pc)) \<or> sched = [] then m
         else if parses sched then m(k \<mapsto> (sched, pc_key pc))
         else m(k := None))"

context backup_registrar
begin

lemma schedule_map_job_of:
  assumes "one_job_each s"
  shows "schedule_map jobs s k = Some j \<longleftrightarrow> (\<exists>n. job_of s k n j)"
proof
  assume "schedule_map jobs s k = Some j"
  then obtain i where "entries s k = Some i" "jobs (ext s) i = Some j"
    by (auto simp: schedule_map_def bind_eq_Some_conv)
  moreover from this one_job_eachD(1) [OF assms, of i "fst j" "snd j"] have "entries s (entry_key (snd j)) = Some i" by simp
  ultimately show "\<exists>n. job_of s k n j" using one_job_eachD(3) [OF assms] by (auto simp: job_of_def)
next
  assume "\<exists>n. job_of s k n j"
  then obtain n where "jobs (ext s) n = Some j" "entry_key (snd j) = k" by (auto simp: job_of_def)
  with one_job_eachD(1) [OF assms, of n "fst j" "snd j"] show "schedule_map jobs s k = Some j"
    by (simp add: schedule_map_def)
qed

lemma Register_ok_parses:
  assumes "Register S pc s = (Inr u, t)" and "bk_Enabled (sp_Backup (pc_Spec pc))"
    and "bk_Schedule (sp_Backup (pc_Spec pc)) \<noteq> []"
  shows "parses (bk_Schedule (sp_Backup (pc_Spec pc)))"
proof -
  obtain i w where "AddFunc (sch_cron S) (bk_Schedule (sp_Backup (pc_Spec pc))) (pc_key pc)
      (ext (unscheduled (entry_key (pc_key pc)) s)) = (Inr i, w)"
    using assms by (auto simp: Register_enabled attempt_def call_def split: prod.splits sum.splits)
  then show ?thesis using add_parses by blast
qed

lemma Register_simulates:
  assumes inv: "one_job_each s" and run: "Register S pc s = (r, t)"
  shows "schedule_map jobs t = set_schedule parses pc (schedule_map jobs s)"
proof (cases "bk_Enabled (sp_Backup (pc_Spec pc)) \<and> bk_Schedule (sp_Backup (pc_Spec pc)) \<noteq> []")
  case False
  then show ?thesis using run by (auto simp: Register_def set_schedule_def split: if_splits)
next
  case True
  let ?k = "entry_key (pc_key pc)" and ?sched = "bk_Schedule (sp_Backup (pc_Spec pc))"
  note map_s = schedule_map_job_of [OF inv] and map_t = schedule_map_job_of [OF Register_invariant [OF inv run]]
  have other: "schedule_map jobs t k = schedule_map jobs s k" if "\<And>n j. job_of t k n j = job_of s k n j" for k
    using map_s [of k] map_t [of k] that by (metis not_Some_eq)
  show ?thesis
  proof (cases r)
    case (Inl e)
    note fails = Register_fails [OF inv run [unfolded Inl]]
    then have "schedule_map jobs t ?k = None" using map_t [of ?k] by (metis not_Some_eq)
    moreover have "schedule_map jobs t k = schedule_map jobs s k" if "k \<noteq> ?k" for k
      using other fails that by blast
    ultimately have "schedule_map jobs t = (schedule_map jobs s)(?k := None)" by (intro ext) simp
    then show ?thesis using fails True by (simp add: set_schedule_def Let_def)
  next
    case (Inr u)
    note replaced = Register_replaces [OF inv run [unfolded Inr] conjunct1 [OF True] conjunct2 [OF True]]
    then obtain i where "\<forall>n j. job_of t ?k n j \<longleftrightarrow> n = i \<and> j = (?sched, pc_key pc)" by (elim conjE exE)
    then have "job_of t ?k i (?sched, pc_key pc)" by (simp del: split_paired_All)
    then have "schedule_map jobs t ?k = Some (?sched, pc_key pc)" by (subst map_t) blast
    moreover have "schedule_map jobs t k = schedule_map jobs s k" if "k \<noteq> ?k" for k
      using other conjunct2 [OF replaced] that by blast
    ultimately have "schedule_map jobs t = (schedule_map jobs s)(?k \<mapsto> (?sched, pc_key pc))" by (intro ext) simp
    moreover have "parses ?sched" using Register_ok_parses [OF run [unfolded Inr]] True by blast
    ultimately show ?thesis using True by (simp add: set_schedule_def Let_def)
  qed
qed

end

section \<open>A backup run\<close>

text \<open>
  What the environment of a run leaves alone: none of it but the API server changes stored
  objects.
\<close>

locale backup_env =
  kube_scope "sch_Client S" view admit
  for S :: "'w scheduler" and view :: "'w \<Rightarrow> store" and admit :: "stateful_set \<Rightarrow> stateful_set" +
  assumes http_scope: "HTTP_Do S meth url w = (resp, w') \<Longrightarrow> view w' = view w"
    and put_scope: "PutObject S obj body w = (res, w') \<Longrightarrow> view w' = view w"
    and exec_scope: "sch_Exec S = Some E \<Longrightarrow> Exec E req w = (res, w') \<Longrightarrow> view w' = view w"
    and tar_scope: "sch_Exec S = Some E \<Longrightarrow> ExecInto E req obj w = (T, w') \<Longrightarrow> view w' = view w"
    and clock_scope: "Now S w = (now, w') \<Longrightarrow> view w' = view w"
    and cron_add_scope: "AddFunc (sch_cron S) sched job w = (added, w') \<Longrightarrow> view w' = view w"
    and cron_remove_scope: "view (RemoveEntry (sch_cron S) i w) = view w"
begin

definition quiet :: "'w process \<Rightarrow> 'w process \<Rightarrow> bool" where
  "quiet s t \<longleftrightarrow> view (ext t) = view (ext s) \<and> mets t = mets s"

lemma quiet_refl [simp]: "reflp quiet" and quiet_trans [simp]: "transp quiet"
  by (auto simp: reflp_def transp_def quiet_def)

lemma quiet_call: "(\<And>w r w'. f w = (r, w') \<Longrightarrow> view w' = view w) \<Longrightarrow> keeps quiet (call f)"
  by (rule keepsI) (auto simp: quiet_def elim!: callE)

lemma Register_quiet: "Register S pc s = (r, t) \<Longrightarrow> quiet s t"
  by (auto simp: Register_def attempt_def call_def quiet_def cron_remove_scope Let_def
      split: if_splits prod.splits sum.splits option.splits dest!: cron_add_scope)

lemma snapshot_quiet: "keeps quiet (snapshot S pc)"
  unfolding snapshot_def Let_def
  by (intro keeps_attempt quiet_call keepsI)
    (auto simp: http_scope quiet_def split: sum.splits option.splits if_splits)

lemma upload_quiet: "keeps quiet (upload S pc snap raw key)"
proof (cases "if snap = [] then None else sch_Exec S")
  case None
  then show ?thesis
    unfolding upload_def None option.case
    by (intro keeps_attempt quiet_call keeps_return) (simp_all add: put_scope)
next
  case (Some E)
  then have E: "sch_Exec S = Some E" by (simp split: if_splits)
  show ?thesis
    unfolding upload_def Some option.case
  proof (rule keeps_attempt)
    show "keeps quiet (tarStreamToS3 E pc snap key)"
      by (rule keepsI) (auto simp: tarStreamToS3_def call_def quiet_def split: prod.splits dest: tar_scope [OF E])
    show "keeps quiet (\<lambda>s. (Inr (), snd (cleanupSnapshot E pc snap s)))" for a :: unit
      by (rule keepsI) (auto simp: cleanupSnapshot_def call_def quiet_def split: prod.splits dest: exec_scope [OF E])
  qed simp
qed

lemma runBackup_cases:
  assumes run: "runBackup S ns name s = (r, t)"
  obtains (early) e where "r = Inl e" "quiet s t" "\<nexists>e'. e = Wrapped ''update status'' e'"
  | (stamp) pc snap raw s1 s2 now s3 s4 where
      "v_Clusters (view (ext s)) (ns, name) = Some pc"
      "call (Get (Clusters (sch_Client S)) (ns, name)) s = (Inr pc, s1)"
      "snapshot S pc s1 = (Inr (snap, raw), s2)"
      "call (Now S) s2 = (now, s3)"
      "upload S pc snap raw (backup_object_key S pc now) s3 = (Inr (), s4)" "quiet s s4"
      "stampBackup S pc s4 = (r, t)"
proof -
  obtain x w where get: "Get (Clusters (sch_Client S)) (ns, name) (ext s) = (x, w)"
    by (cases "Get (Clusters (sch_Client S)) (ns, name) (ext s)")
  let ?s1 = "s\<lparr>ext := w\<rparr>"
  have q1: "quiet s ?s1" using clusters.get_same [OF get] by (simp add: quiet_def)
  show ?thesis
  proof (cases x)
    case (Inl e)
    then show ?thesis using run get q1 by (intro early) (auto simp: runBackup_def attempt_def call_def)
  next
    case (Inr pc)
    have stored: "v_Clusters (view (ext s)) (ns, name) = Some pc"
      using clusters.get_stored [OF get [unfolded Inr]] .
    obtain y s2 where snap: "snapshot S pc ?s1 = (y, s2)" by (cases "snapshot S pc ?s1")
    have q2: "quiet s s2" using keepsD [OF snapshot_quiet snap] q1 by (simp add: quiet_def)
    show ?thesis
    proof (cases y)
      case Inl
      then show ?thesis using run get \<open>x = Inr pc\<close> snap q2
        by (intro early) (auto simp: runBackup_def attempt_def call_def)
    next
      case (Inr sr)
      obtain snapName raw where sr: "sr = (snapName, raw)" by (cases sr)
      obtain now w3 where now: "Now S (ext s2) = (now, w3)" by (cases "Now S (ext s2)")
      let ?s3 = "s2\<lparr>ext := w3\<rparr>"
      have q3: "quiet s2 ?s3" using clock_scope [OF now] by (simp add: quiet_def)
      obtain z s4 where up: "upload S pc snapName raw (backup_object_key S pc now) ?s3 = (z, s4)"
        by (cases "upload S pc snapName raw (backup_object_key S pc now) ?s3")
      have q4: "quiet s s4" using keepsD [OF upload_quiet up] q2 q3 by (simp add: quiet_def)
      have body: "(case (z, s4) of (Inl e, s) \<Rightarrow> (Inl e, s) | (Inr _, s) \<Rightarrow> stampBackup S pc s) = (r, t)"
        using run get \<open>x = Inr pc\<close> snap Inr sr now up by (simp add: runBackup_def attempt_def call_def)
      show ?thesis
      proof (cases z)
        case (Inl e)
        moreover have "\<nexists>e'. e = Wrapped ''update status'' e'"
          using up Inl by (auto simp: upload_def attempt_def split: option.splits prod.splits sum.splits if_splits)
        ultimately show ?thesis using body q4 by (intro early) auto
      next
        case (Inr u)
        then show ?thesis using body stored get \<open>x = Inr pc\<close> snap \<open>y = Inr sr\<close> sr now up q4
          by (intro stamp [of pc ?s1 snapName raw s2 now ?s3 s4]) auto
      qed
    qed
  qed
qed

lemma stampBackup_cases:
  assumes run: "stampBackup S pc s = (r, t)" and stored: "v_Clusters (view (ext s)) (pc_key pc) = Some pc0"
  shows "mets t = mets s \<and> same_except {ClusterId (pc_key pc)} (view (ext s)) (view (ext t)) \<and>
    (case r of
       Inl e \<Rightarrow> \<exists>e'. e = Wrapped ''update status'' e'
     | Inr _ \<Rightarrow> \<exists>now s5 v. call (Now S) s = (now, s5) \<and> v_Clusters (view (ext t)) (pc_key pc) =
         Some (pc0\<lparr>pc_Meta := with_version (pc_Meta pc0) v,
                   pc_Status := (pc_Status pc)\<lparr>cs_LastBackupTime := Some now\<rparr>\<rparr>))"
proof -
  obtain now w where now: "Now S (ext s) = (now, w)" by (cases "Now S (ext s)")
  let ?pc = "pc\<lparr>pc_Status := (pc_Status pc)\<lparr>cs_LastBackupTime := Some now\<rparr>\<rparr>"
  obtain x w' where upd: "StatusUpdate (Clusters (sch_Client S)) ?pc w = (x, w')"
    by (cases "StatusUpdate (Clusters (sch_Client S)) ?pc w")
  have key: "pc_key ?pc = pc_key pc" by (simp add: pc_key_def)
  have t: "t = s\<lparr>ext := w'\<rparr>" and r: "r = (case x of Inl e \<Rightarrow> Inl (Wrapped ''update status'' e) | Inr _ \<Rightarrow> Inr ())"
    using run now upd by (auto simp: stampBackup_def attempt_def call_def split: sum.splits)
  have same: "view w = view (ext s)" by (rule clock_scope [OF now])
  have scope: "same_except {ClusterId (pc_key pc)} (view (ext s)) (view w')"
    using clusters.status_scope [OF upd] by (simp add: key same)
  show ?thesis
  proof (cases x)
    case Inl
    then show ?thesis by (auto simp: r t scope)
  next
    case (Inr y)
    from cluster_status_stored [OF upd [unfolded Inr]] stored show ?thesis
      unfolding key by (auto simp: r t scope Inr same call_eq [of "Now S" s, OF now])
  qed
qed

lemma runBackup_mets: "runBackup S ns name s = (r, t) \<Longrightarrow> mets t = mets s"
proof (erule runBackup_cases)
  fix pc s4
  assume "quiet s s4" "stampBackup S pc s4 = (r, t)"
  then show ?thesis by (auto simp: stampBackup_def attempt_def call_def quiet_def split: prod.splits sum.splits)
qed (simp add: quiet_def)

lemma runBackup_effect:
  assumes run: "runBackup S ns name s = (r, t)"
  shows "same_except {ClusterId (ns, name)} (view (ext s)) (view (ext t)) \<and>
    (case r of
       Inl e \<Rightarrow> view (ext t) = view (ext s) \<or> (\<exists>e'. e = Wrapped ''update status'' e')
     | Inr _ \<Rightarrow> \<exists>pc s1 answer s2 snap raw now s3 s4 stamp s5 v.
         v_Clusters (view (ext s)) (ns, name) = Some pc \<and>
         call (Get (Clusters (sch_Client S)) (ns, name)) s = (Inr pc, s1) \<and>
         call (HTTP_Do S ''POST'' (snapshot_url (ns, name))) s1 = (answer, s2) \<and>
         snapshot_named S answer = Some (snap, raw) \<and>
         call (Now S) s2 = (now, s3) \<and>
         uploaded S pc snap raw
           \<lparr>po_Bucket = bk_Bucket (sp_Backup (pc_Spec pc)),
            po_Key = bk_Prefix (sp_Backup (pc_Spec pc)) @ ''/'' @ name @ ''/'' @ FormatTime S now @ ''.tar''\<rparr> s3 s4 \<and>
         call (Now S) s4 = (stamp, s5) \<and>
         v_Clusters (view (ext t)) (ns, name) =
           Some (pc\<lparr>pc_Meta := with_version (pc_Meta pc) v,
                    pc_Status := (pc_Status pc)\<lparr>cs_LastBackupTime := Some stamp\<rparr>\<rparr>))"
  using run
proof (cases rule: runBackup_cases)
  case (early e)
  then show ?thesis by (simp add: quiet_def)
next
  case (stamp pc snap raw s1 s2 now s3 s4)
  have key: "pc_key pc = (ns, name)" by (rule clusters.stored_key [OF stamp(1)])
  then have name: "Name (pc_Meta pc) = name" by (simp add: pc_key_def meta_key_def)
  have same: "view (ext s4) = view (ext s)" using stamp(6) by (simp add: quiet_def)
  have now_stored: "v_Clusters (view (ext s4)) (pc_key pc) = Some pc"
    using stamp(1) by (simp add: key same)
  note eff = stampBackup_cases [OF stamp(7) now_stored, unfolded key same]
  obtain answer where answer: "call (HTTP_Do S ''POST'' (snapshot_url (ns, name))) s1 = (answer, s2)"
    "snapshot_named S answer = Some (snap, raw)"
    by (rule snapshot_call [OF stamp(3) key]) (simp split: option.splits)
  show ?thesis
  proof (cases r)
    case (Inr u)
    with eff obtain st s5 v where after: "call (Now S) s4 = (st, s5)" "v_Clusters (view (ext t)) (ns, name) =
        Some (pc\<lparr>pc_Meta := with_version (pc_Meta pc) v,
                 pc_Status := (pc_Status pc)\<lparr>cs_LastBackupTime := Some st\<rparr>\<rparr>)" by auto
    have scope: "same_except {ClusterId (ns, name)} (view (ext s)) (view (ext t))" using eff by simp
    show ?thesis
      unfolding Inr sum.case
      using scope stamp(1,2,4) answer upload_success [OF stamp(5), unfolded archive_of_def name] after by blast
  qed (use eff in auto)
qed

end

lemma RunOnce_outcome:
  "RunOnce S ns name s = (r, t) \<Longrightarrow>
     \<exists>u. runBackup S ns name s = (r, u) \<and> ext t = ext u \<and> entries t = entries u \<and>
       mets t = (mets u)\<lparr>BackupTotal :=
         inc (BackupTotal (mets u)) (ns, name, case r of Inr _ \<Rightarrow> ''success'' | Inl _ \<Rightarrow> ''error'')\<rparr>"
  by (auto simp: RunOnce_def split: prod.splits)

lemma read_bytes_take:
  "br_i r \<le> length (br_b r) \<Longrightarrow> fst (read_bytes ns r) = take (sum_list ns) (drop (br_i r) (br_b r))"
proof (induction ns arbitrary: r)
  case (Cons n ns)
  show ?case
  proof (cases "br_i r \<ge> length (br_b r)")
    case False
    let ?bs = "take n (drop (br_i r) (br_b r))"
    have "fst (read_bytes ns (r\<lparr>br_i := br_i r + length ?bs\<rparr>)) =
        take (sum_list ns) (drop (br_i r + length ?bs) (br_b r))"
      using Cons.IH [of "r\<lparr>br_i := br_i r + length ?bs\<rparr>"] False by simp
    moreover have "take (n + sum_list ns) (drop (br_i r) (br_b r)) =
        ?bs @ take (sum_list ns) (drop (br_i r + length ?bs) (br_b r))"
      by (cases "n \<le> length (br_b r) - br_i r") (auto simp: take_add add.commute)
    ultimately show ?thesis
      using False by (cases "read_bytes ns (r\<lparr>br_i := br_i r + length ?bs\<rparr>)") (simp add: Read_def Let_def)
  qed (simp add: Read_def)
qed simp

section \<open>Properties\<close>

text \<open>
  At most one cron job per cluster. Registering a cluster, whatever its specification and
  whether or not it succeeds, keeps the entry map and the cron library consistent: every
  job is the one its cluster's entry names, entries of different clusters name different
  jobs, and no entry names an identifier the library has not issued yet.
\<close>

theorem Register_keeps_one_job_each:
  assumes "cron_lib (sch_cron S) jobs lastId parses"
    and "cron_lib.one_job_each jobs lastId s" and "Register S pc s = (r, t)"
  shows "cron_lib.one_job_each jobs lastId t"
  by (rule backup_registrar.Register_invariant [OF backup_registrar.intro [OF assms(1)] assms(2,3)])

text \<open>
  C20: the scheduler refines a map from clusters to schedules. Seen through the abstraction,
  \<open>Register\<close> is one assignment: nothing for a cluster without an enabled schedule, the new
  schedule in place of any older one when it parses, and no schedule at all when it does not;
  the other clusters' schedules stay. It fails exactly when the schedule does not parse.
\<close>

theorem Register_refines_schedule_map:
  assumes "cron_lib (sch_cron S) jobs lastId parses"
    and "cron_lib.one_job_each jobs lastId s" and "Register S pc s = (r, t)"
  shows "schedule_map jobs t = set_schedule parses pc (schedule_map jobs s) \<and>
    ((\<exists>e. r = Inl e) \<longleftrightarrow> bk_Enabled (sp_Backup (pc_Spec pc)) \<and> bk_Schedule (sp_Backup (pc_Spec pc)) \<noteq> [] \<and>
       \<not> parses (bk_Schedule (sp_Backup (pc_Spec pc))))"
proof -
  note B = backup_registrar.intro [OF assms(1)]
  have "(\<exists>e. r = Inl e) \<longleftrightarrow> bk_Enabled (sp_Backup (pc_Spec pc)) \<and> bk_Schedule (sp_Backup (pc_Spec pc)) \<noteq> [] \<and>
       \<not> parses (bk_Schedule (sp_Backup (pc_Spec pc)))"
  proof (cases r)
    case (Inl e)
    have "\<not> parses (bk_Schedule (sp_Backup (pc_Spec pc)))"
      using backup_registrar.Register_fails [OF B assms(2) assms(3) [unfolded Inl]] by blast
    with Inl assms(3) show ?thesis by (auto simp: Register_def split: if_splits)
  next
    case (Inr u)
    with backup_registrar.Register_ok_parses [OF B assms(3) [unfolded Inr]] show ?thesis by auto
  qed
  with backup_registrar.Register_simulates [OF B assms(2,3)] show ?thesis by blast
qed

text \<open>
  Registering an enabled backup with a schedule leaves exactly one job for the cluster, with
  that schedule, in place of any older one, and every other cluster's job as it was.
\<close>

theorem Register_replaces_job:
  assumes "cron_lib (sch_cron S) jobs lastId parses"
    and "cron_lib.one_job_each jobs lastId s" and "Register S pc s = (Inr u, t)"
    and "bk_Enabled (sp_Backup (pc_Spec pc))" and "bk_Schedule (sp_Backup (pc_Spec pc)) \<noteq> []"
  shows "(\<exists>i. \<forall>n sched job. jobs (ext t) n = Some (sched, job) \<and> entry_key job = entry_key (pc_key pc) \<longleftrightarrow>
      n = i \<and> sched = bk_Schedule (sp_Backup (pc_Spec pc)) \<and> job = pc_key pc) \<and>
    (\<forall>n sched job. entry_key job \<noteq> entry_key (pc_key pc) \<longrightarrow>
       jobs (ext t) n = Some (sched, job) \<longleftrightarrow> jobs (ext s) n = Some (sched, job))"
proof -
  note B = backup_registrar.intro [OF assms(1)]
  note spec = backup_registrar.Register_replaces [OF B assms(2-5)]
  obtain i where i: "\<And>n j. backup_registrar.job_of jobs t (entry_key (pc_key pc)) n j \<longleftrightarrow>
      n = i \<and> j = (bk_Schedule (sp_Backup (pc_Spec pc)), pc_key pc)"
    using conjunct1 [OF spec] by blast
  have "jobs (ext t) n = Some (sched, job) \<and> entry_key job = entry_key (pc_key pc) \<longleftrightarrow>
      n = i \<and> sched = bk_Schedule (sp_Backup (pc_Spec pc)) \<and> job = pc_key pc" for n sched job
    using i [of n "(sched, job)"] by (simp add: backup_registrar.job_of_def [OF B])
  moreover have "jobs (ext t) n = Some (sched, job) \<longleftrightarrow> jobs (ext s) n = Some (sched, job)"
    if "entry_key job \<noteq> entry_key (pc_key pc)" for n sched job
    using spec [THEN conjunct2, rule_format, OF that, of n "(sched, job)"]
    by (simp add: backup_registrar.job_of_def [OF B])
  ultimately show ?thesis by blast
qed

text \<open>
  C21: a schedule that does not parse costs the cluster the job it had. The old job is removed
  before the new one is added, so when adding fails the cluster has no job at all, its entry
  still names the removed one, and the error is returned; other clusters keep theirs.
\<close>

theorem Register_failure_drops_job:
  assumes "cron_lib (sch_cron S) jobs lastId parses"
    and "cron_lib.one_job_each jobs lastId s" and "Register S pc s = (Inl e, t)"
  shows "\<not> parses (bk_Schedule (sp_Backup (pc_Spec pc))) \<and> (\<exists>e'. e = Wrapped ''add cron entry'' e') \<and>
    entries t = entries s \<and>
    (\<forall>n sched job. jobs (ext t) n = Some (sched, job) \<longleftrightarrow>
       jobs (ext s) n = Some (sched, job) \<and> entry_key job \<noteq> entry_key (pc_key pc))"
proof -
  note B = backup_registrar.intro [OF assms(1)]
  note spec = backup_registrar.Register_fails [OF B assms(2,3)]
  have "jobs (ext t) n = Some (sched, job) \<longleftrightarrow>
      jobs (ext s) n = Some (sched, job) \<and> entry_key job \<noteq> entry_key (pc_key pc)" for n sched job
  proof (cases "entry_key job = entry_key (pc_key pc)")
    case True
    from spec have "\<not> backup_registrar.job_of jobs t (entry_key (pc_key pc)) n (sched, job)" by blast
    with True show ?thesis by (simp add: backup_registrar.job_of_def [OF B])
  next
    case False
    with spec have "backup_registrar.job_of jobs t (entry_key job) n (sched, job) =
        backup_registrar.job_of jobs s (entry_key job) n (sched, job)" by blast
    with False show ?thesis by (simp add: backup_registrar.job_of_def [OF B])
  qed
  with spec show ?thesis by blast
qed

text \<open>
  A backup run counts itself exactly once, as a success when it returns no error and as an
  error otherwise, and touches no other series.
\<close>

theorem RunOnce_counts_once:
  assumes "backup_env S view admit" and "RunOnce S ns name s = (r, t)"
  shows "mets t = (mets s)\<lparr>BackupTotal :=
      inc (BackupTotal (mets s)) (ns, name, case r of Inr _ \<Rightarrow> ''success'' | Inl _ \<Rightarrow> ''error'')\<rparr>"
proof -
  obtain u where run: "runBackup S ns name s = (r, u)"
    and t: "mets t = (mets u)\<lparr>BackupTotal :=
      inc (BackupTotal (mets u)) (ns, name, case r of Inr _ \<Rightarrow> ''success'' | Inl _ \<Rightarrow> ''error'')\<rparr>"
    using RunOnce_outcome [OF assms(2)] by blast
  have "mets u = mets s"
    using backup_env.runBackup_mets [OF assms(1) run] .
  then show ?thesis by (simp add: t)
qed

text \<open>
  C18: what a successful backup has done, state by state. It read the stored cluster, asked its admin
  endpoint for a snapshot, took the time, and uploaded to the bucket of that cluster, under its
  prefix, its name and that time: the endpoint's raw answer when there is no executor or no
  snapshot was named, else the output of \<open>tar\<close> on the named snapshot in pod \<open>name-0\<close>, all of it
  after a clean exit. Then it read the clock again and the stored cluster is the one it read with
  this time as the last backup. A run that fails otherwise than on the final status update has
  changed no stored object, and no run touches another object than the cluster.
\<close>

theorem RunOnce_stamps_what_it_uploaded:
  assumes "backup_env S view admit" and "RunOnce S ns name s = (r, t)"
  shows "same_except {ClusterId (ns, name)} (view (ext s)) (view (ext t)) \<and>
    (case r of
       Inl e \<Rightarrow> view (ext t) = view (ext s) \<or> (\<exists>e'. e = Wrapped ''update status'' e')
     | Inr _ \<Rightarrow> \<exists>pc s1 answer s2 snap raw now s3 s4 stamp s5 v.
         v_Clusters (view (ext s)) (ns, name) = Some pc \<and>
         call (Get (Clusters (sch_Client S)) (ns, name)) s = (Inr pc, s1) \<and>
         call (HTTP_Do S ''POST'' (snapshot_url (ns, name))) s1 = (answer, s2) \<and>
         snapshot_named S answer = Some (snap, raw) \<and>
         call (Now S) s2 = (now, s3) \<and>
         uploaded S pc snap raw
           \<lparr>po_Bucket = bk_Bucket (sp_Backup (pc_Spec pc)),
            po_Key = bk_Prefix (sp_Backup (pc_Spec pc)) @ ''/'' @ name @ ''/'' @ FormatTime S now @ ''.tar''\<rparr> s3 s4 \<and>
         call (Now S) s4 = (stamp, s5) \<and>
         v_Clusters (view (ext t)) (ns, name) =
           Some (pc\<lparr>pc_Meta := with_version (pc_Meta pc) v,
                    pc_Status := (pc_Status pc)\<lparr>cs_LastBackupTime := Some stamp\<rparr>\<rparr>))"
proof -
  obtain u where run: "runBackup S ns name s = (r, u)" and t: "ext t = ext u"
    using RunOnce_outcome [OF assms(2)] by blast
  show ?thesis
    unfolding t using backup_env.runBackup_effect [OF assms(1) run] .
qed

text \<open>
  Reading the raw answer to upload it. However the uploader sizes its buffers, the reader
  hands out the bytes of the answer in order, each once, and then ends.
\<close>

theorem bytesReader_delivers_prefix:
  "fst (read_bytes ns (bytesReader b)) = take (sum_list ns) b"
  using read_bytes_take [of "bytesReader b" ns] by (simp add: bytesReader_def)

text \<open>
  C22: an answer that is not a snapshot counts as a backup. When the admin API answers the
  snapshot request with anything that does not parse as a success, an error page with any
  status code included, its body is stored as the archive, the backup time is stamped and
  the run is counted as a success; whether backups are still enabled is not asked.
\<close>

theorem RunOnce_stores_error_answers:
  assumes "Get (Clusters (sch_Client S)) (ns, name) (ext s) = (Inr pc, w1)"
    and "HTTP_Do S ''POST'' (''http://'' @ Name (pc_Meta pc) @ ''.'' @ Namespace (pc_Meta pc) @
        ''.svc:9090/api/v1/admin/tsdb/snapshot'') w1 = (Inr \<lparr>StatusCode = code, Body = Inr body\<rparr>, w2)"
    and "\<And>parsed. Unmarshal S body = Some parsed \<Longrightarrow> sr_Status parsed \<noteq> ''success''"
    and "Now S w2 = (now, w3)"
    and "PutObject S \<lparr>po_Bucket = bk_Bucket (sp_Backup (pc_Spec pc)), po_Key = backup_object_key S pc now\<rparr> body w3 =
        (Inr (), w4)"
    and "Now S w4 = (stamp, w5)"
    and "StatusUpdate (Clusters (sch_Client S))
        (pc\<lparr>pc_Status := (pc_Status pc)\<lparr>cs_LastBackupTime := Some stamp\<rparr>\<rparr>) w5 = (Inr pc', w6)"
  shows "RunOnce S ns name s =
    (Inr (), s\<lparr>ext := w6, mets := (mets s)\<lparr>BackupTotal := inc (BackupTotal (mets s)) (ns, name, ''success'')\<rparr>\<rparr>)"
proof -
  have "snapshot S pc (s\<lparr>ext := w1\<rparr>) = (Inr ([], body), s\<lparr>ext := w2\<rparr>)"
    using assms(2,3) by (auto simp: snapshot_def attempt_def call_def split: option.splits)
  moreover have "upload S pc [] body (backup_object_key S pc now) (s\<lparr>ext := w3\<rparr>) = (Inr (), s\<lparr>ext := w4\<rparr>)"
    using assms(5) by (simp add: upload_def attempt_def call_def)
  moreover have "stampBackup S pc (s\<lparr>ext := w4\<rparr>) = (Inr (), s\<lparr>ext := w6\<rparr>)"
    using assms(6,7) by (simp add: stampBackup_def attempt_def call_def)
  ultimately show ?thesis
    using assms(1,4) by (simp add: RunOnce_def runBackup_def attempt_def call_def)
qed

end
