(* ===== verification/AuditLog.thy ===== *)
theory AuditLog
  imports KubeClient "HOL-Library.Multiset"
begin

text \<open>
  The audit log (\<open>internal/audit/audit.go\<close>): recording, querying, pruning and counting the rows
  of one table. The SQL statements of the source are constructors here; the database that
  runs them is a parameter, and the locale \<open>audit_table\<close> states what the statements mean for
  a table of rows. Time is in nanoseconds since Go's zero time, durations are 64-bit words
  as in the source, so the retention arithmetic wraps where the program's does.
\<close>

section \<open>The logger\<close>

record entry =
  ID :: int64
  ClusterName :: string
  Operation :: string
  Operator :: string
  Timestamp :: timestamp
  Result :: string
  Detail :: string

definition zero_entry :: entry where
  "zero_entry = \<lparr>ID = 0, ClusterName = [], Operation = [], Operator = [], Timestamp = 0, Result = [], Detail = []\<rparr>"

text \<open>
  The two statements run by \<open>ExecContext\<close>: \<open>INSERT INTO audit_log (...) VALUES (...)\<close>, which
  takes every column but the identifier, and \<open>DELETE FROM audit_log WHERE timestamp < $1\<close>.
  The inner result is that of \<open>RowsAffected\<close>. \<open>SelectEntries\<close> is the query
  \<open>SELECT ... WHERE cluster_name = $1 ORDER BY timestamp DESC LIMIT $2\<close> and \<open>SelectCount\<close> is
  \<open>SELECT COUNT(*) FROM audit_log\<close>.
\<close>

datatype statement =
    InsertRow string string string timestamp string string
  | DeleteOlder timestamp

record 'w audit_db =
  ExecContext :: "statement \<Rightarrow> 'w \<Rightarrow> int64 result result \<times> 'w"
  SelectEntries :: "string \<Rightarrow> int64 \<Rightarrow> 'w \<Rightarrow> entry list result \<times> 'w"
  SelectCount :: "'w \<Rightarrow> int64 result \<times> 'w"
  TimeNow :: "'w \<Rightarrow> timestamp \<times> 'w"

record 'w logger =
  db :: "'w audit_db"
  RetentionDays :: int64
  PruneInterval :: int64

definition Hour :: int64 where
  "Hour = 3600000000000"

text \<open>\<open>Open\<close>: connecting and running the schema are calls of the database driver.\<close>

definition Open ::
    "('w \<Rightarrow> 'w audit_db result \<times> 'w) \<Rightarrow> ('w audit_db \<Rightarrow> 'w \<Rightarrow> unit result \<times> 'w) \<Rightarrow> 'w \<Rightarrow> 'w logger result \<times> 'w" where
  "Open connect ensure =
     attempt ''connect postgres'' connect (\<lambda>d.
       attempt ''ensure schema'' (ensure d) (\<lambda>_ w.
         (Inr \<lparr>db = d, RetentionDays = 0, PruneInterval = 1 * Hour\<rparr>, w)))"

definition Record :: "'w logger \<Rightarrow> entry \<Rightarrow> 'w process \<Rightarrow> unit result \<times> 'w process" where
  "Record l e s =
     (let (ts, s) = (if Timestamp e = 0 then call (TimeNow (db l)) s else (Timestamp e, s));
          e = e\<lparr>Timestamp := ts\<rparr>
      in attempt ''insert audit''
           (call (ExecContext (db l)
              (InsertRow (ClusterName e) (Operation e) (Operator e) (Timestamp e) (Result e) (Detail e))))
           (\<lambda>_ s. (Inr (), s\<lparr>mets := (mets s)
              \<lparr>AuditRecordTotal := inc (AuditRecordTotal (mets s)) (ClusterName e, Result e)\<rparr>\<rparr>)) s)"

definition Query :: "'w logger \<Rightarrow> string \<Rightarrow> int64 \<Rightarrow> 'w process \<Rightarrow> entry list result \<times> 'w process" where
  "Query l clusterName limit =
     (let limit = (if sint limit \<le> 0 then 100 else limit)
      in attempt ''query audit'' (call (SelectEntries (db l) clusterName limit)) (\<lambda>out s. (Inr out, s)))"

definition Prune :: "'w logger \<Rightarrow> timestamp \<Rightarrow> 'w process \<Rightarrow> int64 result \<times> 'w process" where
  "Prune l before =
     attempt ''prune audit'' (call (ExecContext (db l) (DeleteOlder before))) (\<lambda>res s.
       case res of
         Inl e \<Rightarrow> (Inl (Wrapped ''rows affected'' e), s)
       | Inr n \<Rightarrow> (Inr n, s\<lparr>mets := (mets s)\<lparr>AuditPruneTotal := AuditPruneTotal (mets s) + sint n\<rparr>\<rparr>))"

definition RowCount :: "'w logger \<Rightarrow> 'w process \<Rightarrow> int64 result \<times> 'w process" where
  "RowCount l = attempt ''count audit'' (call (SelectCount (db l))) (\<lambda>n s. (Inr n, s))"

text \<open>\<open>time.Now().UTC().Add(-time.Duration(l.RetentionDays) * 24 * time.Hour)\<close>.\<close>

definition cutoff :: "int64 \<Rightarrow> timestamp \<Rightarrow> timestamp" where
  "cutoff days now = now + sint (- days * 24 * Hour)"

definition tick :: "'w logger \<Rightarrow> 'w process \<Rightarrow> 'w process" where
  "tick l s =
     (let (now, s) = call (TimeNow (db l)) s in
      case Prune l (cutoff (RetentionDays l) now) s of
        (Inl e, s) \<Rightarrow> s
      | (Inr n, s) \<Rightarrow>
          (case RowCount l s of
             (Inr c, s) \<Rightarrow> s\<lparr>mets := (mets s)\<lparr>AuditRows := sint c\<rparr>\<rparr>
           | (Inl e, s) \<Rightarrow> s))"

text \<open>
  \<open>Start\<close> until the context is cancelled: one tick at once, then one per firing of the ticker;
  the list has what the rest of the world does between the ticks. Nothing at all happens
  when retention is disabled.
\<close>

fun ticks :: "'w logger \<Rightarrow> ('w process \<Rightarrow> 'w process) list \<Rightarrow> 'w process \<Rightarrow> 'w process" where
  "ticks l [] s = s"
| "ticks l (env # envs) s = ticks l envs (tick l (env s))"

definition StartPruner :: "'w logger \<Rightarrow> ('w process \<Rightarrow> 'w process) list \<Rightarrow> 'w process \<Rightarrow> 'w process" where
  "StartPruner l envs s = (if sint (RetentionDays l) \<le> 0 then s else ticks l envs (tick l s))"

section \<open>The retention arithmetic\<close>

definition day_ns :: int where
  "day_ns = 86400000000000"

text \<open>The most days whose duration fits 64 bits: one more and the product wraps.\<close>

lemma cutoff_exact:
  assumes "0 \<le> sint days" and "sint days \<le> 106751"
  shows "cutoff days now = now - sint days * day_ns"
proof -
  have "- days * 24 * Hour = word_of_int (- sint days * day_ns)"
    by (simp add: Hour_def day_ns_def mult.commute)
  moreover have "sint (word_of_int (- sint days * day_ns) :: int64) = - sint days * day_ns"
    using assms by (intro signed_take_bit_int_eq_self [THEN trans [OF sint_sbintrunc']]) (auto simp: day_ns_def)
  ultimately show ?thesis by (simp add: cutoff_def)
qed

lemma cutoff_wraps: "cutoff 106752 now = now + 9223371273709551616"
  by (simp add: cutoff_def Hour_def)

section \<open>What the statements mean\<close>

definition inserted :: "(timestamp \<Rightarrow> timestamp) \<Rightarrow> statement \<Rightarrow> entry list \<Rightarrow> entry list \<Rightarrow> bool" where
  "inserted micro stmt old new \<longleftrightarrow>
     (case stmt of
        InsertRow c op who ts r d \<Rightarrow>
          (\<exists>i. i \<notin> ID ` set old \<and> new = old @ [\<lparr>ID = i, ClusterName = c, Operation = op, Operator = who,
                 Timestamp = micro ts, Result = r, Detail = d\<rparr>])
      | DeleteOlder before \<Rightarrow> new = filter (\<lambda>r. micro before \<le> Timestamp r) old)"

definition rows_of :: "string \<Rightarrow> entry list \<Rightarrow> entry list" where
  "rows_of c rows = filter (\<lambda>r. ClusterName r = c) rows"

definition newest_first :: "entry list \<Rightarrow> bool" where
  "newest_first rows \<longleftrightarrow> sorted_wrt (\<lambda>a b. Timestamp b \<le> Timestamp a) rows"

text \<open>
  A statement that succeeds has its effect; one that fails has none, or had it before the
  connection broke. The database keeps times to the microsecond (\<open>micro\<close>). A query returns the
  first rows of some newest-first ordering of the rows that match.
\<close>

locale audit_table =
  fixes D :: "'w audit_db" and tbl :: "'w \<Rightarrow> entry list" and clock :: "'w \<Rightarrow> timestamp"
    and micro :: "timestamp \<Rightarrow> timestamp"
  assumes micro_mono: "a \<le> b \<Longrightarrow> micro a \<le> micro b"
    and micro_near: "\<bar>micro a - a\<bar> \<le> 1000"
    and now: "TimeNow D w = (t, w') \<Longrightarrow> tbl w' = tbl w \<and> t = clock w' \<and> clock w \<le> clock w'"
    and exec_clock: "ExecContext D stmt w = (answer, w') \<Longrightarrow> clock w \<le> clock w'"
    and exec_ok: "ExecContext D stmt w = (Inr res, w') \<Longrightarrow> inserted micro stmt (tbl w) (tbl w')"
    and exec_error: "ExecContext D stmt w = (Inl e, w') \<Longrightarrow> tbl w' = tbl w \<or> inserted micro stmt (tbl w) (tbl w')"
    and affected: "ExecContext D (DeleteOlder before) w = (Inr (Inr n), w') \<Longrightarrow>
      sint n = int (length (tbl w)) - int (length (tbl w'))"
    and query_reads: "SelectEntries D c limit w = (found, w') \<Longrightarrow> tbl w' = tbl w \<and> clock w \<le> clock w'"
    and query_newest: "SelectEntries D c limit w = (Inr out, w') \<Longrightarrow> 0 < sint limit \<Longrightarrow>
      \<exists>rest. mset (out @ rest) = mset (rows_of c (tbl w)) \<and> newest_first (out @ rest) \<and>
        length out = min (nat (sint limit)) (length (rows_of c (tbl w)))"
    and count_reads: "SelectCount D w = (counted, w') \<Longrightarrow> tbl w' = tbl w \<and> clock w \<le> clock w'"
    and count_rows: "SelectCount D w = (Inr n, w') \<Longrightarrow> sint n = int (length (tbl w))"
begin

lemma Prune_table:
  assumes "db l = D" and "Prune l before s = (r, t)"
  shows "clock (ext s) \<le> clock (ext t)"
    and "tbl (ext t) = tbl (ext s) \<or> tbl (ext t) = filter (\<lambda>r. micro before \<le> Timestamp r) (tbl (ext s))"
proof -
  obtain res w where run: "ExecContext D (DeleteOlder before) (ext s) = (res, w)" by fastforce
  have t: "ext t = w"
    using assms run by (auto simp: Prune_def attempt_def call_def split: sum.splits)
  show "clock (ext s) \<le> clock (ext t)" using exec_clock [OF run] t by simp
  show "tbl (ext t) = tbl (ext s) \<or> tbl (ext t) = filter (\<lambda>r. micro before \<le> Timestamp r) (tbl (ext s))"
    using exec_error [of "DeleteOlder before"] exec_ok [of "DeleteOlder before"] run t
    by (cases res) (auto simp: inserted_def)
qed

lemma RowCount_table:
  assumes "db l = D" and "RowCount l s = (r, t)"
  shows "clock (ext s) \<le> clock (ext t)" and "tbl (ext t) = tbl (ext s)" and "mets t = mets s"
    and "r = Inr n \<Longrightarrow> sint n = int (length (tbl (ext s)))"
proof -
  obtain res w where run: "SelectCount D (ext s) = (res, w)" by fastforce
  have t: "t = s\<lparr>ext := w\<rparr> \<and> (\<forall>n. r = Inr n \<longrightarrow> res = Inr n)"
    using assms run by (auto simp: RowCount_def attempt_def call_def split: sum.splits)
  then show "clock (ext s) \<le> clock (ext t)" "tbl (ext t) = tbl (ext s)" "mets t = mets s"
    using count_reads [OF run] by simp_all
  show "r = Inr n \<Longrightarrow> sint n = int (length (tbl (ext s)))" using t count_rows run by auto
qed

lemma tick_table:
  assumes "db l = D"
  obtains now where "clock (ext s) \<le> now" "now \<le> clock (ext (tick l s))"
    "tbl (ext (tick l s)) = tbl (ext s) \<or>
     tbl (ext (tick l s)) = filter (\<lambda>r. micro (cutoff (RetentionDays l) now) \<le> Timestamp r) (tbl (ext s))"
proof -
  obtain now s1 where s1: "call (TimeNow (db l)) s = (now, s1)" by fastforce
  obtain r s2 where s2: "Prune l (cutoff (RetentionDays l) now) s1 = (r, s2)" by fastforce
  obtain c s3 where s3: "RowCount l s2 = (c, s3)" by fastforce
  have first: "tbl (ext s1) = tbl (ext s) \<and> clock (ext s) \<le> now \<and> now = clock (ext s1)"
    using s1 assms now by (auto elim!: callE)
  have second: "clock (ext s1) \<le> clock (ext s2)"
    "tbl (ext s2) = tbl (ext s1) \<or>
     tbl (ext s2) = filter (\<lambda>r. micro (cutoff (RetentionDays l) now) \<le> Timestamp r) (tbl (ext s1))"
    using Prune_table [OF assms s2] by auto
  have "ext (tick l s) = ext s2 \<or> ext (tick l s) = ext s3"
    using s1 s2 s3 by (auto simp: tick_def split: sum.splits)
  with first second RowCount_table(1,2) [OF assms s3] show ?thesis
    by (intro that [of now]) auto
qed

lemma tick_success:
  assumes "db l = D" and "\<And>b w. tbl w = tbl (ext s) \<Longrightarrow> \<exists>n w'. ExecContext D (DeleteOlder b) w = (Inr (Inr n), w')"
  obtains now where "clock (ext s) \<le> now" "now \<le> clock (ext (tick l s))"
    "tbl (ext (tick l s)) = filter (\<lambda>r. micro (cutoff (RetentionDays l) now) \<le> Timestamp r) (tbl (ext s))"
    "AuditPruneTotal (mets (tick l s)) =
       AuditPruneTotal (mets s) + int (length (tbl (ext s))) - int (length (tbl (ext (tick l s))))"
    "AuditRows (mets (tick l s)) = int (length (tbl (ext (tick l s)))) \<or>
       AuditRows (mets (tick l s)) = AuditRows (mets s)"
proof -
  obtain now s1 where s1: "call (TimeNow (db l)) s = (now, s1)" by fastforce
  have first: "tbl (ext s1) = tbl (ext s) \<and> clock (ext s) \<le> now \<and> now = clock (ext s1) \<and> mets s1 = mets s"
    using s1 assms(1) now by (auto elim!: callE)
  let ?b = "cutoff (RetentionDays l) now"
  obtain n w where run: "ExecContext D (DeleteOlder ?b) (ext s1) = (Inr (Inr n), w)"
    using assms(2) first by blast
  let ?s2 = "s1\<lparr>ext := w, mets := (mets s1)\<lparr>AuditPruneTotal := AuditPruneTotal (mets s1) + sint n\<rparr>\<rparr>"
  have s2: "Prune l ?b s1 = (Inr n, ?s2)"
    using run assms(1) by (simp add: Prune_def attempt_def)
  obtain c s3 where s3: "RowCount l ?s2 = (c, s3)" by fastforce
  note count = RowCount_table [OF assms(1) s3]
  have tick: "tick l s = (case c of Inr c \<Rightarrow> s3\<lparr>mets := (mets s3)\<lparr>AuditRows := sint c\<rparr>\<rparr> | Inl e \<Rightarrow> s3)"
    using s1 s2 s3 by (simp add: tick_def split: sum.splits)
  have tbl: "tbl (ext (tick l s)) = tbl w" "clock w \<le> clock (ext (tick l s))"
    using count(1,2) by (simp_all add: tick split: sum.splits)
  have "tbl w = filter (\<lambda>r. micro ?b \<le> Timestamp r) (tbl (ext s1))" and "clock (ext s1) \<le> clock w"
    using exec_ok [OF run] exec_clock [OF run] by (simp_all add: inserted_def)
  moreover have "AuditPruneTotal (mets (tick l s)) = AuditPruneTotal (mets s1) + sint n"
    using count(3) by (simp add: tick split: sum.splits)
  moreover have "AuditRows (mets (tick l s)) = int (length (tbl w)) \<or> AuditRows (mets (tick l s)) = AuditRows (mets s1)"
    using count(3,4) by (auto simp: tick split: sum.splits)
  ultimately show ?thesis
    using first tbl affected [OF run] by (intro that [of now]) auto
qed

lemma tick_clock: "db l = D \<Longrightarrow> clock (ext s) \<le> clock (ext (tick l s))"
  using tick_table [of l s] by (metis order_trans)

lemma ticks_clock:
  assumes "db l = D" and "\<And>env s. env \<in> set envs \<Longrightarrow> clock (ext s) \<le> clock (ext (env s))"
  shows "clock (ext s) \<le> clock (ext (ticks l envs s))"
  using assms(2)
proof (induction envs arbitrary: s)
  case (Cons env envs)
  have "clock (ext s) \<le> clock (ext (env s))" using Cons.prems [of env s] by simp
  also have "\<dots> \<le> clock (ext (tick l (env s)))" by (rule tick_clock [OF assms(1)])
  also have "\<dots> \<le> clock (ext (ticks l envs (tick l (env s))))" using Cons.prems by (intro Cons.IH) simp
  finally show ?case by simp
qed simp

lemma tick_keeps:
  assumes "db l = D" and "0 \<le> sint (RetentionDays l)" "sint (RetentionDays l) \<le> 106751"
    and "r \<in> set (tbl (ext s))" and "clock (ext (tick l s)) \<le> later"
    and "micro (later - sint (RetentionDays l) * day_ns) \<le> Timestamp r"
  shows "r \<in> set (tbl (ext (tick l s)))"
proof -
  obtain now where "now \<le> clock (ext (tick l s))"
    and rows: "tbl (ext (tick l s)) = tbl (ext s) \<or>
      tbl (ext (tick l s)) = filter (\<lambda>r. micro (now - sint (RetentionDays l) * day_ns) \<le> Timestamp r) (tbl (ext s))"
    using tick_table [OF assms(1), of s] cutoff_exact [OF assms(2,3)] by metis
  then have "micro (now - sint (RetentionDays l) * day_ns) \<le> micro (later - sint (RetentionDays l) * day_ns)"
    using assms(5) by (intro micro_mono) simp
  with rows assms(4,6) show ?thesis by auto
qed

lemma ticks_keep:
  assumes "db l = D" and "0 \<le> sint (RetentionDays l)" "sint (RetentionDays l) \<le> 106751"
    and "\<And>env s. env \<in> set envs \<Longrightarrow>
      set (tbl (ext s)) \<subseteq> set (tbl (ext (env s))) \<and> clock (ext s) \<le> clock (ext (env s))"
    and "r \<in> set (tbl (ext s))"
    and "micro (clock (ext (ticks l envs s)) - sint (RetentionDays l) * day_ns) \<le> Timestamp r"
  shows "r \<in> set (tbl (ext (ticks l envs s)))"
  using assms(4-6)
proof (induction envs arbitrary: s)
  case (Cons env envs)
  have in_env: "r \<in> set (tbl (ext (env s)))" using Cons.prems(1) [of env s] Cons.prems(2) by auto
  have later: "clock (ext (tick l (env s))) \<le> clock (ext (ticks l envs (tick l (env s))))"
    using Cons.prems(1) by (intro ticks_clock [OF assms(1)]) simp
  have "r \<in> set (tbl (ext (tick l (env s))))"
    using Cons.prems(3) by (intro tick_keeps [OF assms(1-3) in_env later]) simp
  then show ?case using Cons.prems by (auto intro!: Cons.IH)
qed simp

lemma Record_success:
  assumes "db l = D" and "Record l e s = (Inr u, t)"
  obtains ts i where "i \<notin> ID ` set (tbl (ext s))"
    "tbl (ext t) = tbl (ext s) @ [e\<lparr>ID := i, Timestamp := micro ts\<rparr>]"
    "if Timestamp e = 0 then clock (ext s) \<le> ts else ts = Timestamp e"
    "mets t = (mets s)\<lparr>AuditRecordTotal := inc (AuditRecordTotal (mets s)) (ClusterName e, Result e)\<rparr>"
proof -
  obtain ts s1 where s1: "(if Timestamp e = 0 then call (TimeNow (db l)) s else (Timestamp e, s)) = (ts, s1)"
    by fastforce
  have first: "tbl (ext s1) = tbl (ext s) \<and> mets s1 = mets s \<and>
      (if Timestamp e = 0 then clock (ext s) \<le> ts else ts = Timestamp e)"
    using s1 assms(1) now by (auto elim!: callE split: if_splits)
  let ?stmt = "InsertRow (ClusterName e) (Operation e) (Operator e) ts (Result e) (Detail e)"
  obtain r w where run: "ExecContext D ?stmt (ext s1) = (r, w)" by fastforce
  with assms s1 obtain n where r: "r = Inr n"
    and t: "t = s1\<lparr>ext := w, mets := (mets s1)
       \<lparr>AuditRecordTotal := inc (AuditRecordTotal (mets s1)) (ClusterName e, Result e)\<rparr>\<rparr>"
    by (cases r) (auto simp: Record_def attempt_def)
  from exec_ok run r have "inserted micro ?stmt (tbl (ext s1)) (tbl w)" by simp
  then obtain i where "i \<notin> ID ` set (tbl (ext s))" "tbl w = tbl (ext s) @ [e\<lparr>ID := i, Timestamp := micro ts\<rparr>]"
    using first by (cases e) (auto simp: inserted_def)
  then show ?thesis using first t by (intro that) auto
qed

lemma Query_success:
  assumes "db l = D" and "Query l c limit s = (Inr out, t)"
  shows "tbl (ext t) = tbl (ext s)" and "\<exists>rest. mset (out @ rest) = mset (rows_of c (tbl (ext s))) \<and>
    newest_first (out @ rest) \<and>
    length out = min (if sint limit \<le> 0 then 100 else nat (sint limit)) (length (rows_of c (tbl (ext s))))"
proof -
  define lim :: int64 where "lim = (if sint limit \<le> 0 then 100 else limit)"
  obtain w where run: "SelectEntries D c lim (ext s) = (Inr out, w)" "t = s\<lparr>ext := w\<rparr>"
    using assms by (auto simp: Query_def lim_def attempt_def call_def Let_def split: prod.splits sum.splits)
  show "tbl (ext t) = tbl (ext s)" using query_reads [OF run(1)] run(2) by simp
  have "sint (100 :: int64) = 100" by simp
  then have "0 < sint lim" "nat (sint lim) = (if sint limit \<le> 0 then 100 else nat (sint limit))"
    by (auto simp: lim_def)
  with query_newest [OF run(1)] show "\<exists>rest. mset (out @ rest) = mset (rows_of c (tbl (ext s))) \<and>
    newest_first (out @ rest) \<and>
    length out = min (if sint limit \<le> 0 then 100 else nat (sint limit)) (length (rows_of c (tbl (ext s))))"
    by simp
qed

end

section \<open>Properties\<close>

text \<open>
  C31: the pruner never deletes a row younger than the retention period. For any period of up
  to 106751 days, however often it has ticked, whether its statements succeeded or failed, and
  whatever was recorded in between: a row that was there at the start and whose time is not
  older than the period, counted back from the last moment, is still there. With retention
  disabled it deletes nothing at all.
\<close>

theorem pruner_keeps_recent_rows:
  assumes "audit_table (db l) tbl clock micro" and "sint (RetentionDays l) \<le> 106751"
    and "\<And>env s. env \<in> set envs \<Longrightarrow>
      set (tbl (ext s)) \<subseteq> set (tbl (ext (env s))) \<and> clock (ext s) \<le> clock (ext (env s))"
    and "r \<in> set (tbl (ext s))"
    and "sint (RetentionDays l) \<le> 0 \<or>
      micro (clock (ext (StartPruner l envs s)) - sint (RetentionDays l) * day_ns) \<le> Timestamp r"
  shows "r \<in> set (tbl (ext (StartPruner l envs s)))"
proof (cases "sint (RetentionDays l) \<le> 0")
  case False
  then have pos: "0 \<le> sint (RetentionDays l)" by simp
  have run: "StartPruner l envs s = ticks l envs (tick l s)"
    using False by (simp add: StartPruner_def)
  note table = assms(1)
  have later: "clock (ext (tick l s)) \<le> clock (ext (ticks l envs (tick l s)))"
    using assms(3) by (intro audit_table.ticks_clock [OF table refl]) blast
  have recent: "micro (clock (ext (ticks l envs (tick l s))) - sint (RetentionDays l) * day_ns) \<le> Timestamp r"
    using assms(5) False run by simp
  have "r \<in> set (tbl (ext (tick l s)))"
    by (rule audit_table.tick_keeps [OF table refl pos assms(2,4) later recent])
  then show ?thesis
    unfolding run using assms(3) recent by (intro audit_table.ticks_keep [OF table refl pos assms(2)]) auto
qed (simp add: StartPruner_def assms(4))

text \<open>
  A tick whose DELETE succeeds removes exactly the expired rows: those older than the
  retention period, counted back from a moment during the tick. The pruned-rows counter grows
  by the number removed, and the gauge of the table's size is the number of rows left, or stays
  as it was when the count failed.
\<close>

theorem tick_prunes_expired_rows:
  assumes "audit_table (db l) tbl clock micro"
    and "0 < sint (RetentionDays l)" "sint (RetentionDays l) \<le> 106751"
    and "\<And>b w. tbl w = tbl (ext s) \<Longrightarrow> \<exists>n w'. ExecContext (db l) (DeleteOlder b) w = (Inr (Inr n), w')"
  shows "\<exists>now. clock (ext s) \<le> now \<and> now \<le> clock (ext (tick l s)) \<and>
    tbl (ext (tick l s)) =
      filter (\<lambda>r. micro (now - sint (RetentionDays l) * day_ns) \<le> Timestamp r) (tbl (ext s)) \<and>
    AuditPruneTotal (mets (tick l s)) =
      AuditPruneTotal (mets s) + int (length (tbl (ext s))) - int (length (tbl (ext (tick l s)))) \<and>
    AuditRows (mets (tick l s)) \<in> {int (length (tbl (ext (tick l s)))), AuditRows (mets s)}"
proof -
  have "0 \<le> sint (RetentionDays l)" using assms(2) by simp
  note exact = cutoff_exact [OF this assms(3)]
  from audit_table.tick_success [OF assms(1) refl assms(4)] show ?thesis
    unfolding exact by (smt (verit) insertCI)
qed

text \<open>
  C32: a retention period of 106752 days empties the audit log. The period in nanoseconds does
  not fit the 64 bits of a \<open>time.Duration\<close>, the product wraps, and the cutoff lies centuries in
  the future: one successful tick deletes every row that is not itself from the future. Nothing
  in the program bounds the \<open>--audit-retention-days\<close> flag.
\<close>

theorem retention_overflow_empties_log:
  assumes "audit_table (db l) tbl clock micro" and "RetentionDays l = 106752"
    and "\<And>b w. tbl w = tbl (ext s) \<Longrightarrow> \<exists>n w'. ExecContext (db l) (DeleteOlder b) w = (Inr (Inr n), w')"
    and "\<And>r. r \<in> set (tbl (ext s)) \<Longrightarrow> Timestamp r \<le> clock (ext s)"
  shows "tbl (ext (StartPruner l [] s)) = []"
proof -
  obtain now where "clock (ext s) \<le> now"
    and rows: "tbl (ext (tick l s)) = filter (\<lambda>r. micro (cutoff 106752 now) \<le> Timestamp r) (tbl (ext s))"
    using audit_table.tick_success [OF assms(1) refl assms(3)] assms(2) by metis
  moreover have "now < micro (cutoff 106752 now)"
    using audit_table.micro_near [OF assms(1), of "cutoff 106752 now"] by (simp add: cutoff_wraps)
  ultimately have "tbl (ext (tick l s)) = []"
    using assms(4) by (force simp: filter_empty_conv)
  then show ?thesis using assms(2) by (simp add: StartPruner_def)
qed

text \<open>
  C33: what is recorded is read back first. After a successful \<open>Record\<close>, a successful query for
  the cluster starts with that entry, as long as the earlier rows of the cluster are older; it
  has the cluster's rows only, newest first, as many as the limit allows, 100 for a limit that is
  not positive. The recording is counted once, under its cluster and result.
\<close>

theorem Record_then_Query:
  assumes "audit_table (db l) tbl clock micro"
    and "Record l e s = (Inr u, s1)" and "Query l (ClusterName e) limit s1 = (Inr out, s2)"
    and "\<And>r. r \<in> set (tbl (ext s)) \<Longrightarrow> ClusterName r = ClusterName e \<Longrightarrow>
      Timestamp r < micro (if Timestamp e = 0 then clock (ext s) else Timestamp e)"
  shows "\<exists>i ts older. out = e\<lparr>ID := i, Timestamp := ts\<rparr> # older \<and>
    newest_first out \<and> set out \<subseteq> set (rows_of (ClusterName e) (tbl (ext s1))) \<and>
    length out = min (if sint limit \<le> 0 then 100 else nat (sint limit))
                     (Suc (length (rows_of (ClusterName e) (tbl (ext s))))) \<and>
    counter (AuditRecordTotal (mets s1)) (ClusterName e, Result e) =
      Suc (counter (AuditRecordTotal (mets s)) (ClusterName e, Result e))"
proof -
  obtain ts i where tbl1: "tbl (ext s1) = tbl (ext s) @ [e\<lparr>ID := i, Timestamp := micro ts\<rparr>]"
    and ts: "if Timestamp e = 0 then clock (ext s) \<le> ts else ts = Timestamp e"
    and mets1: "mets s1 = (mets s)\<lparr>AuditRecordTotal := inc (AuditRecordTotal (mets s)) (ClusterName e, Result e)\<rparr>"
    using audit_table.Record_success [OF assms(1) refl assms(2)] by metis
  let ?new = "e\<lparr>ID := i, Timestamp := micro ts\<rparr>"
  have rows1: "rows_of (ClusterName e) (tbl (ext s1)) = rows_of (ClusterName e) (tbl (ext s)) @ [?new]"
    by (simp add: tbl1 rows_of_def)
  obtain rest where perm: "mset (out @ rest) = mset (rows_of (ClusterName e) (tbl (ext s)) @ [?new])"
    and sorted: "newest_first (out @ rest)"
    and len: "length out = min (if sint limit \<le> 0 then 100 else nat (sint limit))
                     (Suc (length (rows_of (ClusterName e) (tbl (ext s)))))"
    using audit_table.Query_success(2) [OF assms(1) refl assms(3)] unfolding rows1 by auto
  have older: "Timestamp r < micro ts" if "r \<in> set (rows_of (ClusterName e) (tbl (ext s)))" for r
    using assms(4) [of r] that ts audit_table.micro_mono [OF assms(1), of "clock (ext s)" ts]
    by (auto simp: rows_of_def split: if_splits)
  have "out \<noteq> []" using len by (auto split: if_splits)
  then obtain x xs where out: "out = x # xs" by (cases out) auto
  have mem: "set (out @ rest) = insert ?new (set (rows_of (ClusterName e) (tbl (ext s))))"
    using mset_eq_setD [OF perm] by simp
  have "x = ?new"
  proof (rule ccontr)
    assume "x \<noteq> ?new"
    then have "?new \<in> set (xs @ rest)" and "x \<in> set (rows_of (ClusterName e) (tbl (ext s)))"
      using mem out by auto
    moreover have "\<forall>y \<in> set (xs @ rest). Timestamp y \<le> Timestamp x"
      using sorted out by (simp add: newest_first_def)
    ultimately have "Timestamp ?new \<le> Timestamp x" and "Timestamp x < micro ts"
      using older by blast+
    then show False by simp
  qed
  then have "out = ?new # xs" by (simp add: out)
  moreover have "newest_first out" using sorted by (simp add: newest_first_def sorted_wrt_append)
  moreover have "set out \<subseteq> set (rows_of (ClusterName e) (tbl (ext s1)))" using mem rows1 by auto
  ultimately show ?thesis using len mets1 by (intro exI conjI) auto
qed

end
