(* ===== verification/RestApi.thy ===== *)
theory RestApi
  imports BackupScheduler AuditLog
begin

text \<open>
  The REST API (\<open>pkg/api/server.go\<close>): one handler per route over the API server's client, the
  backup scheduler and the audit log, and the router that picks it. A gin context is the
  request: the path parameter, the \<open>X-Operator\<close> header and the body. What a handler writes is
  its response. Decoding the JSON body is a parameter.
\<close>

section \<open>Requests and responses\<close>

record gin_context =
  Param_name :: string
  X_Operator :: string
  ReqBody :: string

datatype payload =
    NoBody
  | ErrorBody string
  | OkBody
  | ClusterBody prometheus_cluster
  | ClusterList "prometheus_cluster list"
  | SetBody prometheus_cluster_set
  | SetList "prometheus_cluster_set list"
  | EntryList "entry list"

record response =
  Code :: int
  Payload :: payload

definition JSON :: "int \<Rightarrow> payload \<Rightarrow> response" where
  "JSON code body = \<lparr>Code = code, Payload = body\<rparr>"

record createReq =
  cr_Name :: string
  cr_Spec :: cluster_spec

record 'w server =
  srv_Client :: "'w client"
  srv_Namespace :: string
  srv_Audit :: "'w logger option"
  srv_Backup :: "'w scheduler option"

definition statusFor :: "go_error \<Rightarrow> int" where
  "statusFor err =
     (if is_not_found err then 404
      else if is_already_exists err then 409
      else if is_invalid err then 400
      else 500)"

section \<open>The handlers\<close>

definition audit_entry :: "gin_context \<Rightarrow> string \<Rightarrow> string \<Rightarrow> string \<Rightarrow> string \<Rightarrow> entry" where
  "audit_entry c cluster op result detail =
     zero_entry\<lparr>ClusterName := cluster, Operation := op,
       Operator := (if X_Operator c = [] then ''anonymous'' else X_Operator c),
       Result := result, Detail := detail\<rparr>"

definition audit ::
    "'w server \<Rightarrow> gin_context \<Rightarrow> string \<Rightarrow> string \<Rightarrow> string \<Rightarrow> string \<Rightarrow> 'w process \<Rightarrow> 'w process" where
  "audit srv c cluster op result detail s =
     (case srv_Audit srv of
        None \<Rightarrow> s
      | Some l \<Rightarrow> snd (Record l (audit_entry c cluster op result detail) s))"

definition listClusterSets :: "'w server \<Rightarrow> 'w process \<Rightarrow> response \<times> 'w process" where
  "listClusterSets srv s =
     (case call (List (ClusterSets (srv_Client srv)) list_all_objects) s of
        (Inl e, s) \<Rightarrow> (JSON 500 (ErrorBody (err_text e)), s)
      | (Inr items, s) \<Rightarrow> (JSON 200 (SetList items), s))"

definition getClusterSet :: "'w server \<Rightarrow> gin_context \<Rightarrow> 'w process \<Rightarrow> response \<times> 'w process" where
  "getClusterSet srv c s =
     (case call (Get (ClusterSets (srv_Client srv)) ([], Param_name c)) s of
        (Inl e, s) \<Rightarrow> (JSON (statusFor e) (ErrorBody (err_text e)), s)
      | (Inr x, s) \<Rightarrow> (JSON 200 (SetBody x), s))"

definition listClusters :: "'w server \<Rightarrow> 'w process \<Rightarrow> response \<times> 'w process" where
  "listClusters srv s =
     (case call (List (Clusters (srv_Client srv))
              \<lparr>lo_InNamespace = Some (srv_Namespace srv), lo_MatchingLabels = []\<rparr>) s of
        (Inl e, s) \<Rightarrow> (JSON 500 (ErrorBody (err_text e)), s)
      | (Inr items, s) \<Rightarrow> (JSON 200 (ClusterList items), s))"

definition new_cluster :: "'w server \<Rightarrow> createReq \<Rightarrow> prometheus_cluster" where
  "new_cluster srv req =
     zero_cluster\<lparr>pc_Meta := zero_meta\<lparr>Name := cr_Name req, Namespace := srv_Namespace srv\<rparr>, pc_Spec := cr_Spec req\<rparr>"

definition createCluster ::
    "(string \<Rightarrow> createReq result) \<Rightarrow> 'w server \<Rightarrow> gin_context \<Rightarrow> 'w process \<Rightarrow> response \<times> 'w process" where
  "createCluster ShouldBindJSON srv c s =
     (case ShouldBindJSON (ReqBody c) of
        Inl e \<Rightarrow> (JSON 400 (ErrorBody (err_text e)), s)
      | Inr req \<Rightarrow>
          (case call (Create (Clusters (srv_Client srv)) (new_cluster srv req)) s of
             (Inl e, s) \<Rightarrow> (JSON (statusFor e) (ErrorBody (err_text e)), s)
           | (Inr pc, s) \<Rightarrow>
               (JSON 201 (ClusterBody pc), audit srv c (cr_Name req) ''create'' ''success'' [] s)))"

definition getCluster :: "'w server \<Rightarrow> gin_context \<Rightarrow> 'w process \<Rightarrow> response \<times> 'w process" where
  "getCluster srv c s =
     (case call (Get (Clusters (srv_Client srv)) (srv_Namespace srv, Param_name c)) s of
        (Inl e, s) \<Rightarrow> (JSON (statusFor e) (ErrorBody (err_text e)), s)
      | (Inr pc, s) \<Rightarrow> (JSON 200 (ClusterBody pc), s))"

definition deleteCluster :: "'w server \<Rightarrow> gin_context \<Rightarrow> 'w process \<Rightarrow> response \<times> 'w process" where
  "deleteCluster srv c s =
     (case call (Delete (Clusters (srv_Client srv)) (srv_Namespace srv, Param_name c)) s of
        (Inl e, s) \<Rightarrow>
          (JSON (statusFor e) (ErrorBody (err_text e)),
           audit srv c (Param_name c) ''delete'' ''error'' (err_text e) s)
      | (Inr _, s) \<Rightarrow> (JSON 204 NoBody, audit srv c (Param_name c) ''delete'' ''success'' [] s))"

definition triggerBackup :: "'w server \<Rightarrow> gin_context \<Rightarrow> 'w process \<Rightarrow> response \<times> 'w process" where
  "triggerBackup srv c s =
     (case srv_Backup srv of
        None \<Rightarrow> (JSON 503 (ErrorBody ''backup scheduler not configured''), s)
      | Some S \<Rightarrow>
          (case RunOnce S (srv_Namespace srv) (Param_name c) s of
             (Inl e, s) \<Rightarrow>
               (JSON 500 (ErrorBody (err_text e)), audit srv c (Param_name c) ''backup'' ''error'' (err_text e) s)
           | (Inr _, s) \<Rightarrow> (JSON 202 OkBody, audit srv c (Param_name c) ''backup'' ''success'' [] s)))"

definition queryAudit :: "'w server \<Rightarrow> gin_context \<Rightarrow> 'w process \<Rightarrow> response \<times> 'w process" where
  "queryAudit srv c s =
     (case srv_Audit srv of
        None \<Rightarrow> (JSON 503 (ErrorBody ''audit log not configured''), s)
      | Some l \<Rightarrow>
          (case Query l (Param_name c) 100 s of
             (Inl e, s) \<Rightarrow> (JSON 500 (ErrorBody (err_text e)), s)
           | (Inr rows, s) \<Rightarrow> (JSON 200 (EntryList rows), s)))"

text \<open>
  \<open>Router\<close>: the request's path is the list of its segments; gin answers 404 when no route
  matches, also when only the method differs, and a path parameter is never empty.
\<close>

datatype http_method = GET | POST | DELETE | OtherMethod string

definition Router ::
    "(string \<Rightarrow> createReq result) \<Rightarrow> 'w server \<Rightarrow> http_method \<Rightarrow> string list \<Rightarrow> string \<Rightarrow> string \<Rightarrow>
     'w process \<Rightarrow> response \<times> 'w process" where
  "Router ShouldBindJSON srv meth path operator body s =
     (let ctx = (\<lambda>name. \<lparr>Param_name = name, X_Operator = operator, ReqBody = body\<rparr>);
          noRoute = (JSON 404 NoBody, s)
      in case path of
           [api, res] \<Rightarrow>
             if api \<noteq> ''api'' then noRoute
             else if res = ''clusters'' \<and> meth = GET then listClusters srv s
             else if res = ''clusters'' \<and> meth = POST then createCluster ShouldBindJSON srv (ctx []) s
             else if res = ''clustersets'' \<and> meth = GET then listClusterSets srv s
             else noRoute
         | [api, res, name] \<Rightarrow>
             if api \<noteq> ''api'' \<or> name = [] then noRoute
             else if res = ''clusters'' \<and> meth = GET then getCluster srv (ctx name) s
             else if res = ''clusters'' \<and> meth = DELETE then deleteCluster srv (ctx name) s
             else if res = ''clustersets'' \<and> meth = GET then getClusterSet srv (ctx name) s
             else noRoute
         | [api, res, name, sub] \<Rightarrow>
             if api \<noteq> ''api'' \<or> res \<noteq> ''clusters'' \<or> name = [] then noRoute
             else if sub = ''backup'' \<and> meth = POST then triggerBackup srv (ctx name) s
             else if sub = ''audit'' \<and> meth = GET then queryAudit srv (ctx name) s
             else noRoute
         | _ \<Rightarrow> noRoute)"

section \<open>Laws of the environment\<close>

text \<open>Every call a backup run makes keeps the relation \<open>P\<close>.\<close>

definition scheduler_calls :: "('w process \<Rightarrow> 'w process \<Rightarrow> bool) \<Rightarrow> 'w scheduler \<Rightarrow> bool" where
  "scheduler_calls P S \<longleftrightarrow>
     (\<forall>k. keeps P (call (Get (Clusters (sch_Client S)) k))) \<and>
     (\<forall>pc. keeps P (call (StatusUpdate (Clusters (sch_Client S)) pc))) \<and>
     (\<forall>m url. keeps P (call (HTTP_Do S m url))) \<and>
     (\<forall>obj body. keeps P (call (PutObject S obj body))) \<and>
     keeps P (call (Now S)) \<and>
     (\<forall>E req obj. sch_Exec S = Some E \<longrightarrow>
        keeps P (call (Exec E req)) \<and> keeps P (call (ExecInto E req obj)))"

lemma upload_keeps:
  assumes "reflp P" "transp P" "scheduler_calls P S"
  shows "keeps P (upload S pc snap raw key)"
proof (cases "if snap = [] then None else sch_Exec S")
  case None
  then show ?thesis
    unfolding upload_def None option.case
    using assms by (intro keeps_attempt keeps_return) (simp_all add: scheduler_calls_def)
next
  case (Some E)
  then have E: "sch_Exec S = Some E" by (simp split: if_splits)
  then have run: "keeps P (call (ExecInto E req obj))" and rm: "keeps P (call (Exec E req))" for req obj
    using assms(3) by (simp_all add: scheduler_calls_def)
  show ?thesis
    unfolding upload_def Some option.case
  proof (rule keeps_attempt)
    show "keeps P (tarStreamToS3 E pc snap key)"
      by (rule keepsI) (auto simp: tarStreamToS3_def split: prod.splits dest: keepsD [OF run])
    show "keeps P (\<lambda>s. (Inr (), snd (cleanupSnapshot E pc snap s)))" for a :: unit
      using rm by (auto simp: keeps_def cleanupSnapshot_def)
  qed (rule assms(2))
qed

lemma stampBackup_keeps:
  assumes "reflp P" "transp P" "scheduler_calls P S"
  shows "keeps P (stampBackup S pc)"
proof -
  have stamp: "keeps P (attempt ''update status'' (call (StatusUpdate (Clusters (sch_Client S)) x)) (\<lambda>_ s. (Inr (), s)))" for x
    using assms by (intro keeps_attempt keeps_return) (simp_all add: scheduler_calls_def)
  have clock: "keeps P (call (Now S))" using assms(3) by (simp add: scheduler_calls_def)
  show ?thesis
    by (rule keepsI)
      (auto simp: stampBackup_def split: prod.splits intro: transpD [OF assms(2)] dest!: keepsD [OF clock] keepsD [OF stamp])
qed

lemma snapshot_keeps:
  assumes "reflp P" "transp P" "scheduler_calls P S"
  shows "keeps P (snapshot S pc)"
  unfolding snapshot_def Let_def
  using assms by (intro keeps_attempt) (auto simp: scheduler_calls_def keeps_def reflp_def split: sum.splits option.splits)

lemma runBackup_keeps:
  assumes "reflp P" "transp P" "scheduler_calls P S"
  shows "keeps P (runBackup S ns name)"
proof -
  note trans = transpD [OF assms(2)]
  have clock: "keeps P (call (Now S))" using assms(3) by (simp add: scheduler_calls_def)
  have rest: "keeps P (\<lambda>s. case call (Now S) s of
         (now, s) \<Rightarrow>
           (case upload S pc snapName rawResp (backup_object_key S pc now) s of
              (Inl e, s) \<Rightarrow> (Inl e, s)
            | (Inr _, s) \<Rightarrow> stampBackup S pc s))" for pc snapName rawResp
    by (rule keepsI)
      (auto split: prod.splits sum.splits intro: trans
        dest!: keepsD [OF clock] keepsD [OF upload_keeps [OF assms]] keepsD [OF stampBackup_keeps [OF assms]])
  show ?thesis
    unfolding runBackup_def
    by (intro keeps_attempt snapshot_keeps assms) (use assms rest in \<open>auto simp: scheduler_calls_def split_def\<close>)
qed

text \<open>
  The API server and the scheduler behind the API, with an audit database that is apart from
  the stored objects.
\<close>

locale api_env = kube_scope "srv_Client srv" view admit
  for srv :: "'w server" and view :: "'w \<Rightarrow> store" and admit :: "stateful_set \<Rightarrow> stateful_set" +
  assumes backup: "srv_Backup srv = Some S \<Longrightarrow> backup_env S view admit"
    and audit_exec: "srv_Audit srv = Some l \<Longrightarrow> ExecContext (db l) stmt w = (answer, w') \<Longrightarrow> view w' = view w"
    and audit_select: "srv_Audit srv = Some l \<Longrightarrow> SelectEntries (db l) c limit w = (found, w') \<Longrightarrow> view w' = view w"
    and audit_clock: "srv_Audit srv = Some l \<Longrightarrow> TimeNow (db l) w = (now, w') \<Longrightarrow> view w' = view w"
begin

lemma Record_view:
  assumes "srv_Audit srv = Some l" and "Record l e s = (r, t)"
  shows "view (ext t) = view (ext s)"
  using assms(2) audit_exec [OF assms(1)] audit_clock [OF assms(1)]
  by (auto simp: Record_def attempt_def call_def Let_def split: if_splits prod.splits sum.splits)

lemma audit_view [simp]: "view (ext (audit srv c cluster op result detail s)) = view (ext s)"
  using Record_view [OF _ prod.collapse [symmetric]] by (auto simp: audit_def split: option.splits)

lemma createCluster_scope:
  assumes "createCluster J srv c s = (resp, t)"
  shows "case J (ReqBody c) of
    Inl _ \<Rightarrow> t = s
  | Inr req \<Rightarrow> same_except {ClusterId (srv_Namespace srv, cr_Name req)} (view (ext s)) (view (ext t))"
proof (cases "J (ReqBody c)")
  case (Inr req)
  have "pc_key (new_cluster srv req) = (srv_Namespace srv, cr_Name req)"
    by (simp add: new_cluster_def pc_key_def meta_key_def)
  with assms Inr show ?thesis
    by (auto simp: createCluster_def call_def split: prod.splits sum.splits dest!: clusters.create_scope)
qed (use assms in \<open>auto simp: createCluster_def\<close>)

lemma deleteCluster_scope:
  assumes "deleteCluster srv c s = (resp, t)"
  shows "same_except {ClusterId (srv_Namespace srv, Param_name c)} (view (ext s)) (view (ext t))"
  using assms by (auto simp: deleteCluster_def call_def split: prod.splits sum.splits dest!: clusters.delete_scope)

lemma triggerBackup_scope:
  assumes "triggerBackup srv c s = (resp, t)"
  shows "same_except {ClusterId (srv_Namespace srv, Param_name c)} (view (ext s)) (view (ext t))"
proof (cases "srv_Backup srv")
  case (Some S)
  obtain r u where run: "RunOnce S (srv_Namespace srv) (Param_name c) s = (r, u)" by fastforce
  have "same_except {ClusterId (srv_Namespace srv, Param_name c)} (view (ext s)) (view (ext u))"
    using RunOnce_outcome [OF run] backup_env.runBackup_effect [OF backup [OF Some]] by metis
  with assms Some run show ?thesis by (auto simp: triggerBackup_def split: sum.splits)
qed (use assms in \<open>simp add: triggerBackup_def\<close>)

lemma reads_view:
  "listClusters srv s = (resp, t) \<Longrightarrow> view (ext t) = view (ext s)"
  "listClusterSets srv s = (resp, t) \<Longrightarrow> view (ext t) = view (ext s)"
  "getCluster srv c s = (resp, t) \<Longrightarrow> view (ext t) = view (ext s)"
  "getClusterSet srv c s = (resp, t) \<Longrightarrow> view (ext t) = view (ext s)"
  "queryAudit srv c s = (resp, t) \<Longrightarrow> view (ext t) = view (ext s)"
  by (auto simp: listClusters_def listClusterSets_def getCluster_def getClusterSet_def queryAudit_def
      Query_def attempt_def call_def Let_def split: prod.splits sum.splits option.splits
      dest: clusters.list_same sets.list_same clusters.get_same sets.get_same audit_select)

end

text \<open>
  An entry was submitted to the log: the clock was read and the row's insertion was executed, with
  the operator of the header, or anonymous. When it was accepted the row is at the end of the table
  and was counted; when it reported an error it may or may not be there, and no metric changed.
\<close>

definition submitted ::
    "'w logger \<Rightarrow> ('w \<Rightarrow> entry list) \<Rightarrow> (timestamp \<Rightarrow> timestamp) \<Rightarrow> gin_context \<Rightarrow> string \<Rightarrow> string \<Rightarrow> string \<Rightarrow> string \<Rightarrow>
     'w process \<Rightarrow> 'w process \<Rightarrow> bool" where
  "submitted l tbl micro c cluster op result detail s t \<longleftrightarrow>
     (\<exists>who now w answer.
        who = (if X_Operator c = [] then ''anonymous'' else X_Operator c) \<and>
        TimeNow (db l) (ext s) = (now, w) \<and>
        ExecContext (db l) (InsertRow cluster op who now result detail) w = (answer, ext t) \<and>
        (let added = (\<exists>i. tbl (ext t) = tbl (ext s) @
               [\<lparr>ID = i, ClusterName = cluster, Operation = op, Operator = who, Timestamp = micro now,
                 Result = result, Detail = detail\<rparr>])
         in case answer of
              Inl e \<Rightarrow> (added \<or> tbl (ext t) = tbl (ext s)) \<and> mets t = mets s
            | Inr n \<Rightarrow> added \<and>
                mets t = (mets s)\<lparr>AuditRecordTotal := inc (AuditRecordTotal (mets s)) (cluster, result)\<rparr>))"

definition log_untouched :: "('w \<Rightarrow> entry list) \<Rightarrow> 'w process \<Rightarrow> 'w process \<Rightarrow> bool" where
  "log_untouched tbl s t \<longleftrightarrow> tbl (ext t) = tbl (ext s) \<and> AuditRecordTotal (mets t) = AuditRecordTotal (mets s)"

locale api_log =
  fixes srv :: "'w server" and l :: "'w logger" and tbl :: "'w \<Rightarrow> entry list"
    and clock :: "'w \<Rightarrow> timestamp" and micro :: "timestamp \<Rightarrow> timestamp"
  assumes logger: "srv_Audit srv = Some l" and table: "audit_table (db l) tbl clock micro"
    and create_apart: "Create (Clusters (srv_Client srv)) x w = (r, w') \<Longrightarrow> tbl w' = tbl w"
    and delete_apart: "Delete (Clusters (srv_Client srv)) k w = (u, w') \<Longrightarrow> tbl w' = tbl w"
    and backup_apart: "srv_Backup srv = Some S \<Longrightarrow> scheduler_calls (log_untouched tbl) S"
begin

lemma audit_submitted: "submitted l tbl micro c cluster op result detail s (audit srv c cluster op result detail s)"
proof -
  let ?who = "if X_Operator c = [] then ''anonymous'' else X_Operator c"
  obtain now w where now: "TimeNow (db l) (ext s) = (now, w)" by fastforce
  obtain answer w' where run: "ExecContext (db l) (InsertRow cluster op ?who now result detail) w = (answer, w')" by fastforce
  have same: "tbl w = tbl (ext s)" using audit_table.now [OF table now] by simp
  have t: "audit srv c cluster op result detail s =
      (case answer of Inl e \<Rightarrow> s\<lparr>ext := w'\<rparr>
       | Inr n \<Rightarrow> s\<lparr>ext := w', mets := (mets s)\<lparr>AuditRecordTotal := inc (AuditRecordTotal (mets s)) (cluster, result)\<rparr>\<rparr>)"
    using now run
    by (cases answer) (simp_all add: audit_def logger Record_def Let_def attempt_def call_def audit_entry_def zero_entry_def)
  show ?thesis
  proof (cases answer)
    case (Inl e)
    then show ?thesis
      unfolding submitted_def t using now run same audit_table.exec_error [OF table run [unfolded Inl]]
      by (intro exI [of _ ?who] exI [of _ now] exI [of _ w] exI [of _ answer]) (auto simp: inserted_def)
  next
    case (Inr n)
    then show ?thesis
      unfolding submitted_def t using now run same audit_table.exec_ok [OF table run [unfolded Inr]]
      by (intro exI [of _ ?who] exI [of _ now] exI [of _ w] exI [of _ answer]) (auto simp: inserted_def)
  qed
qed

lemma RunOnce_untouched:
  assumes "srv_Backup srv = Some S" and "RunOnce S ns name s = (r, t)"
  shows "log_untouched tbl s t"
proof -
  have "keeps (log_untouched tbl) (runBackup S ns name)"
    by (rule runBackup_keeps [OF _ _ backup_apart [OF assms(1)]]) (auto simp: reflp_def transp_def log_untouched_def)
  with RunOnce_outcome [OF assms(2)] show ?thesis
    by (auto simp: log_untouched_def dest!: keepsD)
qed

end

section \<open>Properties\<close>

lemma statusFor_error: "statusFor e \<in> {400, 404, 409, 500}"
  by (simp add: statusFor_def)

lemma JSON_fields [simp]: "Code (JSON code body) = code" "Payload (JSON code body) = body"
  by (simp_all add: JSON_def)

text \<open>What a handler answers does not depend on the log.\<close>

lemma answers_without_log:
  "fst (deleteCluster (srv\<lparr>srv_Audit := A\<rparr>) c s) = fst (deleteCluster srv c s)"
  "fst (triggerBackup (srv\<lparr>srv_Audit := A\<rparr>) c s) = fst (triggerBackup srv c s)"
  "fst (createCluster J (srv\<lparr>srv_Audit := A\<rparr>) c s) = fst (createCluster J srv c s)"
  by (auto simp: deleteCluster_def triggerBackup_def createCluster_def new_cluster_def
      split: prod.splits sum.splits option.splits)

context api_log
begin

lemma deleteCluster_logged:
  assumes "deleteCluster srv c s = (resp, t)"
  shows "\<exists>r w. Delete (Clusters (srv_Client srv)) (srv_Namespace srv, Param_name c) (ext s) = (r, w) \<and>
    tbl w = tbl (ext s) \<and>
    (case r of
       Inl e \<Rightarrow> Code resp = statusFor e \<and>
         submitted l tbl micro c (Param_name c) ''delete'' ''error'' (err_text e) (s\<lparr>ext := w\<rparr>) t
     | Inr _ \<Rightarrow> Code resp = 204 \<and> submitted l tbl micro c (Param_name c) ''delete'' ''success'' [] (s\<lparr>ext := w\<rparr>) t)"
proof -
  obtain r w where run: "Delete (Clusters (srv_Client srv)) (srv_Namespace srv, Param_name c) (ext s) = (r, w)"
    by fastforce
  with assms show ?thesis
    using delete_apart [OF run] audit_submitted by (cases r) (auto simp: deleteCluster_def call_def)
qed

lemma triggerBackup_logged:
  assumes "srv_Backup srv = Some S" and "triggerBackup srv c s = (resp, t)"
  shows "\<exists>r u. RunOnce S (srv_Namespace srv) (Param_name c) s = (r, u) \<and> log_untouched tbl s u \<and>
    (case r of
       Inl e \<Rightarrow> Code resp = 500 \<and> submitted l tbl micro c (Param_name c) ''backup'' ''error'' (err_text e) u t
     | Inr _ \<Rightarrow> Code resp = 202 \<and> submitted l tbl micro c (Param_name c) ''backup'' ''success'' [] u t)"
proof -
  obtain r u where run: "RunOnce S (srv_Namespace srv) (Param_name c) s = (r, u)" by fastforce
  with assms show ?thesis
    using RunOnce_untouched [OF assms(1) run] audit_submitted by (cases r) (auto simp: triggerBackup_def)
qed

lemma createCluster_logged:
  assumes "createCluster J srv c s = (resp, t)"
  shows "case J (ReqBody c) of
    Inl e \<Rightarrow> Code resp = 400 \<and> t = s
  | Inr req \<Rightarrow>
      (\<exists>r w. Create (Clusters (srv_Client srv)) (new_cluster srv req) (ext s) = (r, w) \<and> tbl w = tbl (ext s) \<and>
         (case r of
            Inl e \<Rightarrow> Code resp = statusFor e \<and> t = s\<lparr>ext := w\<rparr>
          | Inr pc \<Rightarrow> Code resp = 201 \<and>
              submitted l tbl micro c (cr_Name req) ''create'' ''success'' [] (s\<lparr>ext := w\<rparr>) t))"
proof (cases "J (ReqBody c)")
  case (Inl e)
  with assms show ?thesis by (auto simp: createCluster_def)
next
  case (Inr req)
  obtain r w where run: "Create (Clusters (srv_Client srv)) (new_cluster srv req) (ext s) = (r, w)" by fastforce
  with assms Inr show ?thesis
    using create_apart [OF run] audit_submitted by (cases r) (auto simp: createCluster_def call_def)
qed

end

text \<open>
  The cluster a request names: that of the body of a POST to the collection, when it can be
  decoded, and that of the path of a DELETE or of a POST of a backup.
\<close>

definition named_cluster ::
    "(string \<Rightarrow> createReq result) \<Rightarrow> http_method \<Rightarrow> string list \<Rightarrow> string \<Rightarrow> string option" where
  "named_cluster J meth path body =
     (if meth = POST \<and> path = [''api'', ''clusters'']
      then (case J body of Inr req \<Rightarrow> Some (cr_Name req) | Inl _ \<Rightarrow> None)
      else if meth = DELETE \<and> take 2 path = [''api'', ''clusters''] \<and> length path = 3 \<or>
              meth = POST \<and> take 2 path = [''api'', ''clusters''] \<and> drop 3 path = [''backup'']
      then Some (path ! 2)
      else None)"

context api_env
begin

lemma Router_effects:
  assumes "Router J srv meth path operator body s = (resp, t)"
  shows "case named_cluster J meth path body of
    None \<Rightarrow> view (ext t) = view (ext s)
  | Some n \<Rightarrow> same_except {ClusterId (srv_Namespace srv, n)} (view (ext s)) (view (ext t))"
  using assms
  by (auto simp: Router_def Let_def named_cluster_def split: list.splits if_splits sum.splits
      dest!: reads_view dest: createCluster_scope deleteCluster_scope triggerBackup_scope)

end

section \<open>Properties\<close>

text \<open>
  C34: the REST API changes at most the one cluster the request names, in the API's own namespace:
  the one of the decoded body of a POST to the collection, the one of the path of a DELETE or of a
  POST of a backup, whatever the answer, also when a backup or an audit record fails halfway.
  Every other request, a POST whose body cannot be decoded included, changes no stored object.
\<close>

theorem api_request_effects:
  assumes "api_env srv view admit" and "Router J srv meth path operator body s = (resp, t)"
  shows "case named_cluster J meth path body of
    None \<Rightarrow> view (ext t) = view (ext s)
  | Some n \<Rightarrow> same_except {ClusterId (srv_Namespace srv, n)} (view (ext s)) (view (ext t))"
  by (rule api_env.Router_effects [OF assms])

text \<open>
  C35: the audit trail of the API, when it has a log. After every DELETE and every backup run the
  handler executes the insertion of one row with the cluster of the path, the operation and the
  caller's header as operator: a success with no detail when the call was answered with 204 or
  202, else an error with the text of the error. A creation is recorded under the name of the body
  when it was answered with 201; one that was refused leaves no trace. An insertion the database
  accepts is a new row and is counted. The answers are the same with any log or none, so a
  failing log never changes them.
\<close>

theorem api_audit_trail:
  assumes "api_log srv l tbl clock micro"
  shows "(\<forall>resp t. deleteCluster srv c s = (resp, t) \<longrightarrow>
      (\<exists>r w. Delete (Clusters (srv_Client srv)) (srv_Namespace srv, Param_name c) (ext s) = (r, w) \<and>
         tbl w = tbl (ext s) \<and>
         (case r of
            Inl e \<Rightarrow> Code resp = statusFor e \<and>
              submitted l tbl micro c (Param_name c) ''delete'' ''error'' (err_text e) (s\<lparr>ext := w\<rparr>) t
          | Inr _ \<Rightarrow> Code resp = 204 \<and>
              submitted l tbl micro c (Param_name c) ''delete'' ''success'' [] (s\<lparr>ext := w\<rparr>) t))) \<and>
    (\<forall>S resp t. srv_Backup srv = Some S \<longrightarrow> triggerBackup srv c s = (resp, t) \<longrightarrow>
      (\<exists>r u. RunOnce S (srv_Namespace srv) (Param_name c) s = (r, u) \<and> log_untouched tbl s u \<and>
         (case r of
            Inl e \<Rightarrow> Code resp = 500 \<and>
              submitted l tbl micro c (Param_name c) ''backup'' ''error'' (err_text e) u t
          | Inr _ \<Rightarrow> Code resp = 202 \<and> submitted l tbl micro c (Param_name c) ''backup'' ''success'' [] u t))) \<and>
    (\<forall>resp t. createCluster J srv c s = (resp, t) \<longrightarrow>
      (case J (ReqBody c) of
         Inl e \<Rightarrow> Code resp = 400 \<and> t = s
       | Inr req \<Rightarrow>
           (\<exists>r w. Create (Clusters (srv_Client srv)) (new_cluster srv req) (ext s) = (r, w) \<and> tbl w = tbl (ext s) \<and>
              (case r of
                 Inl e \<Rightarrow> Code resp = statusFor e \<and> t = s\<lparr>ext := w\<rparr>
               | Inr pc \<Rightarrow> Code resp = 201 \<and>
                   submitted l tbl micro c (cr_Name req) ''create'' ''success'' [] (s\<lparr>ext := w\<rparr>) t)))) \<and>
    (\<forall>A. fst (deleteCluster (srv\<lparr>srv_Audit := A\<rparr>) c s) = fst (deleteCluster srv c s) \<and>
      fst (triggerBackup (srv\<lparr>srv_Audit := A\<rparr>) c s) = fst (triggerBackup srv c s) \<and>
      fst (createCluster J (srv\<lparr>srv_Audit := A\<rparr>) c s) = fst (createCluster J srv c s))"
  unfolding answers_without_log
  by (intro conjI allI impI refl)
    (erule (1) api_log.triggerBackup_logged [OF assms] | erule api_log.deleteCluster_logged [OF assms]
      api_log.createCluster_logged [OF assms])+

end
