(* ===== verification/HealthChecker.thy ===== *)
theory HealthChecker
  imports BackupScheduler
begin

text \<open>
  The health checker (\<open>internal/ha/ha.go\<close>): on every tick it lists the clusters and, for each,
  its pods; a pod with an address whose readiness endpoint cannot be reached or answers with
  a server error is deleted, counted, recorded as an event, and the cluster's status gets
  the time. The cluster object is the loop's local copy: a status update that succeeds
  replaces it by the server's answer, one that fails leaves the time set on it.
\<close>

section \<open>The checker\<close>

record 'w health_checker =
  hc_Client :: "'w client"
  hc_Get :: "string \<Rightarrow> 'w \<Rightarrow> http_response result \<times> 'w"
  Eventf :: "prometheus_cluster \<Rightarrow> string \<Rightarrow> string \<Rightarrow> string \<Rightarrow> 'w \<Rightarrow> 'w"
  hc_Now :: "'w \<Rightarrow> timestamp \<times> 'w"

text \<open>The dash of the event's message, in UTF-8.\<close>

definition em_dash :: string where
  "em_dash = [CHR 0xE2, CHR 0x80, CHR 0x94]"

definition failover_message :: "pod \<Rightarrow> go_error option \<Rightarrow> string" where
  "failover_message pod cause =
     (let reason = (case cause of Some e \<Rightarrow> err_text e | None \<Rightarrow> ''Unreachable'')
      in ''replica '' @ Name (pod_Meta pod) @ '' failed health check: '' @ reason @ '' '' @ em_dash @
         '' deleting pod to trigger rescheduling'')"

definition triggerFailover ::
    "'w health_checker \<Rightarrow> prometheus_cluster \<Rightarrow> pod \<Rightarrow> go_error option \<Rightarrow> 'w process \<Rightarrow>
     prometheus_cluster \<times> 'w process" where
  "triggerFailover H pc pod cause s =
     (let s = s\<lparr>mets := (mets s)\<lparr>FailoverTotal :=
                 inc (FailoverTotal (mets s)) (Namespace (pc_Meta pc), Name (pc_Meta pc))\<rparr>\<rparr>;
          s = s\<lparr>ext := Eventf H pc ''Warning'' ''FailoverTriggered'' (failover_message pod cause) (ext s)\<rparr>
      in case call (Delete (Pods (hc_Client H)) (pod_key pod)) s of
           (Inl _, s) \<Rightarrow> (pc, s)
         | (Inr _, s) \<Rightarrow>
             (case call (hc_Now H) s of
                (now, s) \<Rightarrow>
                  let pc = pc\<lparr>pc_Status := (pc_Status pc)\<lparr>cs_LastFailoverTime := Some now\<rparr>\<rparr>
                  in case call (StatusUpdate (Clusters (hc_Client H)) pc) s of
                       (Inl _, s) \<Rightarrow> (pc, s)
                     | (Inr pc, s) \<Rightarrow> (pc, s)))"

definition ready_url :: "pod \<Rightarrow> string" where
  "ready_url pod = ''http://'' @ pod_PodIP pod @ '':9090/-/ready''"

definition checkPod ::
    "'w health_checker \<Rightarrow> pod \<Rightarrow> prometheus_cluster \<times> 'w process \<Rightarrow> prometheus_cluster \<times> 'w process" where
  "checkPod H pod = (\<lambda>(pc, s).
     if pod_PodIP pod = [] then (pc, s)
     else (case call (hc_Get H (ready_url pod)) s of
             (Inl e, s) \<Rightarrow> triggerFailover H pc pod (Some e) s
           | (Inr resp, s) \<Rightarrow>
               if StatusCode resp \<ge> 500 then triggerFailover H pc pod None s else (pc, s)))"

definition checkCluster :: "'w health_checker \<Rightarrow> prometheus_cluster \<Rightarrow> 'w process \<Rightarrow> 'w process" where
  "checkCluster H pc s =
     (case call (List (Pods (hc_Client H))
             \<lparr>lo_InNamespace = Some (Namespace (pc_Meta pc)),
              lo_MatchingLabels = [(''app.kubernetes.io/instance'', Name (pc_Meta pc))]\<rparr>) s of
        (Inl _, s) \<Rightarrow> s
      | (Inr pods, s) \<Rightarrow> snd (fold (checkPod H) pods (pc, s)))"

definition checkAll :: "'w health_checker \<Rightarrow> 'w process \<Rightarrow> unit result \<times> 'w process" where
  "checkAll H =
     attempt ''list clusters'' (call (List (Clusters (hc_Client H)) list_all_objects))
       (\<lambda>pcs s. (Inr (), fold (checkCluster H) pcs s))"

text \<open>The loop of \<open>Start\<close> until the context is cancelled: one pass per tick, errors logged.\<close>

fun run_ticks :: "'w health_checker \<Rightarrow> nat \<Rightarrow> 'w process \<Rightarrow> 'w process" where
  "run_ticks H 0 s = s"
| "run_ticks H (Suc n) s = run_ticks H n (snd (checkAll H s))"

lemma inc_other: "k' \<noteq> k \<Longrightarrow> inc m k k' = m k'"
  by (simp add: inc_def)

section \<open>The journal of a check\<close>

text \<open>
  To state which calls a check makes and what they return, the checker runs unchanged on calls
  that also write a journal: every probe, event, deletion and status update with its result.
\<close>

datatype health_event =
    Probed string "http_response result"
  | Announced string
  | Deleted namespaced_name "unit result"
  | StatusWritten prometheus_cluster "prometheus_cluster result"

record 'w recorded =
  rw_World :: 'w
  rw_Events :: "health_event list"

definition silently :: "('w \<Rightarrow> 'a \<times> 'w) \<Rightarrow> 'w recorded \<Rightarrow> 'a \<times> 'w recorded" where
  "silently f c = (case f (rw_World c) of (r, w) \<Rightarrow> (r, c\<lparr>rw_World := w\<rparr>))"

definition recording :: "('a \<Rightarrow> health_event) \<Rightarrow> ('w \<Rightarrow> 'a \<times> 'w) \<Rightarrow> 'w recorded \<Rightarrow> 'a \<times> 'w recorded" where
  "recording ev f c =
     (case f (rw_World c) of (r, w) \<Rightarrow> (r, \<lparr>rw_World = w, rw_Events = rw_Events c @ [ev r]\<rparr>))"

definition recorded_resource ::
    "('o \<Rightarrow> 'o result \<Rightarrow> health_event) option \<Rightarrow> (namespaced_name \<Rightarrow> unit result \<Rightarrow> health_event) option \<Rightarrow>
     ('w, 'o) resource \<Rightarrow> ('w recorded, 'o) resource" where
  "recorded_resource status delete R =
     \<lparr>Get = (\<lambda>k. silently (Get R k)), List = (\<lambda>opts. silently (List R opts)),
      Create = (\<lambda>x. silently (Create R x)), Update = (\<lambda>x. silently (Update R x)),
      StatusUpdate = (\<lambda>x. case status of Some ev \<Rightarrow> recording (ev x) (StatusUpdate R x) | None \<Rightarrow> silently (StatusUpdate R x)),
      Delete = (\<lambda>k. case delete of Some ev \<Rightarrow> recording (ev k) (Delete R k) | None \<Rightarrow> silently (Delete R k))\<rparr>"

definition recorded_client :: "'w client \<Rightarrow> 'w recorded client" where
  "recorded_client cl =
     \<lparr>Clusters = recorded_resource (Some StatusWritten) None (Clusters cl),
      ClusterSets = recorded_resource None None (ClusterSets cl),
      StatefulSets = recorded_resource None None (StatefulSets cl),
      Pods = recorded_resource None (Some Deleted) (Pods cl),
      Namespaces = recorded_resource None None (Namespaces cl),
      CreateOrUpdateConfigMap = (\<lambda>x f. silently (CreateOrUpdateConfigMap cl x f)),
      CreateOrUpdateService = (\<lambda>x f. silently (CreateOrUpdateService cl x f))\<rparr>"

definition recorded_checker :: "'w health_checker \<Rightarrow> 'w recorded health_checker" where
  "recorded_checker H =
     \<lparr>hc_Client = recorded_client (hc_Client H),
      hc_Get = (\<lambda>url. recording (Probed url) (hc_Get H url)),
      Eventf = (\<lambda>pc typ reason msg c.
        \<lparr>rw_World = Eventf H pc typ reason msg (rw_World c), rw_Events = rw_Events c @ [Announced msg]\<rparr>),
      hc_Now = silently (hc_Now H)\<rparr>"

definition with_journal :: "'w process \<Rightarrow> 'w recorded process" where
  "with_journal s = \<lparr>ext = \<lparr>rw_World = ext s, rw_Events = []\<rparr>, mets = mets s, entries = entries s\<rparr>"

definition erased :: "'w recorded process \<Rightarrow> 'w process" where
  "erased s = \<lparr>ext = rw_World (ext s), mets = mets s, entries = entries s\<rparr>"

lemma erased_with_journal [simp]: "erased (with_journal s) = s" "rw_Events (ext (with_journal s)) = []"
  by (simp_all add: erased_def with_journal_def)

lemma erased_fields [simp]:
  "ext (erased s) = rw_World (ext s)" "mets (erased s) = mets s" "entries (erased s) = entries s"
  by (simp_all add: erased_def)

lemma erased_update [simp]:
  "erased (s\<lparr>mets := m\<rparr>) = (erased s)\<lparr>mets := m\<rparr>" "erased (s\<lparr>ext := c\<rparr>) = (erased s)\<lparr>ext := rw_World c\<rparr>"
  by (simp_all add: erased_def)

text \<open>A journalled call is the call, and its entry.\<close>

lemma recordedE:
  assumes "call (recording ev f) s = (r, t)"
  shows "call f (erased s) = (r, erased t)" "rw_Events (ext t) = rw_Events (ext s) @ [ev r]" "mets t = mets s"
  using assms by (auto simp: call_def recording_def erased_def split: prod.splits)

lemma silentE:
  assumes "call (silently f) s = (r, t)"
  shows "call f (erased s) = (r, erased t)" "rw_Events (ext t) = rw_Events (ext s)" "mets t = mets s"
  using assms by (auto simp: call_def silently_def erased_def split: prod.splits)

lemma recorded_checker_simps [simp]:
  "hc_Get (recorded_checker H) url = recording (Probed url) (hc_Get H url)"
  "hc_Now (recorded_checker H) = silently (hc_Now H)"
  "List (Pods (hc_Client (recorded_checker H))) opts = silently (List (Pods (hc_Client H)) opts)"
  "Delete (Pods (hc_Client (recorded_checker H))) k = recording (Deleted k) (Delete (Pods (hc_Client H)) k)"
  "List (Clusters (hc_Client (recorded_checker H))) opts = silently (List (Clusters (hc_Client H)) opts)"
  "StatusUpdate (Clusters (hc_Client (recorded_checker H))) x =
     recording (StatusWritten x) (StatusUpdate (Clusters (hc_Client H)) x)"
  "Eventf (recorded_checker H) pc typ reason msg c =
     \<lparr>rw_World = Eventf H pc typ reason msg (rw_World c), rw_Events = rw_Events c @ [Announced msg]\<rparr>"
  by (simp_all add: recorded_checker_def recorded_client_def recorded_resource_def)

text \<open>The journal changes nothing else.\<close>

lemma erased_call:
  "call f (erased s) = (fst (call (recording ev f) s), erased (snd (call (recording ev f) s)))"
  "call f (erased s) = (fst (call (silently f) s), erased (snd (call (silently f) s)))"
  using recordedE(1) [of ev f s] silentE(1) [of f s] by (metis prod.collapse)+

lemma erased_failover:
  "triggerFailover H pc p cause (erased s) =
     apsnd erased (triggerFailover (recorded_checker H) pc p cause s)"
proof -
  let ?R = "recorded_checker H"
  let ?s = "s\<lparr>mets := (mets s)\<lparr>FailoverTotal := inc (FailoverTotal (mets s)) (Namespace (pc_Meta pc), Name (pc_Meta pc))\<rparr>,
     ext := Eventf ?R pc ''Warning'' ''FailoverTriggered'' (failover_message p cause) (ext s)\<rparr>"
  obtain r s1 where del: "call (recording (Deleted (pod_key p)) (Delete (Pods (hc_Client H)) (pod_key p))) ?s = (r, s1)" by fastforce
  obtain now s2 where now: "call (silently (hc_Now H)) s1 = (now, s2)" by fastforce
  let ?pc = "pc\<lparr>pc_Status := (pc_Status pc)\<lparr>cs_LastFailoverTime := Some now\<rparr>\<rparr>"
  obtain q s3 where q: "call (recording (StatusWritten ?pc) (StatusUpdate (Clusters (hc_Client H)) ?pc)) s2 = (q, s3)" by fastforce
  have e: "erased ?s = (erased s)\<lparr>mets := (mets s)\<lparr>FailoverTotal := inc (FailoverTotal (mets s)) (Namespace (pc_Meta pc), Name (pc_Meta pc))\<rparr>,
     ext := Eventf H pc ''Warning'' ''FailoverTriggered'' (failover_message p cause) (rw_World (ext s))\<rparr>"
    by (simp add: erased_def)
  note calls = recordedE(1) [OF del, unfolded e] silentE(1) [OF now] recordedE(1) [OF q]
  show ?thesis
    using calls del now q by (simp add: triggerFailover_def Let_def split: sum.splits)
qed

lemma erased_checkPod:
  "checkPod H p (pc, erased s) = apsnd erased (checkPod (recorded_checker H) p (pc, s))"
proof -
  obtain r s1 where get: "call (recording (Probed (ready_url p)) (hc_Get H (ready_url p))) s = (r, s1)" by fastforce
  show ?thesis
    using recordedE(1) [OF get] get by (simp add: checkPod_def erased_failover split: sum.splits)
qed

lemma erased_checkPods:
  "fold (checkPod H) ps (pc, erased s) = apsnd erased (fold (checkPod (recorded_checker H)) ps (pc, s))"
proof (induction ps arbitrary: pc s)
  case (Cons p ps)
  obtain pc' t where one: "checkPod (recorded_checker H) p (pc, s) = (pc', t)" by fastforce
  then show ?case using Cons.IH [of pc' t] by (simp add: erased_checkPod)
qed simp

lemma erased_checkCluster: "checkCluster H pc (erased s) = erased (checkCluster (recorded_checker H) pc s)"
proof -
  let ?opts = "\<lparr>lo_InNamespace = Some (Namespace (pc_Meta pc)),
     lo_MatchingLabels = [(''app.kubernetes.io/instance'', Name (pc_Meta pc))]\<rparr>"
  obtain r s1 where list: "call (silently (List (Pods (hc_Client H)) ?opts)) s = (r, s1)" by fastforce
  show ?thesis
    using silentE(1) [OF list] list by (simp add: checkCluster_def erased_checkPods split: sum.splits)
qed

section \<open>What a check is for\<close>

definition down :: "http_response result \<Rightarrow> bool" where
  "down r \<longleftrightarrow> (case r of Inl _ \<Rightarrow> True | Inr resp \<Rightarrow> StatusCode resp \<ge> 500)"

text \<open>
  The events of one pod. One without an address is not probed. One whose probe fails is announced and
  its deletion asked for; only a deletion that succeeds is followed by a status update, of the
  cluster, with the time of the failover. A pod whose probe succeeds is left alone.
\<close>

definition pod_trace :: "namespaced_name \<Rightarrow> pod \<Rightarrow> health_event list \<Rightarrow> bool" where
  "pod_trace k p evs \<longleftrightarrow>
     (if pod_PodIP p = [] then evs = []
      else (\<exists>answer rest. evs = Probed (''http://'' @ pod_PodIP p @ '':9090/-/ready'') answer # rest \<and>
        (if \<not> down answer then rest = []
         else (\<exists>d st. rest = [Announced (failover_message p (case answer of Inl e \<Rightarrow> Some e | Inr _ \<Rightarrow> None)),
                              Deleted (pod_key p) d] @ st \<and>
           (case d of
              Inl _ \<Rightarrow> st = []
            | Inr _ \<Rightarrow> \<exists>x now q. st = [StatusWritten x q] \<and> pc_key x = k \<and>
                cs_LastFailoverTime (pc_Status x) = Some now)))))"

definition pods_of :: "prometheus_cluster \<Rightarrow> list_options" where
  "pods_of pc = \<lparr>lo_InNamespace = Some (Namespace (pc_Meta pc)),
     lo_MatchingLabels = [(''app.kubernetes.io/instance'', Name (pc_Meta pc))]\<rparr>"

definition doomed :: "store \<Rightarrow> namespaced_name \<Rightarrow> bool" where
  "doomed st k \<longleftrightarrow> (case v_Pods st k of None \<Rightarrow> True | Some p \<Rightarrow> DeletionTimestamp (pod_Meta p) \<noteq> None)"

definition specs_kept :: "store \<Rightarrow> store \<Rightarrow> bool" where
  "specs_kept a b \<longleftrightarrow>
     (\<forall>k. v_Clusters b k = v_Clusters a k \<or>
        (\<exists>old new. v_Clusters a k = Some old \<and> v_Clusters b k = Some new \<and> pc_Spec new = pc_Spec old))"

lemma specs_kept_refl [simp]: "specs_kept a a"
  by (simp add: specs_kept_def)

lemma specs_kept_trans: "specs_kept a b \<Longrightarrow> specs_kept b c \<Longrightarrow> specs_kept a c"
  unfolding specs_kept_def by (metis option.inject)

text \<open>What the journal says of deletions: asked for, and granted.\<close>

definition asked :: "health_event list \<Rightarrow> namespaced_name list" where
  "asked evs = concat (map (\<lambda>e. case e of Deleted k _ \<Rightarrow> [k] | _ \<Rightarrow> []) evs)"

definition granted :: "health_event list \<Rightarrow> namespaced_name set" where
  "granted evs = {k. Deleted k (Inr ()) \<in> set evs}"

lemma asked_append [simp]: "asked (a @ b) = asked a @ asked b" "asked [] = []"
  by (simp_all add: asked_def)

lemma granted_append [simp]: "granted (a @ b) = granted a \<union> granted b" "granted [] = {}"
  by (auto simp: granted_def)

lemma asked_Cons [simp]:
  "asked (Probed u a # evs) = asked evs" "asked (Announced m # evs) = asked evs"
  "asked (Deleted k d # evs) = k # asked evs" "asked (StatusWritten x q # evs) = asked evs"
  "granted (Probed u a # evs) = granted evs" "granted (Announced m # evs) = granted evs"
  "granted (Deleted k (Inl e) # evs) = granted evs" "granted (Deleted k (Inr v) # evs) = insert k (granted evs)"
  "granted (StatusWritten x q # evs) = granted evs"
  by (auto simp: asked_def granted_def)

lemma granted_asked: "granted evs \<subseteq> set (asked evs)"
proof
  fix k
  assume "k \<in> granted evs"
  then have "Deleted k (Inr ()) \<in> set evs" by (simp add: granted_def)
  then show "k \<in> set (asked evs)" unfolding asked_def by (force simp del: split_paired_Ex intro: bexI [of _ "Deleted k (Inr ())"])
qed

definition touched :: "namespaced_name \<Rightarrow> health_event list \<Rightarrow> object_id set" where
  "touched k evs = (if granted evs = {} then {} else {ClusterId k}) \<union> PodId ` set (asked evs)"

lemma touched_append: "touched k a \<subseteq> touched k (a @ b)" "touched k b \<subseteq> touched k (a @ b)"
  by (auto simp: touched_def)

section \<open>Laws of the environment\<close>

text \<open>
  Probing, recording an event and reading the clock change no stored object; listing pods returns
  stored pods that match. Any call may fail. A deletion that succeeds leaves the pod gone or
  terminating, and no deletion brings a pod back.
\<close>

locale health_env =
  kube_scope "hc_Client H" view admit
  for H :: "'w health_checker" and view :: "'w \<Rightarrow> store" and admit :: "stateful_set \<Rightarrow> stateful_set" +
  assumes probe_scope: "hc_Get H url w = (resp, w') \<Longrightarrow> view w' = view w"
    and event_scope: "view (Eventf H pc typ reason msg w) = view w"
    and hc_clock_scope: "hc_Now H w = (now, w') \<Longrightarrow> view w' = view w"
    and pods_listed: "List (Pods (hc_Client H)) (pods_of pc) w = (Inr ps, w') \<Longrightarrow> p \<in> set ps \<Longrightarrow>
      v_Pods (view w) (pod_key p) = Some p \<and> Namespace (pod_Meta p) = Namespace (pc_Meta pc) \<and>
      Labels (pod_Meta p) ''app.kubernetes.io/instance'' = Some (Name (pc_Meta pc))"
    and deleted_pod: "Delete (Pods (hc_Client H)) k w = (Inr (), w') \<Longrightarrow> doomed (view w') k"
    and stays_doomed: "Delete (Pods (hc_Client H)) k w = (rd, w') \<Longrightarrow> doomed (view w) k \<Longrightarrow> doomed (view w') k"
begin

abbreviation stored :: "'w recorded process \<Rightarrow> store" where
  "stored s \<equiv> view (rw_World (ext s))"

definition effect :: "namespaced_name \<Rightarrow> health_event list \<Rightarrow> 'w recorded process \<Rightarrow> 'w recorded process \<Rightarrow> bool" where
  "effect k evs s t \<longleftrightarrow>
     rw_Events (ext t) = rw_Events (ext s) @ evs \<and> same_except (touched k evs) (stored s) (stored t) \<and>
     (\<forall>j. doomed (stored s) j \<or> j \<in> granted evs \<longrightarrow> doomed (stored t) j) \<and> specs_kept (stored s) (stored t) \<and>
     counter (FailoverTotal (mets t)) k = counter (FailoverTotal (mets s)) k + length (asked evs) \<and>
     (\<forall>j. j \<noteq> k \<longrightarrow> FailoverTotal (mets t) j = FailoverTotal (mets s) j) \<and>
     (mets t)\<lparr>FailoverTotal := FailoverTotal (mets s)\<rparr> = mets s"

lemma effect_trans:
  assumes 1: "effect k a s u" and 2: "effect k b u t"
  shows "effect k (a @ b) s t"
proof -
  have "same_except (touched k (a @ b)) (stored s) (stored u)"
    by (rule same_except_mono [OF _ touched_append(1)]) (use 1 in \<open>simp add: effect_def\<close>)
  moreover have "same_except (touched k (a @ b)) (stored u) (stored t)"
    by (rule same_except_mono [OF _ touched_append(2)]) (use 2 in \<open>simp add: effect_def\<close>)
  ultimately have "same_except (touched k (a @ b)) (stored s) (stored t)" by (rule same_except_trans)
  moreover have "specs_kept (stored s) (stored t)"
    using 1 2 by (auto simp: effect_def intro: specs_kept_trans)
  moreover have "(mets t)\<lparr>FailoverTotal := FailoverTotal (mets s)\<rparr> = mets s"
    using 1 2 unfolding effect_def by (metis metrics.surjective metrics.update_convs(3))
  ultimately show ?thesis
    using 1 2 by (simp add: effect_def del: split_paired_All)
qed

text \<open>A call that only reads, with or without an entry of its own.\<close>

lemma effect_read:
  assumes "stored t = stored s" "mets t = mets s" "rw_Events (ext t) = rw_Events (ext s) @ evs" "asked evs = []"
  shows "effect k evs s t"
proof -
  have "granted evs = {}" using granted_asked [of evs] assms(4) by auto
  with assms show ?thesis by (simp add: effect_def)
qed

lemma doomed_same: "same_except {ClusterId k'} a b \<Longrightarrow> doomed a k = doomed b k"
  by (simp add: doomed_def same_exceptD)

text \<open>What one failover does: the whole of \<open>triggerFailover\<close> in one step.\<close>

lemma triggerFailover_step:
  assumes run: "triggerFailover (recorded_checker H) pc p cause s = (pc', t)"
  shows "\<exists>d st. pc_key pc' = pc_key pc \<and>
    effect (pc_key pc) ([Announced (failover_message p cause), Deleted (pod_key p) d] @ st) s t \<and>
    (case d of Inl _ \<Rightarrow> st = []
     | Inr _ \<Rightarrow> \<exists>x now q. st = [StatusWritten x q] \<and> pc_key x = pc_key pc \<and> cs_LastFailoverTime (pc_Status x) = Some now)"
proof -
  let ?k = "pc_key pc" and ?w = "Eventf H pc ''Warning'' ''FailoverTriggered'' (failover_message p cause) (rw_World (ext s))"
  let ?s = "s\<lparr>mets := (mets s)\<lparr>FailoverTotal := inc (FailoverTotal (mets s)) ?k\<rparr>,
     ext := \<lparr>rw_World = ?w, rw_Events = rw_Events (ext s) @ [Announced (failover_message p cause)]\<rparr>\<rparr>"
  have w: "view ?w = stored s" by (rule event_scope)
  obtain d w1 where del: "Delete (Pods (hc_Client H)) (pod_key p) ?w = (d, w1)" by fastforce
  let ?del = "[Announced (failover_message p cause), Deleted (pod_key p) d]"
  let ?s1 = "?s\<lparr>ext := \<lparr>rw_World = w1, rw_Events = rw_Events (ext s) @ ?del\<rparr>\<rparr>"
  have called: "call (recording (Deleted (pod_key p)) (Delete (Pods (hc_Client H)) (pod_key p))) ?s = (d, ?s1)"
    using del by (simp add: call_def recording_def)
  have scope1: "same_except {PodId (pod_key p)} (stored s) (view w1)"
    using pods.delete_scope [OF del] by (simp add: w)
  have doomed1: "doomed (view w1) j" if "doomed (stored s) j \<or> j = pod_key p \<and> (\<exists>u. d = Inr u)" for j
  proof (cases "j = pod_key p")
    case True
    with that stays_doomed [OF del] w deleted_pod [of "pod_key p" ?w w1] del show ?thesis by auto
  next
    case False
    with that same_exceptD(5) [OF scope1, of j] show ?thesis by (auto simp: doomed_def)
  qed
  have specs1: "specs_kept (stored s) (view w1)"
    using same_exceptD(1) [OF scope1] by (simp add: specs_kept_def)
  have counted: "counter (FailoverTotal (mets ?s1)) ?k = Suc (counter (FailoverTotal (mets s)) ?k)"
    "j \<noteq> ?k \<Longrightarrow> FailoverTotal (mets ?s1) j = FailoverTotal (mets s) j"
    "(mets ?s1)\<lparr>FailoverTotal := FailoverTotal (mets s)\<rparr> = mets s" for j
    by (simp_all add: inc_other)
  have failover: "triggerFailover (recorded_checker H) pc p cause s =
    (case call (recording (Deleted (pod_key p)) (Delete (Pods (hc_Client H)) (pod_key p))) ?s of
       (Inl _, s) \<Rightarrow> (pc, s)
     | (Inr _, s) \<Rightarrow>
         (case call (silently (hc_Now H)) s of
            (now, s) \<Rightarrow>
              let pc = pc\<lparr>pc_Status := (pc_Status pc)\<lparr>cs_LastFailoverTime := Some now\<rparr>\<rparr>
              in case call (recording (StatusWritten pc) (StatusUpdate (Clusters (hc_Client H)) pc)) s of
                   (Inl _, s) \<Rightarrow> (pc, s)
                 | (Inr pc, s) \<Rightarrow> (pc, s)))"
    unfolding triggerFailover_def Let_def recorded_checker_simps pc_key_def meta_key_def by simp
  show ?thesis
  proof (cases d)
    case (Inl e)
    then have "pc' = pc" "t = ?s1" using run unfolding failover called by auto
    moreover have "same_except (touched ?k ?del) (stored s) (view w1)"
      by (rule same_except_mono [OF scope1]) (simp add: touched_def)
    ultimately have "effect ?k (?del @ []) s t"
      using counted doomed1 specs1 Inl by (simp add: effect_def inc_other del: split_paired_All)
    then show ?thesis using Inl \<open>pc' = pc\<close> by (intro exI [of _ d] exI [of _ "[]"]) simp
  next
    case (Inr u)
    obtain now w2 where now: "hc_Now H w1 = (now, w2)" by fastforce
    let ?pc = "pc\<lparr>pc_Status := (pc_Status pc)\<lparr>cs_LastFailoverTime := Some now\<rparr>\<rparr>"
    have key: "pc_key ?pc = ?k" by (simp add: pc_key_def)
    obtain q w3 where upd: "StatusUpdate (Clusters (hc_Client H)) ?pc w2 = (q, w3)" by fastforce
    let ?all = "?del @ [StatusWritten ?pc q]"
    have t: "t = ?s\<lparr>ext := \<lparr>rw_World = w3, rw_Events = rw_Events (ext s) @ ?all\<rparr>\<rparr>"
      and pc': "pc' = (case q of Inl _ \<Rightarrow> ?pc | Inr y \<Rightarrow> y)"
      using run Inr now upd unfolding failover called
      by (auto simp: call_def silently_def recording_def Let_def split: sum.splits)
    have w2: "view w2 = view w1" by (rule hc_clock_scope [OF now])
    have scope2: "same_except {ClusterId ?k} (view w1) (view w3)"
      using clusters.status_scope [OF upd] by (simp add: key w2)
    have "pc_key pc' = ?k"
    proof (cases q)
      case (Inr y)
      then have "v_Clusters (view w3) ?k = Some y"
        using cluster_status_stored [OF upd [unfolded Inr]] by (auto simp: key)
      then show ?thesis using clusters.stored_key pc' Inr by simp
    qed (simp add: pc' key)
    moreover have "same_except (touched ?k ?all) (stored s) (view w3)"
      by (rule same_except_trans [of _ _ "view w1"])
        (auto intro: same_except_mono [OF scope1] same_except_mono [OF scope2] simp: touched_def Inr)
    moreover have "specs_kept (view w1) (view w3)"
      unfolding specs_kept_def
    proof
      fix k
      show "v_Clusters (view w3) k = v_Clusters (view w1) k \<or>
        (\<exists>old new. v_Clusters (view w1) k = Some old \<and> v_Clusters (view w3) k = Some new \<and> pc_Spec new = pc_Spec old)"
        using cluster_status_atomic [OF upd] same_exceptD(1) [OF scope2, of k] by (cases "k = ?k") (auto simp: key w2)
    qed
    moreover have "doomed (view w3) j" if "doomed (stored s) j \<or> j \<in> granted ?all" for j
      using doomed1 [of j] that doomed_same [OF scope2, of j] Inr by auto
    ultimately have "effect ?k ?all s t" and "pc_key pc' = ?k"
      using counted specs_kept_trans [OF specs1] by (simp_all add: effect_def t inc_other del: split_paired_All)
    then show ?thesis using Inr key
      by (intro exI [of _ d] exI [of _ "[StatusWritten ?pc q]"]) auto
  qed
qed

lemma checkPod_step:
  assumes run: "checkPod (recorded_checker H) p (pc, s) = (pc', t)"
  shows "\<exists>evs. pc_key pc' = pc_key pc \<and> pod_trace (pc_key pc) p evs \<and> effect (pc_key pc) evs s t"
proof (cases "pod_PodIP p = []")
  case True
  then have "pc' = pc" "t = s" using run by (simp_all add: checkPod_def)
  then show ?thesis using True by (intro exI [of _ "[]"]) (simp add: pod_trace_def effect_read)
next
  case False
  obtain answer s1 where get: "call (recording (Probed (ready_url p)) (hc_Get H (ready_url p))) s = (answer, s1)" by fastforce
  note probed = recordedE [OF get]
  have "stored s1 = stored s"
    using probed(1) probe_scope [of "ready_url p" "rw_World (ext s)" answer "rw_World (ext s1)"]
    by (auto simp: call_def erased_def split: prod.splits)
  then have read: "effect (pc_key pc) [Probed (ready_url p) answer] s s1"
    using probed(2,3) by (intro effect_read) simp_all
  show ?thesis
  proof (cases "down answer")
    case False
    then have "pc' = pc" "t = s1" using run get \<open>pod_PodIP p \<noteq> []\<close>
      by (auto simp: checkPod_def down_def split: sum.splits if_splits)
    then show ?thesis using read False \<open>pod_PodIP p \<noteq> []\<close>
      by (intro exI [of _ "[Probed (ready_url p) answer]"]) (simp add: pod_trace_def ready_url_def)
  next
    case True
    let ?cause = "case answer of Inl e \<Rightarrow> Some e | Inr _ \<Rightarrow> None"
    have "triggerFailover (recorded_checker H) pc p ?cause s1 = (pc', t)"
      using run get True \<open>pod_PodIP p \<noteq> []\<close> by (auto simp: checkPod_def down_def split: sum.splits)
    from triggerFailover_step [OF this] obtain d st where key: "pc_key pc' = pc_key pc"
      and eff: "effect (pc_key pc) ([Announced (failover_message p ?cause), Deleted (pod_key p) d] @ st) s1 t"
      and st: "case d of Inl _ \<Rightarrow> st = []
        | Inr _ \<Rightarrow> \<exists>x now q. st = [StatusWritten x q] \<and> pc_key x = pc_key pc \<and> cs_LastFailoverTime (pc_Status x) = Some now"
      by blast
    let ?evs = "Probed (ready_url p) answer # [Announced (failover_message p ?cause), Deleted (pod_key p) d] @ st"
    have "effect (pc_key pc) ?evs s t" using effect_trans [OF read eff] by simp
    moreover have "pod_trace (pc_key pc) p ?evs"
      using True False st by (simp add: pod_trace_def ready_url_def) 
    ultimately show ?thesis using key by blast
  qed
qed

lemma checkPods_step:
  "fold (checkPod (recorded_checker H)) ps (pc, s) = (pc', t) \<Longrightarrow>
   \<exists>ess. list_all2 (pod_trace (pc_key pc)) ps ess \<and> effect (pc_key pc) (concat ess) s t"
proof (induction ps arbitrary: pc s)
  case Nil
  then show ?case by (intro exI [of _ "[]"]) (simp add: effect_read)
next
  case (Cons p ps)
  obtain pc1 s1 where one: "checkPod (recorded_checker H) p (pc, s) = (pc1, s1)" by fastforce
  from checkPod_step [OF one] obtain evs where 1: "pc_key pc1 = pc_key pc" "pod_trace (pc_key pc) p evs"
    "effect (pc_key pc) evs s s1" by blast
  from Cons.IH [of pc1 s1] Cons.prems one 1(1) obtain ess where
    2: "list_all2 (pod_trace (pc_key pc)) ps ess" "effect (pc_key pc) (concat ess) s1 t" by auto
  from 1 2 effect_trans [OF 1(3) 2(2)] show ?case by (intro exI [of _ "evs # ess"]) simp
qed

lemma checkCluster_step:
  assumes run: "checkCluster (recorded_checker H) pc s = t"
    and list: "List (Pods (hc_Client H)) (pods_of pc) (rw_World (ext s)) = (r, w)"
  shows "case r of
      Inl _ \<Rightarrow> effect (pc_key pc) [] s t
    | Inr ps \<Rightarrow> \<exists>ess. list_all2 (pod_trace (pc_key pc)) ps ess \<and> effect (pc_key pc) (concat ess) s t"
proof -
  let ?s1 = "s\<lparr>ext := (ext s)\<lparr>rw_World := w\<rparr>\<rparr>"
  have called: "call (silently (List (Pods (hc_Client H)) (pods_of pc))) s = (r, ?s1)"
    using list by (simp add: call_def silently_def)
  have same: "view w = stored s" by (rule pods.list_same [OF list])
  then have read: "effect (pc_key pc) [] s ?s1" by (intro effect_read) simp_all
  show ?thesis
  proof (cases r)
    case (Inl e)
    then show ?thesis using run called read by (auto simp: checkCluster_def pods_of_def)
  next
    case (Inr ps)
    obtain pc' t' where fold: "fold (checkPod (recorded_checker H)) ps (pc, ?s1) = (pc', t')" by fastforce
    then have "t' = t" using run called Inr by (simp add: checkCluster_def pods_of_def)
    with checkPods_step [OF fold] effect_trans [OF read] Inr show ?thesis by fastforce
  qed
qed

end

section \<open>Properties\<close>

lemma asked_pods:
  "list_all2 (pod_trace k) ps ess \<Longrightarrow> set (asked (concat ess)) \<subseteq> pod_key ` set ps"
proof (induction rule: list_all2_induct)
  case (Cons p ps evs ess)
  have "set (asked evs) \<subseteq> {pod_key p}"
  proof (cases "pod_PodIP p = []")
    case False
    then obtain answer rest where evs: "evs = Probed (''http://'' @ pod_PodIP p @ '':9090/-/ready'') answer # rest"
      and rest: "if \<not> down answer then rest = []
         else (\<exists>d st. rest = [Announced (failover_message p (case answer of Inl e \<Rightarrow> Some e | Inr _ \<Rightarrow> None)),
                              Deleted (pod_key p) d] @ st \<and>
           (case d of Inl _ \<Rightarrow> st = []
            | Inr _ \<Rightarrow> \<exists>x now q. st = [StatusWritten x q] \<and> pc_key x = k \<and>
                cs_LastFailoverTime (pc_Status x) = Some now))"
      using Cons.hyps(1) unfolding pod_trace_def by (simp only: if_False) blast
    have "asked st = []" if "case d of Inl _ \<Rightarrow> st = [] | Inr _ \<Rightarrow> \<exists>x now q. st = [StatusWritten x q] \<and> pc_key x = k \<and>
        cs_LastFailoverTime (pc_Status x) = Some now" for d :: "unit result" and st
      using that by (cases d) auto
    then show ?thesis using rest unfolding evs by (cases "down answer") auto
  qed (use Cons.hyps(1) in \<open>simp add: pod_trace_def\<close>)
  with Cons.IH show ?case by auto
qed simp


definition only_pods_and_status :: "store \<Rightarrow> store \<Rightarrow> bool" where
  "only_pods_and_status a b \<longleftrightarrow>
     v_ClusterSets b = v_ClusterSets a \<and> v_StatefulSets b = v_StatefulSets a \<and> v_Services b = v_Services a \<and>
     v_ConfigMaps b = v_ConfigMaps a \<and> v_Namespaces b = v_Namespaces a \<and> specs_kept a b"

lemma only_pods_and_status_refl: "only_pods_and_status a a"
  by (simp add: only_pods_and_status_def)

lemma only_pods_and_status_trans:
  "only_pods_and_status a b \<Longrightarrow> only_pods_and_status b c \<Longrightarrow> only_pods_and_status a c"
  by (auto simp: only_pods_and_status_def intro: specs_kept_trans)

context health_env
begin

lemma checkCluster_kinds: "only_pods_and_status (view (ext s)) (view (ext (checkCluster H pc s)))"
proof -
  let ?t = "checkCluster (recorded_checker H) pc (with_journal s)"
  obtain r w where list: "List (Pods (hc_Client H)) (pods_of pc) (rw_World (ext (with_journal s))) = (r, w)" by fastforce
  obtain evs where "effect (pc_key pc) evs (with_journal s) ?t"
    using checkCluster_step [OF refl list] by (auto split: sum.splits)
  then have "same_except (touched (pc_key pc) evs) (view (ext s)) (view (ext (erased ?t)))"
    and "specs_kept (view (ext s)) (view (ext (erased ?t)))" by (simp_all add: effect_def with_journal_def)
  moreover have "erased ?t = checkCluster H pc s" using erased_checkCluster [of H pc "with_journal s"] by simp
  moreover have "k \<notin> ClusterId ` UNIV \<union> PodId ` UNIV \<Longrightarrow> k \<notin> touched (pc_key pc) evs" for k
    by (auto simp: touched_def split: if_splits)
  ultimately show ?thesis
    by (auto simp: only_pods_and_status_def same_except_def fun_eq_iff)
qed

lemma checkClusters_kinds: "only_pods_and_status (view (ext s)) (view (ext (fold (checkCluster H) pcs s)))"
proof (induction pcs arbitrary: s)
  case (Cons pc pcs)
  then show ?case using only_pods_and_status_trans [OF checkCluster_kinds [of s pc]] by simp
qed (simp add: only_pods_and_status_refl)

lemma checkAll_kinds:
  "checkAll H s = (r, t) \<Longrightarrow> only_pods_and_status (view (ext s)) (view (ext t)) \<and>
     (\<forall>e. r = Inl e \<longrightarrow> view (ext t) = view (ext s) \<and> mets t = mets s)"
proof -
  assume run: "checkAll H s = (r, t)"
  obtain x w where list: "List (Clusters (hc_Client H)) list_all_objects (ext s) = (x, w)"
    by (cases "List (Clusters (hc_Client H)) list_all_objects (ext s)")
  have same: "view w = view (ext s)" by (rule clusters.list_same [OF list])
  show ?thesis
    using run list same checkClusters_kinds [of "s\<lparr>ext := w\<rparr>"]
    by (cases x) (auto simp: checkAll_def attempt_def call_def only_pods_and_status_refl)
qed

lemma run_ticks_kinds: "only_pods_and_status (view (ext s)) (view (ext (run_ticks H n s)))"
proof (induction n arbitrary: s)
  case (Suc n)
  have "only_pods_and_status (view (ext s)) (view (ext (snd (checkAll H s))))"
    using checkAll_kinds [OF prod.collapse [symmetric]] by blast
  from only_pods_and_status_trans [OF this Suc.IH] show ?case by simp
qed (simp add: only_pods_and_status_refl)

end

text \<open>
  However long the health checker runs, it changes nothing but pods and cluster statuses:
  StatefulSets, Services, ConfigMaps, cluster sets and the specs of the clusters stay what
  they were, and no cluster appears or disappears.
\<close>

theorem run_ticks_changes_pods_and_status_only:
  assumes "health_env H view admit"
  shows "v_StatefulSets (view (ext (run_ticks H n s))) = v_StatefulSets (view (ext s)) \<and>
    v_Services (view (ext (run_ticks H n s))) = v_Services (view (ext s)) \<and>
    v_ConfigMaps (view (ext (run_ticks H n s))) = v_ConfigMaps (view (ext s)) \<and>
    v_ClusterSets (view (ext (run_ticks H n s))) = v_ClusterSets (view (ext s)) \<and>
    (\<forall>k. map_option pc_Spec (v_Clusters (view (ext (run_ticks H n s))) k) =
         map_option pc_Spec (v_Clusters (view (ext s)) k))"
  using health_env.run_ticks_kinds [OF assms, of s n]
  unfolding only_pods_and_status_def specs_kept_def by (metis option.map(2))

end
