(* ===== verification/ClusterSetReconciler.thy ===== *)
theory ClusterSetReconciler
  imports ClusterReconciler "HOL-Library.Char_ord" "HOL-Library.List_Lexorder"
    "HOL-Library.Product_Lexorder" "HOL-Library.Multiset"
begin

text \<open>
  The PrometheusClusterSet reconciler (\<open>internal/controller/prometheusclusterset_controller.go\<close>
  and \<open>prometheusclusterset_helpers.go\<close>): it lists the clusters, keeps those the two
  selectors match, overlays the set's backup template on them, and reports the members.

  Parsing a label selector is a library call and a parameter; \<open>nil\<close> selects everything. Go's
  string order is the lexicographic order of bytes, which is HOL's on characters; \<open>sort.Slice\<close>
  by namespace and name is the library's sort on that key.
\<close>

section \<open>The handler\<close>

record selector =
  Matches :: "(string \<rightharpoonup> string) \<Rightarrow> bool"
  Empty :: bool

definition Everything :: selector where
  "Everything = \<lparr>Matches = (\<lambda>_. True), Empty = True\<rparr>"

record 'w set_reconciler =
  set_Client :: "'w client"
  LabelSelectorAsSelector :: "label_selector \<Rightarrow> selector result"

definition OptOutAnnotation :: string where
  "OptOutAnnotation = ''observability.merlionos.org/clusterset-opt-out''"

definition ManagedByAnnotation :: string where
  "ManagedByAnnotation = ''observability.merlionos.org/clusterset''"

definition selectorFor :: "'w set_reconciler \<Rightarrow> label_selector option \<Rightarrow> selector result" where
  "selectorFor R s = (case s of None \<Rightarrow> Inr Everything | Some ls \<Rightarrow> LabelSelectorAsSelector R ls)"

definition allowedNamespaces ::
    "'w set_reconciler \<Rightarrow> selector \<Rightarrow> 'w process \<Rightarrow> string set option result \<times> 'w process" where
  "allowedNamespaces R sel =
     (if Empty sel then (\<lambda>s. (Inr None, s))
      else attempt ''list namespaces'' (call (List (Namespaces (set_Client R)) list_all_objects))
             (\<lambda>nss s. (Inr (Some (set (map (\<lambda>ns. Name (nso_Meta ns))
                (filter (\<lambda>ns. Matches sel (Labels (nso_Meta ns))) nss)))), s)))"

text \<open>\<open>overlayBackup\<close> returns its error and the cluster, which the caller goes on to read.\<close>

definition overlaid :: "prometheus_cluster_set \<Rightarrow> s3_backup_spec \<Rightarrow> prometheus_cluster \<Rightarrow> prometheus_cluster" where
  "overlaid cset template pc =
     pc\<lparr>pc_Meta := (pc_Meta pc)\<lparr>Annotations := (Annotations (pc_Meta pc))(ManagedByAnnotation \<mapsto> Name (set_Meta cset))\<rparr>,
        pc_Spec := (pc_Spec pc)\<lparr>sp_Backup := template\<lparr>bk_Enabled := True\<rparr>\<rparr>\<rparr>"

definition overlayBackup ::
    "'w set_reconciler \<Rightarrow> prometheus_cluster_set \<Rightarrow> prometheus_cluster \<Rightarrow> 'w process \<Rightarrow>
     (go_error option \<times> prometheus_cluster) \<times> 'w process" where
  "overlayBackup R cset pc s =
     (case css_BackupTemplate (set_Spec cset) of
        None \<Rightarrow> ((None, pc), s)
      | Some template \<Rightarrow>
          if Annotations (pc_Meta pc) OptOutAnnotation = Some ''true'' then ((None, pc), s)
          else if bk_Enabled (sp_Backup (pc_Spec pc)) then ((None, pc), s)
          else (case call (Update (Clusters (set_Client R)) (overlaid cset template pc)) s of
                  (Inl e, s) \<Rightarrow> ((Some e, overlaid cset template pc), s)
                | (Inr pc, s) \<Rightarrow> ((None, pc), s)))"

definition selected :: "string set option \<Rightarrow> selector \<Rightarrow> prometheus_cluster \<Rightarrow> bool" where
  "selected allowed sel pc \<longleftrightarrow>
     (case allowed of Some ns \<Rightarrow> Namespace (pc_Meta pc) \<in> ns | None \<Rightarrow> True) \<and>
     Matches sel (Labels (pc_Meta pc))"

definition countPhase :: "cluster_phase \<Rightarrow> (string \<rightharpoonup> int32) \<Rightarrow> (string \<rightharpoonup> int32)" where
  "countPhase phase counts =
     (if phase \<noteq> []
      then counts(phase \<mapsto> (case counts phase of None \<Rightarrow> 0 | Some n \<Rightarrow> n) + 1)
      else counts)"

definition member_of :: "prometheus_cluster \<Rightarrow> set_member" where
  "member_of pc = \<lparr>sm_Namespace = Namespace (pc_Meta pc), sm_Name = Name (pc_Meta pc),
     sm_Phase = cs_Phase (pc_Status pc)\<rparr>"

fun collect_members ::
    "'w set_reconciler \<Rightarrow> prometheus_cluster_set \<Rightarrow> string set option \<Rightarrow> selector \<Rightarrow>
     prometheus_cluster list \<Rightarrow> set_member list \<Rightarrow> (string \<rightharpoonup> int32) \<Rightarrow> 'w process \<Rightarrow>
     (set_member list \<times> (string \<rightharpoonup> int32)) \<times> 'w process" where
  "collect_members R cset allowed sel [] members phaseCount s = ((members, phaseCount), s)"
| "collect_members R cset allowed sel (pc # pcs) members phaseCount s =
     (if \<not> selected allowed sel pc then collect_members R cset allowed sel pcs members phaseCount s
      else (case overlayBackup R cset pc s of
              ((_, pc), s) \<Rightarrow>
                collect_members R cset allowed sel pcs (members @ [member_of pc])
                  (countPhase (cs_Phase (pc_Status pc)) phaseCount) s))"

definition member_key :: "set_member \<Rightarrow> string \<times> string" where
  "member_key m = (sm_Namespace m, sm_Name m)"

definition reportMembers ::
    "'w set_reconciler \<Rightarrow> prometheus_cluster_set \<Rightarrow> set_member list \<Rightarrow> (string \<rightharpoonup> int32) \<Rightarrow>
     'w process \<Rightarrow> ctrl_result result \<times> 'w process" where
  "reportMembers R cset members phaseCount =
     (let members = sort_key member_key members;
          cset = cset\<lparr>set_Status := (set_Status cset)\<lparr>cst_MemberCount := of_nat (length members),
                       cst_Members := members, cst_PhaseCount := phaseCount\<rparr>\<rparr>
      in attempt ''update status'' (call (StatusUpdate (ClusterSets (set_Client R)) cset))
           (\<lambda>_ s. (Inr \<lparr>Requeue = False\<rparr>, s)))"

definition reconcileMembers ::
    "'w set_reconciler \<Rightarrow> prometheus_cluster_set \<Rightarrow> 'w process \<Rightarrow> ctrl_result result \<times> 'w process" where
  "reconcileMembers R cset s =
     (case selectorFor R (css_ClusterSelector (set_Spec cset)) of
        Inl e \<Rightarrow> (Inl (Wrapped ''invalid clusterSelector'' e), s)
      | Inr clusterSel \<Rightarrow>
          (case selectorFor R (css_NamespaceSelector (set_Spec cset)) of
             Inl e \<Rightarrow> (Inl (Wrapped ''invalid namespaceSelector'' e), s)
           | Inr nsSel \<Rightarrow>
               (case allowedNamespaces R nsSel s of
                  (Inl e, s) \<Rightarrow> (Inl e, s)
                | (Inr allowed, s) \<Rightarrow>
                    attempt ''list prometheusclusters'' (call (List (Clusters (set_Client R)) list_all_objects))
                      (\<lambda>pcs s. case collect_members R cset allowed clusterSel pcs [] Map.empty s of
                         ((members, phaseCount), s) \<Rightarrow> reportMembers R cset members phaseCount s) s)))"

definition ReconcileSet ::
    "'w set_reconciler \<Rightarrow> namespaced_name \<Rightarrow> 'w process \<Rightarrow> ctrl_result result \<times> 'w process" where
  "ReconcileSet R req s =
     (case call (Get (ClusterSets (set_Client R)) req) s of
        (Inl e, s) \<Rightarrow>
          if is_not_found e then (Inr \<lparr>Requeue = False\<rparr>, s)
          else (Inl (Wrapped ''get clusterset'' e), s)
      | (Inr cset, s) \<Rightarrow> reconcileMembers R cset s)"

text \<open>The event handler that enqueues every set when any cluster changes.\<close>

definition enqueueAllSets :: "'w set_reconciler \<Rightarrow> 'w process \<Rightarrow> namespaced_name list \<times> 'w process" where
  "enqueueAllSets R s =
     (case call (List (ClusterSets (set_Client R)) list_all_objects) s of
        (Inl _, s) \<Rightarrow> ([], s)
      | (Inr sets, s) \<Rightarrow> (map (\<lambda>cset. ([], Name (set_Meta cset))) sets, s))"

section \<open>What a pass is for\<close>

text \<open>
  Membership, stated on the stored objects, and the clusters the template applies to.
\<close>

definition is_member :: "'w set_reconciler \<Rightarrow> prometheus_cluster_set \<Rightarrow> store \<Rightarrow> prometheus_cluster \<Rightarrow> bool" where
  "is_member R cset st pc \<longleftrightarrow>
     (\<exists>sel. selectorFor R (css_ClusterSelector (set_Spec cset)) = Inr sel \<and> Matches sel (Labels (pc_Meta pc))) \<and>
     (\<exists>sel. selectorFor R (css_NamespaceSelector (set_Spec cset)) = Inr sel \<and>
        (Empty sel \<or> (\<exists>k ns. v_Namespaces st k = Some ns \<and> Name (nso_Meta ns) = Namespace (pc_Meta pc) \<and>
                           Matches sel (Labels (nso_Meta ns)))))"

definition wants_template :: "prometheus_cluster_set \<Rightarrow> prometheus_cluster \<Rightarrow> bool" where
  "wants_template cset pc \<longleftrightarrow>
     css_BackupTemplate (set_Spec cset) \<noteq> None \<and>
     Annotations (pc_Meta pc) OptOutAnnotation \<noteq> Some ''true'' \<and> \<not> bk_Enabled (sp_Backup (pc_Spec pc))"

definition after_overlay :: "prometheus_cluster_set \<Rightarrow> prometheus_cluster \<Rightarrow> prometheus_cluster option \<Rightarrow> bool" where
  "after_overlay cset pc stored \<longleftrightarrow>
     stored = Some pc \<or>
     wants_template cset pc \<and>
     (\<exists>v. stored = Some ((overlaid cset (the (css_BackupTemplate (set_Spec cset))) pc)
        \<lparr>pc_Meta := with_version (pc_Meta (overlaid cset (the (css_BackupTemplate (set_Spec cset))) pc)) v\<rparr>))"

definition set_restated :: "prometheus_cluster_set \<Rightarrow> prometheus_cluster_set option \<Rightarrow> bool" where
  "set_restated cset stored \<longleftrightarrow>
     stored = Some cset \<or> (\<exists>v st. stored = Some (cset\<lparr>set_Meta := with_version (set_Meta cset) v, set_Status := st\<rparr>))"

lemma overlaid_fields [simp]:
  "pc_key (overlaid cset t pc) = pc_key pc" "pc_Status (overlaid cset t pc) = pc_Status pc"
  "same_identity (pc_Meta (overlaid cset t pc)) (pc_Meta pc)"
  "same_but_backup (pc_Spec (overlaid cset t pc)) (pc_Spec pc)"
  "Finalizers (pc_Meta (overlaid cset t pc)) = Finalizers (pc_Meta pc)"
  "sp_Backup (pc_Spec (overlaid cset t pc)) = t\<lparr>bk_Enabled := True\<rparr>"
  by (simp_all add: overlaid_def pc_key_def meta_key_def same_identity_def)

lemma overlaid_status_again: "(overlaid cset t pc)\<lparr>pc_Meta := m, pc_Status := pc_Status pc\<rparr> = (overlaid cset t pc)\<lparr>pc_Meta := m\<rparr>"
  by (simp add: overlaid_def)

text \<open>
  What the reconciler relies on beyond the laws of every client: list calls return what is
  stored, each object once; a status update of a set changes at most its status, and a successful one
  stores it.
\<close>

locale set_env =
  kube_scope "set_Client R" view admit
  for R :: "'w set_reconciler" and view :: "'w \<Rightarrow> store" and admit :: "stateful_set \<Rightarrow> stateful_set" +
  assumes clusters_listed: "List (Clusters (set_Client R)) list_all_objects w = (Inr pcs, w') \<Longrightarrow>
      distinct (map pc_key pcs) \<and> (\<forall>pc. pc \<in> set pcs \<longleftrightarrow> v_Clusters (view w) (pc_key pc) = Some pc)"
    and namespaces_listed: "List (Namespaces (set_Client R)) list_all_objects w = (Inr nss, w') \<Longrightarrow>
      ns \<in> set nss \<longleftrightarrow> v_Namespaces (view w) (nso_key ns) = Some ns"
    and sets_listed: "List (ClusterSets (set_Client R)) list_all_objects w = (Inr csets, w') \<Longrightarrow>
      cset \<in> set csets \<longleftrightarrow> v_ClusterSets (view w) (set_key cset) = Some cset"
    and set_status_atomic: "StatusUpdate (ClusterSets (set_Client R)) x w = (rx, w') \<Longrightarrow>
      v_ClusterSets (view w') (set_key x) = v_ClusterSets (view w) (set_key x) \<or>
      (\<exists>old v. v_ClusterSets (view w) (set_key x) = Some old \<and>
        v_ClusterSets (view w') (set_key x) =
          Some (old\<lparr>set_Meta := with_version (set_Meta old) v, set_Status := set_Status x\<rparr>))"
    and set_status_stored: "StatusUpdate (ClusterSets (set_Client R)) x w = (Inr y, w') \<Longrightarrow>
      \<exists>old v. v_ClusterSets (view w) (set_key x) = Some old \<and>
        v_ClusterSets (view w') (set_key x) =
          Some (old\<lparr>set_Meta := with_version (set_Meta old) v, set_Status := set_Status x\<rparr>)"
begin

lemma overlay_step:
  assumes run: "overlayBackup R cset pc s = ((e, pc'), t)"
    and stored: "v_Clusters (view (ext s)) (pc_key pc) = Some pc"
  shows "member_of pc' = member_of pc \<and> pc_key pc' = pc_key pc \<and>
    same_except (if wants_template cset pc then {ClusterId (pc_key pc)} else {}) (view (ext s)) (view (ext t)) \<and>
    after_overlay cset pc (v_Clusters (view (ext t)) (pc_key pc))"
proof (cases "wants_template cset pc")
  case False
  then show ?thesis
    using run stored by (auto simp: wants_template_def overlayBackup_def after_overlay_def split: option.splits if_splits)
next
  case True
  then obtain template where tm: "css_BackupTemplate (set_Spec cset) = Some template"
    by (auto simp: wants_template_def)
  let ?x = "overlaid cset template pc"
  obtain r w where upd: "Update (Clusters (set_Client R)) ?x (ext s) = (r, w)"
    by (cases "Update (Clusters (set_Client R)) ?x (ext s)")
  have t: "t = s\<lparr>ext := w\<rparr>" and pc': "pc' = (case r of Inl _ \<Rightarrow> ?x | Inr y \<Rightarrow> y)"
    using run True upd tm by (auto simp: wants_template_def overlayBackup_def call_def split: sum.splits)
  have scope: "same_except {ClusterId (pc_key pc)} (view (ext s)) (view w)"
    using clusters.update_scope [OF upd] by simp
  have "after_overlay cset pc (v_Clusters (view w) (pc_key pc))"
    using cluster_update_atomic [OF upd] cluster_update_kept [OF upd] stored True tm
    by (auto simp: after_overlay_def overlaid_status_again)
  moreover have "member_of pc' = member_of pc \<and> pc_key pc' = pc_key pc"
  proof (cases r)
    case (Inl _)
    then show ?thesis by (simp add: pc' member_of_def) (simp add: overlaid_def)
  next
    case (Inr y)
    obtain v where "y = ?x\<lparr>pc_Meta := with_version (pc_Meta ?x) v, pc_Status := pc_Status pc\<rparr>"
      using cluster_update_stored [OF upd [unfolded Inr]] stored by auto
    then have "y = ?x\<lparr>pc_Meta := with_version (pc_Meta ?x) v\<rparr>" by (simp only: overlaid_status_again)
    then show ?thesis by (simp add: pc' Inr member_of_def pc_key_def) (simp add: overlaid_def meta_key_def)
  qed
  ultimately show ?thesis using True scope by (simp add: t)
qed

lemma stored_cluster_key: "v_Clusters (view w) k = Some pc \<Longrightarrow> pc_key pc = k"
  by (rule clusters.stored_key)

lemma overlay_update:
  assumes "Update (Clusters (set_Client R)) (overlaid cset template pc) w = (Inr pc', w')"
    and "v_Clusters (view w) (pc_key pc) = Some pc"
  shows "sp_Backup (pc_Spec pc') = template\<lparr>bk_Enabled := True\<rparr> \<and>
    v_Clusters (view w') (pc_key pc) = Some pc'"
  using cluster_update_stored [OF assms(1)] cluster_update_kept [OF assms(1)] assms(2) by auto

lemma overlay_metrics: "overlayBackup R cset pc s = (r, t) \<Longrightarrow> mets t = mets s \<and> entries t = entries s"
  by (auto simp: overlayBackup_def call_def split: option.splits if_splits prod.splits sum.splits)

definition chosen :: "prometheus_cluster_set \<Rightarrow> string set option \<Rightarrow> selector \<Rightarrow> prometheus_cluster list \<Rightarrow> prometheus_cluster list" where
  "chosen cset allowed sel pcs = filter (\<lambda>pc. selected allowed sel pc \<and> wants_template cset pc) pcs"

lemma collect_step:
  assumes "collect_members R cset allowed sel pcs members counts s = ((members', counts'), t)"
    and "distinct (map pc_key pcs)" and "\<forall>pc \<in> set pcs. v_Clusters (view (ext s)) (pc_key pc) = Some pc"
  shows "members' = members @ map member_of (filter (selected allowed sel) pcs) \<and>
    counts' = fold countPhase (map sm_Phase (map member_of (filter (selected allowed sel) pcs))) counts \<and>
    same_except (ClusterId ` pc_key ` set (chosen cset allowed sel pcs)) (view (ext s)) (view (ext t)) \<and>
    (\<forall>pc \<in> set pcs. after_overlay cset pc (v_Clusters (view (ext t)) (pc_key pc)))"
  using assms
proof (induction pcs arbitrary: members counts s)
  case Nil
  then show ?case by (simp add: chosen_def)
next
  case (Cons pc pcs)
  have stored: "v_Clusters (view (ext s)) (pc_key pc) = Some pc" using Cons.prems(3) by simp
  show ?case
  proof (cases "selected allowed sel pc")
    case False
    then have ih: "members' = members @ map member_of (filter (selected allowed sel) pcs) \<and>
        counts' = fold countPhase (map sm_Phase (map member_of (filter (selected allowed sel) pcs))) counts \<and>
        same_except (ClusterId ` pc_key ` set (chosen cset allowed sel pcs)) (view (ext s)) (view (ext t)) \<and>
        (\<forall>pc \<in> set pcs. after_overlay cset pc (v_Clusters (view (ext t)) (pc_key pc)))"
      using Cons.prems by (intro Cons.IH) simp_all
    have "ClusterId (pc_key pc) \<notin> ClusterId ` pc_key ` set (chosen cset allowed sel pcs)"
      using Cons.prems(2) by (auto simp: chosen_def)
    then have "v_Clusters (view (ext t)) (pc_key pc) = Some pc"
      using ih same_exceptD(1) stored by metis
    then show ?thesis using ih False by (simp add: chosen_def after_overlay_def)
  next
    case True
    obtain e pc' s1 where ov: "overlayBackup R cset pc s = ((e, pc'), s1)"
      by (metis prod.collapse)
    note step = overlay_step [OF ov stored]
    have mem: "member_of pc' = member_of pc" and phase: "cs_Phase (pc_Status pc') = sm_Phase (member_of pc)"
      using step by (auto simp: member_of_def)
    have scope: "same_except (if wants_template cset pc then {ClusterId (pc_key pc)} else {}) (view (ext s)) (view (ext s1))"
      using step by simp
    have others: "v_Clusters (view (ext s1)) (pc_key q) = Some q" if "q \<in> set pcs" for q
    proof -
      have "pc_key pc \<notin> pc_key ` set pcs" using Cons.prems(2) by simp
      then have "pc_key q \<noteq> pc_key pc" using that by (metis imageI)
      then show ?thesis
        using same_exceptD(1) [OF scope, of "pc_key q"] Cons.prems(3) that by (auto split: if_splits)
    qed
    have ih: "members' = (members @ [member_of pc]) @ map member_of (filter (selected allowed sel) pcs) \<and>
        counts' = fold countPhase (map sm_Phase (map member_of (filter (selected allowed sel) pcs)))
          (countPhase (sm_Phase (member_of pc)) counts) \<and>
        same_except (ClusterId ` pc_key ` set (chosen cset allowed sel pcs)) (view (ext s1)) (view (ext t)) \<and>
        (\<forall>pc \<in> set pcs. after_overlay cset pc (v_Clusters (view (ext t)) (pc_key pc)))"
      using Cons.prems True ov mem phase others by (intro Cons.IH) simp_all
    have "ClusterId (pc_key pc) \<notin> ClusterId ` pc_key ` set (chosen cset allowed sel pcs)"
      using Cons.prems(2) by (auto simp: chosen_def)
    then have "v_Clusters (view (ext t)) (pc_key pc) = v_Clusters (view (ext s1)) (pc_key pc)"
      using ih same_exceptD(1) by metis
    moreover have "same_except (ClusterId ` pc_key ` set (chosen cset allowed sel (pc # pcs))) (view (ext s)) (view (ext t))"
      by (rule same_except_trans [of _ _ "view (ext s1)"])
        (use scope ih True in \<open>auto simp: chosen_def elim!: same_except_mono split: if_splits\<close>)
    ultimately show ?thesis using ih step True by simp
  qed
qed

definition overlay_scope :: "namespaced_name \<Rightarrow> prometheus_cluster_set \<Rightarrow> store \<Rightarrow> object_id set" where
  "overlay_scope k cset st = {ClusterSetId k} \<union>
     {ClusterId (pc_key pc) | pc. v_Clusters st (pc_key pc) = Some pc \<and> is_member R cset st pc \<and> wants_template cset pc}"

definition set_status_of :: "set_member list \<Rightarrow> prometheus_cluster_set \<Rightarrow> prometheus_cluster_set \<Rightarrow> bool" where
  "set_status_of ms old new \<longleftrightarrow>
     (\<exists>v. new = old\<lparr>set_Meta := with_version (set_Meta old) v,
        set_Status := (set_Status old)\<lparr>cst_MemberCount := of_nat (length ms), cst_Members := sort_key member_key ms,
          cst_PhaseCount := fold countPhase (map sm_Phase ms) Map.empty\<rparr>\<rparr>)"

lemma reportMembers_step:
  assumes run: "reportMembers R cset ms counts s = (r, t)" and key: "set_key cset = k"
    and stored: "v_ClusterSets (view (ext s)) k = Some cset"
    and counts: "counts = fold countPhase (map sm_Phase ms) Map.empty"
  shows "same_except {ClusterSetId k} (view (ext s)) (view (ext t)) \<and>
    set_restated cset (v_ClusterSets (view (ext t)) k) \<and>
    (\<forall>res. r = Inr res \<longrightarrow> \<not> Requeue res \<and>
       (\<exists>new. v_ClusterSets (view (ext t)) k = Some new \<and> set_status_of ms cset new))"
proof -
  let ?x = "cset\<lparr>set_Status := (set_Status cset)\<lparr>cst_MemberCount := of_nat (length (sort_key member_key ms)),
                       cst_Members := sort_key member_key ms, cst_PhaseCount := counts\<rparr>\<rparr>"
  have xkey: "set_key ?x = k" using key by (simp add: set_key_def)
  obtain y w where upd: "StatusUpdate (ClusterSets (set_Client R)) ?x (ext s) = (y, w)"
    by (cases "StatusUpdate (ClusterSets (set_Client R)) ?x (ext s)")
  have t: "t = s\<lparr>ext := w\<rparr>" and
    r: "r = (case y of Inl e \<Rightarrow> Inl (Wrapped ''update status'' e) | Inr _ \<Rightarrow> Inr \<lparr>Requeue = False\<rparr>)"
    using run upd by (auto simp: reportMembers_def Let_def attempt_def call_def split: sum.splits)
  have "same_except {ClusterSetId k} (view (ext s)) (view w)" using sets.status_scope [OF upd] unfolding xkey .
  moreover have "set_restated cset (v_ClusterSets (view w) k)"
    using set_status_atomic [OF upd] stored unfolding xkey set_restated_def by auto
  moreover have "\<exists>new. v_ClusterSets (view w) k = Some new \<and> set_status_of ms cset new" if y: "y = Inr z" for z
  proof -
    obtain v where "v_ClusterSets (view w) k =
        Some (cset\<lparr>set_Meta := with_version (set_Meta cset) v, set_Status := set_Status ?x\<rparr>)"
      using set_status_stored [OF upd [unfolded y]] stored unfolding xkey by auto
    then show ?thesis by (auto simp: set_status_of_def counts)
  qed
  ultimately show ?thesis by (auto simp: t r split: sum.splits)
qed

lemma allowedNamespaces_step:
  assumes run: "allowedNamespaces R sel s = (r, t)"
  shows "view (ext t) = view (ext s) \<and>
    (\<forall>allowed. r = Inr allowed \<longrightarrow>
       (\<forall>name. (case allowed of Some ns \<Rightarrow> name \<in> ns | None \<Rightarrow> True) \<longleftrightarrow>
          Empty sel \<or> (\<exists>k ns. v_Namespaces (view (ext s)) k = Some ns \<and> Name (nso_Meta ns) = name \<and>
                             Matches sel (Labels (nso_Meta ns)))))"
proof (cases "Empty sel")
  case True
  then show ?thesis using run by (auto simp: allowedNamespaces_def)
next
  case False
  obtain x w where list: "List (Namespaces (set_Client R)) list_all_objects (ext s) = (x, w)"
    by (cases "List (Namespaces (set_Client R)) list_all_objects (ext s)")
  have same: "view w = view (ext s)" by (rule nss.list_same [OF list])
  show ?thesis
  proof (cases x)
    case (Inl e)
    then show ?thesis using run list same False by (auto simp: allowedNamespaces_def attempt_def call_def)
  next
    case (Inr nss)
    have t: "t = s\<lparr>ext := w\<rparr>" and r: "r = Inr (Some (set (map (\<lambda>ns. Name (nso_Meta ns))
        (filter (\<lambda>ns. Matches sel (Labels (nso_Meta ns))) nss))))"
      using run list Inr False by (simp_all add: allowedNamespaces_def attempt_def call_def)
    have "name \<in> set (map (\<lambda>ns. Name (nso_Meta ns)) (filter (\<lambda>ns. Matches sel (Labels (nso_Meta ns))) nss)) \<longleftrightarrow>
        (\<exists>ns \<in> set nss. Name (nso_Meta ns) = name \<and> Matches sel (Labels (nso_Meta ns)))" for name
      by auto
    moreover have "(\<exists>ns \<in> set nss. Name (nso_Meta ns) = name \<and> Matches sel (Labels (nso_Meta ns))) \<longleftrightarrow>
        (\<exists>k ns. v_Namespaces (view (ext s)) k = Some ns \<and> Name (nso_Meta ns) = name \<and>
                Matches sel (Labels (nso_Meta ns)))" for name
      using namespaces_listed [OF list [unfolded Inr]] nss.stored_key by metis
    ultimately show ?thesis using False same unfolding r t by (simp del: set_map set_filter split_paired_Ex)
  qed
qed

lemma reconcileMembers_step:
  assumes run: "reconcileMembers R cset s = (r, t)" and stored: "v_ClusterSets (view (ext s)) k = Some cset"
  shows "same_except (overlay_scope k cset (view (ext s))) (view (ext s)) (view (ext t)) \<and>
    (\<forall>k' pc. v_Clusters (view (ext s)) k' = Some pc \<longrightarrow> after_overlay cset pc (v_Clusters (view (ext t)) k')) \<and>
    set_restated cset (v_ClusterSets (view (ext t)) k) \<and>
    (\<forall>res. r = Inr res \<longrightarrow> \<not> Requeue res \<and>
       (\<exists>pcs new. distinct (map pc_key pcs) \<and>
          (\<forall>pc. pc \<in> set pcs \<longleftrightarrow> v_Clusters (view (ext s)) (pc_key pc) = Some pc \<and> is_member R cset (view (ext s)) pc) \<and>
          v_ClusterSets (view (ext t)) k = Some new \<and> set_status_of (map member_of pcs) cset new))"
proof -
  have key: "set_key cset = k" by (rule sets.stored_key [OF stored])
  have idle: ?thesis if "view (ext t) = view (ext s)" "\<exists>e. r = Inl e"
    using that stored by (auto simp: after_overlay_def set_restated_def)
  show ?thesis
  proof (cases "selectorFor R (css_ClusterSelector (set_Spec cset))")
    case (Inl e)
    then show ?thesis using run by (intro idle) (auto simp: reconcileMembers_def)
  next
    case (Inr csel)
    note csel = Inr
    show ?thesis
    proof (cases "selectorFor R (css_NamespaceSelector (set_Spec cset))")
      case (Inl e)
      then show ?thesis using run csel by (intro idle) (auto simp: reconcileMembers_def)
    next
      case (Inr nsel)
      note nsel = Inr
      obtain a s1 where ns: "allowedNamespaces R nsel s = (a, s1)" by (cases "allowedNamespaces R nsel s")
      note ns_spec = allowedNamespaces_step [OF ns]
      show ?thesis
      proof (cases a)
        case (Inl e)
        then show ?thesis using run csel nsel ns ns_spec by (intro idle) (auto simp: reconcileMembers_def)
      next
        case (Inr allowed)
        obtain x w where list: "List (Clusters (set_Client R)) list_all_objects (ext s1) = (x, w)"
          by (cases "List (Clusters (set_Client R)) list_all_objects (ext s1)")
        have same: "view w = view (ext s)" using clusters.list_same [OF list] ns_spec by simp
        show ?thesis
        proof (cases x)
          case (Inl e)
          then show ?thesis using run csel nsel ns Inr \<open>a = Inr allowed\<close> list same
            by (intro idle) (auto simp: reconcileMembers_def attempt_def call_def)
        next
          case (Inr pcs)
          let ?s2 = "s1\<lparr>ext := w\<rparr>"
          obtain ms counts s3 where col: "collect_members R cset allowed csel pcs [] Map.empty ?s2 = ((ms, counts), s3)"
            by (metis prod.collapse)
          have rep: "reportMembers R cset ms counts s3 = (r, t)"
            using run csel nsel ns \<open>a = Inr allowed\<close> list Inr col
            by (simp add: reconcileMembers_def attempt_def call_def)
          have listed: "distinct (map pc_key pcs)"
            "\<forall>pc. pc \<in> set pcs \<longleftrightarrow> v_Clusters (view (ext s)) (pc_key pc) = Some pc"
            using clusters_listed [OF list [unfolded Inr]] ns_spec by simp_all
          have sel: "selected allowed csel pc \<longleftrightarrow> is_member R cset (view (ext s)) pc" for pc
            using ns_spec \<open>a = Inr allowed\<close> csel nsel by (auto simp: selected_def is_member_def)
          have c: "ms = map member_of (filter (selected allowed csel) pcs) \<and>
              counts = fold countPhase (map sm_Phase ms) Map.empty \<and>
              same_except (ClusterId ` pc_key ` set (chosen cset allowed csel pcs)) (view (ext s)) (view (ext s3)) \<and>
              (\<forall>pc \<in> set pcs. after_overlay cset pc (v_Clusters (view (ext s3)) (pc_key pc)))"
            using collect_step [OF col listed(1)] listed(2) same by simp
          have scope1: "same_except (overlay_scope k cset (view (ext s))) (view (ext s)) (view (ext s3))"
            by (rule same_except_mono [of "ClusterId ` pc_key ` set (chosen cset allowed csel pcs)"])
              (use c listed sel in \<open>auto simp: overlay_scope_def chosen_def\<close>)
          have "v_ClusterSets (view (ext s3)) k = v_ClusterSets (view (ext s)) k"
            using same_exceptD(6) [OF conjunct1 [OF conjunct2 [OF conjunct2 [OF c]]], of k] by auto
          with stored have st3: "v_ClusterSets (view (ext s3)) k = Some cset" by simp
          note fin = reportMembers_step [OF rep key st3 conjunct1 [OF conjunct2 [OF c]]]
          have "same_except (overlay_scope k cset (view (ext s))) (view (ext s3)) (view (ext t))"
            by (rule same_except_mono [of "{ClusterSetId k}"]) (use fin in \<open>auto simp: overlay_scope_def\<close>)
          with scope1 have scope: "same_except (overlay_scope k cset (view (ext s))) (view (ext s)) (view (ext t))"
            by (rule same_except_trans)
          have clus: "v_Clusters (view (ext t)) k' = v_Clusters (view (ext s3)) k'" for k'
            using fin same_exceptD(1) [of "{ClusterSetId k}" "view (ext s3)" "view (ext t)" k'] by simp
          have overlaid: "after_overlay cset pc (v_Clusters (view (ext t)) k')"
            if "v_Clusters (view (ext s)) k' = Some pc" for k' pc
          proof -
            have "pc_key pc = k'" by (rule clusters.stored_key [OF that])
            moreover from this that have "pc \<in> set pcs" using listed(2) by simp
            ultimately show ?thesis using c clus by auto
          qed
          let ?ms = "filter (selected allowed csel) pcs"
          have "distinct (map pc_key ?ms)" using listed(1) by (simp add: distinct_map_filter)
          moreover have "\<forall>pc. pc \<in> set ?ms \<longleftrightarrow>
              v_Clusters (view (ext s)) (pc_key pc) = Some pc \<and> is_member R cset (view (ext s)) pc"
            using listed(2) sel by auto
          ultimately show ?thesis using scope overlaid fin c by blast
        qed
      qed
    qed
  qed
qed

lemma ReconcileSet_found:
  assumes "Get (ClusterSets (set_Client R)) k (ext s) = (Inr cset, w)" and "ReconcileSet R k s = (r, t)"
  shows "reconcileMembers R cset (s\<lparr>ext := w\<rparr>) = (r, t) \<and> view w = view (ext s) \<and>
    v_ClusterSets (view (ext s)) k = Some cset"
  using assms sets.get_same [OF assms(1)] sets.get_stored [OF assms(1)] by (simp add: ReconcileSet_def)

lemma ReconcileSet_missing:
  assumes "Get (ClusterSets (set_Client R)) k (ext s) = (Inl e, w)" and "ReconcileSet R k s = (r, t)"
  shows "view (ext t) = view (ext s)"
  using assms sets.get_same [OF assms(1)] by (auto simp: ReconcileSet_def split: if_splits)

lemma ReconcileSet_backed_up:
  assumes run: "ReconcileSet R k s = (r, t)" and stored: "v_Clusters (view (ext s)) k' = Some pc"
    and on: "bk_Enabled (sp_Backup (pc_Spec pc))"
  shows "v_Clusters (view (ext t)) k' = Some pc"
proof -
  obtain x w where get: "Get (ClusterSets (set_Client R)) k (ext s) = (x, w)" by fastforce
  show ?thesis
  proof (cases x)
    case (Inl e)
    with ReconcileSet_missing [OF get [unfolded Inl] run] stored show ?thesis by simp
  next
    case (Inr cset)
    note found = ReconcileSet_found [OF get [unfolded Inr] run]
    have "v_ClusterSets (view (ext (s\<lparr>ext := w\<rparr>))) k = Some cset" using found by simp
    from reconcileMembers_step [OF conjunct1 [OF found] this] found stored
    have "after_overlay cset pc (v_Clusters (view (ext t)) k')" by (simp del: split_paired_All)
    with on show ?thesis by (simp add: after_overlay_def wants_template_def)
  qed
qed

end

lemma fold_countPhase:
  "fold countPhase ps m p =
     (if p = [] \<or> p \<notin> set ps then m p
      else Some ((case m p of None \<Rightarrow> 0 | Some n \<Rightarrow> n) + of_nat (count_list ps p)))"
  by (induction ps arbitrary: m) (auto simp: countPhase_def)

lemma count_list_filter: "count_list (map f xs) y = length (filter (\<lambda>x. f x = y) xs)"
  by (induction xs) auto

lemma length_filter_sort: "length (filter P (sort_key f xs)) = length (filter P xs)"
  by (metis mset_filter mset_sort size_mset)

lemma member_key_of [simp]: "member_key (member_of pc) = pc_key pc"
  by (simp add: member_key_def member_of_def pc_key_def meta_key_def)

section \<open>Properties\<close>

text \<open>
  C16: a successful pass over a set reports exactly its members. The stored status lists, sorted
  by namespace and name and each once, the clusters that both selectors match with the
  phase each had, gives their number, and counts per non-empty phase (as 32-bit numbers)
  those in it; the set's spec is unchanged.
\<close>

theorem ReconcileSet_reports_members:
  assumes "set_env R view admit" and "Get (ClusterSets (set_Client R)) k (ext s) = (Inr cset, w)"
    and "ReconcileSet R k s = (Inr res, t)"
  shows "\<not> Requeue res \<and> (\<exists>new ms.
    v_ClusterSets (view (ext t)) k = Some new \<and> set_Spec new = set_Spec cset \<and>
    cst_Members (set_Status new) = ms \<and> sorted (map member_key ms) \<and> distinct (map member_key ms) \<and>
    (\<forall>m. m \<in> set ms \<longleftrightarrow> (\<exists>pc. v_Clusters (view (ext s)) (member_key m) = Some pc \<and>
       is_member R cset (view (ext s)) pc \<and> m = member_of pc)) \<and>
    cst_MemberCount (set_Status new) = of_nat (length ms) \<and>
    (\<forall>phase. cst_PhaseCount (set_Status new) phase =
       (if phase = [] \<or> phase \<notin> sm_Phase ` set ms then None
        else Some (of_nat (length (filter (\<lambda>m. sm_Phase m = phase) ms))))))"
proof -
  note E = assms(1)
  note found = set_env.ReconcileSet_found [OF E assms(2,3)]
  have "v_ClusterSets (view (ext (s\<lparr>ext := w\<rparr>))) k = Some cset" using found by simp
  note step = set_env.reconcileMembers_step [OF E conjunct1 [OF found] this]
  then obtain pcs new where nr: "\<not> Requeue res" and dist: "distinct (map pc_key pcs)"
    and pcs: "\<And>pc. pc \<in> set pcs \<longleftrightarrow>
      v_Clusters (view (ext s)) (pc_key pc) = Some pc \<and> is_member R cset (view (ext s)) pc"
    and new: "v_ClusterSets (view (ext t)) k = Some new" "set_env.set_status_of (map member_of pcs) cset new"
    using found by auto
  let ?ms = "sort_key member_key (map member_of pcs)"
  have status: "set_Spec new = set_Spec cset" "cst_Members (set_Status new) = ?ms"
    "cst_MemberCount (set_Status new) = of_nat (length ?ms)"
    "cst_PhaseCount (set_Status new) = fold countPhase (map sm_Phase (map member_of pcs)) Map.empty"
    using new(2) by (auto simp: set_env.set_status_of_def [OF E])
  have keys: "map member_key (map member_of pcs) = map pc_key pcs" by simp
  have "mset (map member_key ?ms) = mset (map pc_key pcs)"
    by (metis keys mset_map mset_sort)
  then have "distinct (map member_key ?ms)" using dist by (metis mset_eq_imp_distinct_iff)
  moreover have "m \<in> set ?ms \<longleftrightarrow> (\<exists>pc. v_Clusters (view (ext s)) (member_key m) = Some pc \<and>
       is_member R cset (view (ext s)) pc \<and> m = member_of pc)" for m
    using pcs set_env.stored_cluster_key [OF E] by (auto simp: image_iff)
  moreover have "cst_PhaseCount (set_Status new) phase =
       (if phase = [] \<or> phase \<notin> sm_Phase ` set ?ms then None
        else Some (of_nat (length (filter (\<lambda>m. sm_Phase m = phase) ?ms))))" for phase
    by (simp add: status(4) fold_countPhase count_list_filter length_filter_sort image_image
        del: map_map) 
  ultimately show ?thesis using nr new(1) status(1-3) by auto
qed

text \<open>
  C8: the overlay reaches only the members that may have it. Whatever the outcome of a pass, the
  only objects that change are the set, in its status at most, and those member clusters that the
  set has a template for, that did not opt out and whose own backup is off. Every cluster stays
  stored: as it was, or, if it is such a member, with the template's backup, enabled, and the
  annotation naming the set, and nothing else of its metadata, spec or status changed.
\<close>

theorem ReconcileSet_overlay_scope:
  assumes "set_env R view admit" and "Get (ClusterSets (set_Client R)) k (ext s) = (Inr cset, w)"
    and "ReconcileSet R k s = (r, t)"
  shows "same_except ({ClusterSetId k} \<union>
      {ClusterId (pc_key pc) | pc. v_Clusters (view (ext s)) (pc_key pc) = Some pc \<and>
         is_member R cset (view (ext s)) pc \<and> wants_template cset pc}) (view (ext s)) (view (ext t)) \<and>
    (v_ClusterSets (view (ext t)) k = Some cset \<or>
     (\<exists>v st. v_ClusterSets (view (ext t)) k = Some (cset\<lparr>set_Meta := with_version (set_Meta cset) v, set_Status := st\<rparr>))) \<and>
    (\<forall>k' pc. v_Clusters (view (ext s)) k' = Some pc \<longrightarrow>
       v_Clusters (view (ext t)) k' = Some pc \<or>
       wants_template cset pc \<and> (\<exists>template v.
         css_BackupTemplate (set_Spec cset) = Some template \<and>
         v_Clusters (view (ext t)) k' = Some (pc
           \<lparr>pc_Spec := (pc_Spec pc)\<lparr>sp_Backup := template\<lparr>bk_Enabled := True\<rparr>\<rparr>,
            pc_Meta := with_version ((pc_Meta pc)\<lparr>Annotations :=
               (Annotations (pc_Meta pc))(ManagedByAnnotation \<mapsto> Name (set_Meta cset))\<rparr>) v\<rparr>)))"
proof -
  note E = assms(1)
  note found = set_env.ReconcileSet_found [OF E assms(2,3)]
  have "v_ClusterSets (view (ext (s\<lparr>ext := w\<rparr>))) k = Some cset" using found by simp
  note step = set_env.reconcileMembers_step [OF E conjunct1 [OF found] this]
  have overlay: "v_Clusters (view (ext t)) k' = Some pc \<or>
       wants_template cset pc \<and> (\<exists>template v.
         css_BackupTemplate (set_Spec cset) = Some template \<and>
         v_Clusters (view (ext t)) k' = Some (pc
           \<lparr>pc_Spec := (pc_Spec pc)\<lparr>sp_Backup := template\<lparr>bk_Enabled := True\<rparr>\<rparr>,
            pc_Meta := with_version ((pc_Meta pc)\<lparr>Annotations :=
               (Annotations (pc_Meta pc))(ManagedByAnnotation \<mapsto> Name (set_Meta cset))\<rparr>) v\<rparr>))"
    if "v_Clusters (view (ext s)) k' = Some pc" for k' pc
  proof -
    have "after_overlay cset pc (v_Clusters (view (ext t)) k')"
      using step found that by (simp del: split_paired_All)
    then show ?thesis by (auto simp: after_overlay_def overlaid_def wants_template_def)
  qed
  have "same_except (set_env.overlay_scope R k cset (view (ext s))) (view (ext s)) (view (ext t))"
    "set_restated cset (v_ClusterSets (view (ext t)) k)"
    using step found by simp_all
  then show ?thesis
    unfolding set_env.overlay_scope_def [OF E] set_restated_def using overlay by blast
qed

text \<open>
  C17: an overlay is wholesale, and no pass takes it back. A successful overlay stores the member
  with its whole backup section replaced by the template, switched on, the fields the member had
  set included. From then on, as long as nobody else switches that member's backup off, no pass of
  this or any other set, with whatever template that set has by then and however it ends, changes
  the stored member, in any state the server may have come to.
\<close>

theorem overlay_is_wholesale_and_final:
  assumes "set_env R view admit" and "v_Clusters (view (ext s)) (pc_key pc) = Some pc"
    and "css_BackupTemplate (set_Spec cset) = Some template" and "wants_template cset pc"
    and "overlayBackup R cset pc s = ((None, pc'), t)"
  shows "v_Clusters (view (ext t)) (pc_key pc) = Some pc' \<and> sp_Backup (pc_Spec pc') = template\<lparr>bk_Enabled := True\<rparr> \<and>
    (\<forall>k u r u' later. ReconcileSet R k u = (r, u') \<longrightarrow> v_Clusters (view (ext u)) (pc_key pc) = Some later \<longrightarrow>
       bk_Enabled (sp_Backup (pc_Spec later)) \<longrightarrow> v_Clusters (view (ext u')) (pc_key pc) = Some later)"
proof -
  note E = assms(1)
  obtain w where upd: "Update (Clusters (set_Client R)) (overlaid cset template pc) (ext s) = (Inr pc', w)"
    and t: "t = s\<lparr>ext := w\<rparr>"
    using assms(3-5) by (auto simp: overlayBackup_def wants_template_def call_def split: prod.splits sum.splits)
  have "v_Clusters (view (ext u')) (pc_key pc) = Some later"
    if "ReconcileSet R k u = (r, u')" "v_Clusters (view (ext u)) (pc_key pc) = Some later"
      "bk_Enabled (sp_Backup (pc_Spec later))" for k u r u' later
    using set_env.ReconcileSet_backed_up [OF E] that by blast
  with set_env.overlay_update [OF E upd assms(2)] show ?thesis
    by (simp add: t del: split_paired_All)
qed

text \<open>
  Any change of a cluster wakes every set: the requests the event handler returns name
  exactly the stored sets, unless listing them fails.
\<close>

theorem enqueueAllSets_complete:
  assumes "set_env R view admit" and "enqueueAllSets R s = (reqs, t)"
    and "List (ClusterSets (set_Client R)) list_all_objects (ext s) = (Inr csets, w)"
  shows "set reqs = {([], Name (set_Meta cset)) | cset. v_ClusterSets (view (ext s)) (set_key cset) = Some cset}"
proof -
  have "set reqs = (\<lambda>cset. ([], Name (set_Meta cset))) ` set csets"
    using assms(2,3) by (auto simp: enqueueAllSets_def call_def)
  also have "set csets = {cset. v_ClusterSets (view (ext s)) (set_key cset) = Some cset}"
    using set_env.sets_listed [OF assms(1,3)] by blast
  finally show ?thesis by blast
qed

end
