(* ===== verification/ClusterGuarantees.thy ===== *)
theory ClusterGuarantees
  imports ClusterReconciler
begin

text \<open>
  What a pass of \<open>PrometheusClusterReconciler.Reconcile\<close> guarantees: what it may change, what
  holds when it succeeds, that it succeeds on an idle API server, and how it starts and ends
  the life of a cluster. The lemmas are proved in the locale \<open>cluster_reconcile\<close>; the
  properties state them over the laws of the API server and of the helpers.
\<close>

section \<open>The cluster object under a reconcile\<close>

definition status_only :: "prometheus_cluster \<Rightarrow> prometheus_cluster \<Rightarrow> bool" where
  "status_only pc pc' \<longleftrightarrow>
     pc_Spec pc' = pc_Spec pc \<and>
     (\<exists>phase ready. pc_Status pc' = (pc_Status pc)\<lparr>cs_Phase := phase, cs_ReadyReplicas := ready\<rparr> \<and>
        phase \<in> {cs_Phase (pc_Status pc), PhaseProvisioning, PhaseActive, PhaseScaling})"

definition cluster_as :: "('w \<Rightarrow> store) \<Rightarrow> prometheus_cluster \<Rightarrow> 'w process \<Rightarrow> bool" where
  "cluster_as view pc s \<longleftrightarrow>
     (\<forall>pc'. v_Clusters (view (ext s)) (pc_key pc) = Some pc' \<longrightarrow> status_only pc pc')"

definition keeps_status_only :: "('w \<Rightarrow> store) \<Rightarrow> prometheus_cluster \<Rightarrow> 'w process \<Rightarrow> 'w process \<Rightarrow> bool" where
  "keeps_status_only view pc s t \<longleftrightarrow>
     (cluster_as view pc s \<longrightarrow> cluster_as view pc t)"

lemma status_onlyI: "pc_Spec pc' = pc_Spec pc \<Longrightarrow> pc_Status pc' = pc_Status pc \<Longrightarrow> status_only pc pc'"
proof -
  assume eq: "pc_Spec pc' = pc_Spec pc" "pc_Status pc' = pc_Status pc"
  have "pc_Status pc = (pc_Status pc)\<lparr>cs_Phase := cs_Phase (pc_Status pc), cs_ReadyReplicas := cs_ReadyReplicas (pc_Status pc)\<rparr>"
    by simp
  then show ?thesis unfolding status_only_def eq by blast
qed

lemma status_only_refl [simp]: "status_only pc pc"
  by (rule status_onlyI) simp_all

lemma keeps_status_only_refl [simp]: "reflp (keeps_status_only view pc)"
  by (simp add: reflp_def keeps_status_only_def)

lemma keeps_status_only_trans [simp]: "transp (keeps_status_only view pc)"
  by (simp add: transp_def keeps_status_only_def)

lemma phaseFor_range: "phaseFor b ready n \<in> {PhaseProvisioning, PhaseActive, PhaseScaling}"
  by (simp add: phaseFor_def)

context cluster_reconcile
begin

lemma keeps_status_only_confined:
  "keeps (confined view X) op \<Longrightarrow> ClusterId (pc_key pc) \<notin> X \<Longrightarrow> keeps (keeps_status_only view pc) op"
proof (unfold keeps_def, rule allI)
  fix s
  assume "\<forall>s. confined view X s (snd (op s))" and "ClusterId (pc_key pc) \<notin> X"
  then have "v_Clusters (view (ext (snd (op s)))) (pc_key pc) = v_Clusters (view (ext s)) (pc_key pc)"
    by (auto simp: confined_def intro: same_exceptD(1))
  then show "keeps_status_only view pc s (snd (op s))" by (simp add: keeps_status_only_def cluster_as_def)
qed

lemma status_updatePhase:
  assumes "phase \<in> {PhaseProvisioning, PhaseActive, PhaseScaling}"
  shows "keeps (keeps_status_only view pc) (updatePhase R pc phase ready)"
  unfolding updatePhase_def Let_def
proof (rule keeps_attempt)
  let ?pc = "pc\<lparr>pc_Status := (pc_Status pc)\<lparr>cs_Phase := phase, cs_ReadyReplicas := ready\<rparr>\<rparr>"
  show "keeps (keeps_status_only view pc) (call (StatusUpdate (Clusters (Client R)) ?pc))"
  proof (rule keepsI, elim callE)
    fix s t :: "'w process" and r w
    assume run: "StatusUpdate (Clusters (Client R)) ?pc (ext s) = (r, w)" and t: "t = s\<lparr>ext := w\<rparr>"
    have key: "pc_key ?pc = pc_key pc" by (simp add: pc_key_def)
    from cluster_status_atomic [OF run] show "keeps_status_only view pc s t"
      unfolding key
    proof (elim disjE exE conjE)
      assume "v_Clusters (view w) (pc_key pc) = v_Clusters (view (ext s)) (pc_key pc)"
      then show ?thesis by (simp add: keeps_status_only_def cluster_as_def t)
    next
      fix old v
      assume "v_Clusters (view (ext s)) (pc_key pc) = Some old"
        and "v_Clusters (view w) (pc_key pc) =
          Some (old\<lparr>pc_Meta := with_version (pc_Meta old) v, pc_Status := pc_Status ?pc\<rparr>)"
      then show ?thesis using assms by (auto simp: keeps_status_only_def cluster_as_def status_only_def t)
    qed
  qed
  show "keeps (keeps_status_only view pc) (\<lambda>s. (Inr \<lparr>Requeue = False\<rparr>,
      s\<lparr>mets := SetPhase (Namespace (pc_Meta a)) (Name (pc_Meta a)) phase (mets s)\<rparr>))" for a
    by (rule keepsI) (auto simp: keeps_status_only_def cluster_as_def)
qed simp

lemma status_createStatefulSet:
  assumes "sts_key desired = pc_key pc"
  shows "keeps (keeps_status_only view pc) (createStatefulSet L R pc desired)"
proof (cases "SetControllerReference L pc (sts_Meta desired)")
  case (Inr m)
  then have key: "sts_key (desired\<lparr>sts_Meta := m\<rparr>) = pc_key pc"
    using owner_key assms by (simp add: sts_key_def)
  show ?thesis
    unfolding createStatefulSet_def Inr sum.case
    by (intro keeps_attempt status_updatePhase keeps_status_only_confined [OF stss.keeps_create [of _ "{StatefulSetId (pc_key pc)}"]])
      (simp_all add: key)
qed (simp add: createStatefulSet_def keeps_return)

lemma status_updateStatefulSet:
  assumes "sts_key current = pc_key pc"
  shows "keeps (keeps_status_only view pc) (updateStatefulSet L R pc desired current)"
proof (cases "sts_Replicas current")
  case (Some n)
  have key: "sts_key (current\<lparr>sts_Replicas := r, sts_Template := t\<rparr>) = pc_key pc" for r t
    using assms by (simp add: sts_key_def)
  show ?thesis
    unfolding updateStatefulSet_def Some option.case Let_def
    by (intro keeps_if keeps_attempt status_updatePhase phaseFor_range
        keeps_status_only_confined [OF stss.keeps_update [of _ "{StatefulSetId (pc_key pc)}"]]) (simp_all add: key)
qed (simp add: updateStatefulSet_def keeps_return)

lemma status_reconcileStatefulSet: "keeps (keeps_status_only view pc) (reconcileStatefulSet L R pc)"
proof (rule keepsI)
  fix s r t
  assume run: "reconcileStatefulSet L R pc s = (r, t)"
  let ?d = "buildStatefulSet (Quantities L) pc" and ?P = "keeps_status_only view pc"
  obtain x w where get: "Get (StatefulSets (Client R)) (sts_key ?d) (ext s) = (x, w)"
    by (cases "Get (StatefulSets (Client R)) (sts_key ?d) (ext s)")
  let ?s = "s\<lparr>ext := w\<rparr>"
  have "?P s ?s" using stss.get_same [OF get] by (simp add: keeps_status_only_def cluster_as_def)
  moreover have "?P ?s t"
  proof (cases x)
    case (Inl e)
    with run get show ?thesis
      using keepsD [OF status_createStatefulSet [of ?d pc], of ?s r t]
      by (auto simp: reconcileStatefulSet_def Let_def reflpD [OF keeps_status_only_refl] split: if_splits)
  next
    case (Inr current)
    then have "sts_key current = pc_key pc" using stss.get_key get by simp
    with run get Inr show ?thesis
      using keepsD [OF status_updateStatefulSet [of current pc ?d], of ?s r t]
      by (simp add: reconcileStatefulSet_def Let_def)
  qed
  ultimately show "?P s t" by (rule transpD [OF keeps_status_only_trans])
qed

lemma status_reconcileChildren: "keeps (keeps_status_only view pc) (reconcileChildren L R pc)"
  unfolding reconcileChildren_def
  by (intro keeps_attempt status_reconcileStatefulSet keeps_status_only_confined [OF keeps_registerBackup [of "{}"]]
      keeps_status_only_confined [OF keeps_reconcileConfigMap [of pc "{ConfigMapId (Namespace (pc_Meta pc), configMapName pc)}"]]
      keeps_status_only_confined [OF keeps_reconcileHeadlessService [of pc "{ServiceId (pc_key pc)}"]])
    simp_all

lemma status_update_cluster:
  assumes upd: "Update (Clusters (Client R)) x w = (r, w')" and stored: "v_Clusters (view w) (pc_key pc) = Some pc"
    and x: "pc_key x = pc_key pc" "same_identity (pc_Meta x) (pc_Meta pc)" "pc_Spec x = pc_Spec pc"
    and after: "v_Clusters (view w') (pc_key pc) = Some pc'"
  shows "status_only pc pc'"
  using cluster_update_atomic [OF upd] stored x after by (auto intro!: status_onlyI)

lemma Reconcile_status_only:
  assumes stored: "v_Clusters (view (ext s)) k = Some pc" and run: "Reconcile L R k s = (r, t)"
    and after: "v_Clusters (view (ext t)) k = Some pc'"
  shows "status_only pc pc'"
proof -
  obtain x w where get: "Get (Clusters (Client R)) k (ext s) = (x, w)"
    by (cases "Get (Clusters (Client R)) k (ext s)")
  let ?s = "s\<lparr>ext := w\<rparr>"
  have same: "view w = view (ext s)" by (rule clusters.get_same [OF get])
  have key: "pc_key pc = k" by (rule clusters.stored_key [OF stored])
  have w: "v_Clusters (view w) (pc_key pc) = Some pc" by (simp add: same stored key)
  show ?thesis
  proof (cases x)
    case (Inl e)
    with run get have "t = ?s" by (simp add: Reconcile_def split: if_splits)
    with after stored same show ?thesis by simp
  next
    case (Inr y)
    have y: "y = pc" using clusters.get_stored [OF get [unfolded Inr]] stored by (simp add: same)
    consider (del) "finalize L R pc ?s = (r, t)"
      | (add) "attempt ''add finalizer'' (call (Update (Clusters (Client R)) (AddFinalizer L pc finalizerName)))
              (\<lambda>_ s. (Inr \<lparr>Requeue = True\<rparr>, s)) ?s = (r, t)"
      | (go) "reconcileChildren L R pc ?s = (r, t)"
      using run get Inr y by (auto simp: Reconcile_def split: if_splits)
    then show ?thesis
    proof cases
      case del
      then consider "t = ?s"
        | rr where "Update (Clusters (Client R)) (RemoveFinalizer L pc finalizerName) w = (rr, ext t)"
        by (auto simp: finalize_def attempt_def call_def split: if_splits prod.splits sum.splits)
      then show ?thesis
        using w after status_update_cluster [OF _ w]
        by cases (auto simp: key remove_key finalizer_update_fields)
    next
      case add
      then obtain rr where "Update (Clusters (Client R)) (AddFinalizer L pc finalizerName) w = (rr, ext t)"
        by (auto simp: attempt_def call_def split: prod.splits sum.splits)
      from status_update_cluster [OF this w] after show ?thesis
        by (simp add: key add_key finalizer_update_fields)
    next
      case go
      from keepsD [OF status_reconcileChildren go] w after key show ?thesis
        by (simp add: keeps_status_only_def cluster_as_def)
    qed
  qed
qed

end

section \<open>Deletion\<close>

text \<open>
  What the deletion of a cluster does to the metrics: no phase, backup or failover series of it is
  left, the series of other clusters and the audit metrics are as they were.
\<close>

definition series_removed :: "namespaced_name \<Rightarrow> metrics \<Rightarrow> metrics \<Rightarrow> bool" where
  "series_removed k m m' \<longleftrightarrow>
     (\<forall>p. ClusterPhase m' (fst k, snd k, p) = None) \<and> (\<forall>res. BackupTotal m' (fst k, snd k, res) = None) \<and>
     FailoverTotal m' k = None \<and>
     (\<forall>ns c x. (ns, c) \<noteq> k \<longrightarrow> ClusterPhase m' (ns, c, x) = ClusterPhase m (ns, c, x) \<and>
        BackupTotal m' (ns, c, x) = BackupTotal m (ns, c, x) \<and> FailoverTotal m' (ns, c) = FailoverTotal m (ns, c)) \<and>
     AuditRecordTotal m' = AuditRecordTotal m \<and> AuditPruneTotal m' = AuditPruneTotal m \<and> AuditRows m' = AuditRows m"

lemma DeleteCluster_removes: "(ns, name) = k \<Longrightarrow> series_removed k m (DeleteCluster ns name m)"
  by (auto simp: series_removed_def DeleteCluster_def)

definition only_finalizers_differ :: "prometheus_cluster \<Rightarrow> prometheus_cluster \<Rightarrow> bool" where
  "only_finalizers_differ pc pc' \<longleftrightarrow> same_identity (pc_Meta pc') (pc_Meta pc) \<and>
     pc_Spec pc' = pc_Spec pc \<and> pc_Status pc' = pc_Status pc"

context cluster_reconcile
begin

lemma finalize_pass:
  assumes get: "Get (Clusters (Client R)) k (ext s) = (Inr pc, w)"
    and del: "DeletionTimestamp (pc_Meta pc) \<noteq> None"
    and run: "Reconcile L R k s = (r, t)"
  shows "if ContainsFinalizer L pc finalizerName
    then same_except {ClusterId k} (view (ext s)) (view (ext t)) \<and>
      (\<forall>pc'. v_Clusters (view (ext t)) k = Some pc' \<longrightarrow> only_finalizers_differ pc pc') \<and>
      (case r of Inl e \<Rightarrow> mets t = mets s
       | Inr res \<Rightarrow> \<not> Requeue res \<and> series_removed k (mets s) (mets t) \<and>
           (\<forall>pc'. v_Clusters (view (ext t)) k = Some pc' \<longrightarrow> \<not> ContainsFinalizer L pc' finalizerName))
    else r = Inr \<lparr>Requeue = False\<rparr> \<and> view (ext t) = view (ext s) \<and> mets t = mets s"
proof -
  let ?s = "s\<lparr>ext := w\<rparr>" and ?x = "RemoveFinalizer L pc finalizerName"
  have same: "view w = view (ext s)" by (rule clusters.get_same [OF get])
  have key: "pc_key pc = k" by (rule clusters.get_key [OF get])
  have stored: "v_Clusters (view w) k = Some pc" using clusters.get_stored [OF get] by (simp add: same)
  have fin: "finalize L R pc ?s = (r, t)" using run get del by (simp add: Reconcile_def)
  show ?thesis
  proof (cases "ContainsFinalizer L pc finalizerName")
    case False
    with fin same show ?thesis by (auto simp: finalize_def)
  next
    case True
    obtain y w' where upd: "Update (Clusters (Client R)) ?x w = (y, w')"
      by (cases "Update (Clusters (Client R)) ?x w")
    have scope: "same_except {ClusterId k} (view (ext s)) (view w')"
      using clusters.update_scope [OF upd] by (simp add: remove_key key same)
    have "v_Clusters (view w') k \<in> {Some pc, None} \<or>
        (\<exists>v. v_Clusters (view w') k = Some (?x\<lparr>pc_Meta := with_version (pc_Meta ?x) v, pc_Status := pc_Status pc\<rparr>))"
      using cluster_update_atomic [OF upd] stored key by (simp add: finalizer_update_fields remove_key)
    then have only: "\<forall>pc'. v_Clusters (view w') k = Some pc' \<longrightarrow> only_finalizers_differ pc pc'"
      using finalizer_update_fields(6) [of pc finalizerName]
      by (auto simp: only_finalizers_differ_def finalizer_update_fields same_identity_def)
    show ?thesis
    proof (cases y)
      case (Inl e)
      with fin True upd scope only show ?thesis by (auto simp: finalize_def)
    next
      case (Inr new)
      obtain v where new: "new = ?x\<lparr>pc_Meta := with_version (pc_Meta ?x) v, pc_Status := pc_Status pc\<rparr>"
        and after: "v_Clusters (view w') k \<in> {None, Some new}"
        using cluster_update_stored [OF upd [unfolded Inr]] stored key
        by (auto simp: finalizer_update_fields remove_key)
      have "ContainsFinalizer L new finalizerName = ContainsFinalizer L ?x finalizerName"
        by (rule contains_meta) (simp add: new)
      then have "\<not> ContainsFinalizer L new finalizerName" by (simp add: contains_remove)
      moreover have "(Namespace (pc_Meta new), Name (pc_Meta new)) = k"
        using finalizer_update_fields(6) [of pc finalizerName] key
        by (simp add: new same_identity_def meta_key_def pc_key_def)
      ultimately show ?thesis
        using fin True upd Inr scope after only by (auto simp: finalize_def DeleteCluster_removes)
    qed
  qed
qed

end

section \<open>On an idle API server\<close>

definition adoptable :: "reconcile_lib \<Rightarrow> prometheus_cluster \<Rightarrow> store \<Rightarrow> bool" where
  "adoptable L pc st \<longleftrightarrow>
     (\<forall>cm. v_ConfigMaps st (Namespace (pc_Meta pc), configMapName pc) = Some cm \<longrightarrow>
        controlled L pc (cm_Meta cm)) \<and>
     (\<forall>svc. v_Services st (pc_key pc) = Some svc \<longrightarrow> controlled L pc (svc_Meta svc)) \<and>
     (\<forall>sts. v_StatefulSets st (pc_key pc) = Some sts \<longrightarrow> sts_Replicas sts \<noteq> None)"

text \<open>
  The server accepts the ConfigMap, the Service and the StatefulSet of a cluster: those the
  callbacks make of what is stored, the StatefulSet that is created or updated. It may not: a
  Service must not have a name that starts with a digit or contains a dot, nor change its cluster
  address.
\<close>

definition acceptable :: "admission \<Rightarrow> reconcile_lib \<Rightarrow> prometheus_cluster \<Rightarrow> store \<Rightarrow> bool" where
  "acceptable A L pc st \<longleftrightarrow>
     (let old = v_ConfigMaps st (Namespace (pc_Meta pc), configMapName pc)
      in \<forall>new. mutateConfigMap L pc (case old of Some c \<Rightarrow> c | None \<Rightarrow> new_config_map pc) = Inr new \<longrightarrow>
           adm_ConfigMap A old new) \<and>
     (let old = v_Services st (pc_key pc)
      in \<forall>new. mutateService L pc (case old of Some c \<Rightarrow> c | None \<Rightarrow> new_service pc) = Inr new \<longrightarrow>
           adm_Service A old new) \<and>
     (let wanted = buildStatefulSet (Quantities L) pc
      in case v_StatefulSets st (pc_key pc) of
           None \<Rightarrow> \<forall>m. SetControllerReference L pc (sts_Meta wanted) = Inr m \<longrightarrow>
             adm_StatefulSet A None (wanted\<lparr>sts_Meta := m\<rparr>)
         | Some current \<Rightarrow> adm_StatefulSet A (Some current)
             (current\<lparr>sts_Replicas := Some (sp_Replicas (pc_Spec pc)), sts_Template := sts_Template wanted\<rparr>))"

locale cluster_reconcile_live =
  cluster_reconcile R view admit L + kube_live "Client R" view admit A
  for R :: "'w cluster_reconciler" and view :: "'w \<Rightarrow> store"
    and admit :: "stateful_set \<Rightarrow> stateful_set" and L :: reconcile_lib and A :: admission
begin

lemma updatePhase_live:
  assumes "v_Clusters (view (ext s)) (pc_key pc) = Some pc"
  shows "\<exists>res t. updatePhase R pc phase ready s = (Inr res, t)"
proof -
  let ?x = "pc\<lparr>pc_Status := (pc_Status pc)\<lparr>cs_Phase := phase, cs_ReadyReplicas := ready\<rparr>\<rparr>"
  obtain y w where "StatusUpdate (Clusters (Client R)) ?x (ext s) = (Inr y, w)"
    using status_cluster_ok [of "ext s" ?x pc] assms by (auto simp: pc_key_def)
  then show ?thesis by (simp add: updatePhase_def Let_def attempt_def call_def)
qed

lemma reconcileStatefulSet_live:
  assumes cl: "v_Clusters (view (ext s)) (pc_key pc) = Some pc"
    and repl: "\<And>sts. v_StatefulSets (view (ext s)) (pc_key pc) = Some sts \<Longrightarrow> sts_Replicas sts \<noteq> None"
    and new_ok: "\<And>m. v_StatefulSets (view (ext s)) (pc_key pc) = None \<Longrightarrow>
      SetControllerReference L pc (sts_Meta (buildStatefulSet (Quantities L) pc)) = Inr m \<Longrightarrow>
      adm_StatefulSet A None ((buildStatefulSet (Quantities L) pc)\<lparr>sts_Meta := m\<rparr>)"
    and upd_ok: "\<And>sts. v_StatefulSets (view (ext s)) (pc_key pc) = Some sts \<Longrightarrow>
      adm_StatefulSet A (Some sts) (sts\<lparr>sts_Replicas := Some (sp_Replicas (pc_Spec pc)),
        sts_Template := sts_Template (buildStatefulSet (Quantities L) pc)\<rparr>)"
  shows "\<exists>res t. reconcileStatefulSet L R pc s = (Inr res, t)"
proof -
  let ?d = "buildStatefulSet (Quantities L) pc"
  have go: "\<exists>res t. updatePhase R pc phase ready (s\<lparr>ext := w\<rparr>) = (Inr res, t)"
    if "same_except {StatefulSetId (pc_key pc)} (view (ext s)) (view w)" for phase ready w
    by (rule updatePhase_live) (use that cl in \<open>simp add: same_exceptD(1)\<close>)
  show ?thesis
  proof (cases "v_StatefulSets (view (ext s)) (pc_key pc)")
    case None
    obtain e w where get: "Get (StatefulSets (Client R)) (pc_key pc) (ext s) = (Inl e, w)" and nf: "is_not_found e"
      using get_sts_missing [OF None] by auto
    have same: "view w = view (ext s)" by (rule stss.get_same [OF get])
    obtain m where m: "SetControllerReference L pc (sts_Meta ?d) = Inr m"
      using owner_fresh [of "sts_Meta ?d" pc] by (auto simp: buildStatefulSet_def Let_def zero_meta_def)
    have key: "sts_key (?d\<lparr>sts_Meta := m\<rparr>) = pc_key pc"
      using owner_key [OF m] sts_key_build [of "Quantities L" pc] by (simp add: sts_key_def)
    obtain new w' where create: "Create (StatefulSets (Client R)) (?d\<lparr>sts_Meta := m\<rparr>) w = (Inr new, w')"
      using create_sts_ok [of w "?d\<lparr>sts_Meta := m\<rparr>"] None new_ok [OF None m] by (auto simp: key same)
    have "same_except {StatefulSetId (pc_key pc)} (view (ext s)) (view w')"
      using stss.create_scope [OF create] by (simp add: key same)
    from go [OF this, of PhaseProvisioning 0] show ?thesis
      by (simp add: reconcileStatefulSet_def Let_def get nf createStatefulSet_def m create call_def attempt_def)
  next
    case (Some current)
    then obtain n where n: "sts_Replicas current = Some n" using repl by blast
    obtain w where get: "Get (StatefulSets (Client R)) (pc_key pc) (ext s) = (Inr current, w)"
      using get_sts_ok [OF Some] by auto
    have same: "view w = view (ext s)" by (rule stss.get_same [OF get])
    let ?new = "current\<lparr>sts_Replicas := Some (sp_Replicas (pc_Spec pc)), sts_Template := sts_Template ?d\<rparr>"
    have key: "sts_key ?new = pc_key pc" using stss.stored_key [OF Some] by (simp add: sts_key_def)
    obtain c w' where upd: "Update (StatefulSets (Client R)) ?new w = (Inr c, w')"
      using update_sts_ok [of w ?new current] Some upd_ok [OF Some] by (auto simp: key same)
    have "same_except {StatefulSetId (pc_key pc)} (view (ext s)) (view w')"
      using stss.update_scope [OF upd] by (simp add: key same)
    from go [OF this] have a: "\<exists>res t. updatePhase R pc phase ready (s\<lparr>ext := w'\<rparr>) = (Inr res, t)" for phase ready .
    have b: "\<exists>res t. updatePhase R pc phase ready (s\<lparr>ext := w\<rparr>) = (Inr res, t)" for phase ready
      by (rule go) (simp add: same)
    show ?thesis
      using a b by (simp add: reconcileStatefulSet_def Let_def get n updateStatefulSet_def upd call_def attempt_def)
  qed
qed

lemma reconcileConfigMap_live:
  assumes "\<And>cm. v_ConfigMaps (view (ext s)) (Namespace (pc_Meta pc), configMapName pc) = Some cm \<Longrightarrow>
    controlled L pc (cm_Meta cm)"
    and accepted: "\<And>new. mutateConfigMap L pc (case v_ConfigMaps (view (ext s)) (Namespace (pc_Meta pc), configMapName pc) of
        Some c \<Rightarrow> c | None \<Rightarrow> new_config_map pc) = Inr new \<Longrightarrow>
      adm_ConfigMap A (v_ConfigMaps (view (ext s)) (Namespace (pc_Meta pc), configMapName pc)) new"
  shows "\<exists>b t. reconcileConfigMap L R pc s = (Inr b, t)"
proof -
  let ?k = "(Namespace (pc_Meta pc), configMapName pc)"
  let ?old = "case v_ConfigMaps (view (ext s)) ?k of Some c \<Rightarrow> c | None \<Rightarrow> new_config_map pc"
  have "\<exists>m. SetControllerReference L pc (cm_Meta ?old) = Inr m"
    using assms(1) owner_fresh [of "cm_Meta (new_config_map pc)" pc]
    by (auto simp: controlled_def new_config_map_def zero_meta_def split: option.splits)
  then have "\<exists>new. mutateConfigMap L pc ?old = Inr new" by (auto simp: mutateConfigMap_def Let_def)
  then obtain new where mut: "mutateConfigMap L pc ?old = Inr new" ..
  have "\<exists>op w. CreateOrUpdateConfigMap (Client R) (new_config_map pc) (mutateConfigMap L pc) (ext s) = (Inr op, w)"
  proof (rule cm_ok)
    have "meta_key (cm_Meta ?old) = ?k" by (auto split: option.splits dest: cm_key)
    with mutateConfigMap_data [OF mut] show "meta_key (cm_Meta new) = meta_key (cm_Meta (new_config_map pc))"
      by (auto dest!: owner_key)
    show "adm_ConfigMap A (v_ConfigMaps (view (ext s)) (meta_key (cm_Meta (new_config_map pc)))) new"
      using accepted [OF mut] by simp
  qed (use mut in simp)
  then show ?thesis by (auto simp: reconcileConfigMap_def call_def)
qed

lemma reconcileHeadlessService_live:
  assumes "\<And>svc. v_Services (view (ext s)) (pc_key pc) = Some svc \<Longrightarrow>
    controlled L pc (svc_Meta svc)"
    and accepted: "\<And>new. mutateService L pc (case v_Services (view (ext s)) (pc_key pc) of
        Some c \<Rightarrow> c | None \<Rightarrow> new_service pc) = Inr new \<Longrightarrow> adm_Service A (v_Services (view (ext s)) (pc_key pc)) new"
  shows "\<exists>op t. reconcileHeadlessService L R pc s = (Inr op, t)"
proof -
  let ?old = "case v_Services (view (ext s)) (pc_key pc) of Some c \<Rightarrow> c | None \<Rightarrow> new_service pc"
  have "\<exists>m. SetControllerReference L pc (svc_Meta ?old) = Inr m"
    using assms(1) owner_fresh [of "svc_Meta (new_service pc)" pc]
    by (auto simp: controlled_def new_service_def zero_meta_def split: option.splits)
  then have "\<exists>new. mutateService L pc ?old = Inr new" by (auto simp: mutateService_def Let_def)
  then obtain new where mut: "mutateService L pc ?old = Inr new" ..
  have "\<exists>op w. CreateOrUpdateService (Client R) (new_service pc) (mutateService L pc) (ext s) = (Inr op, w)"
  proof (rule svc_ok)
    have "meta_key (svc_Meta ?old) = pc_key pc" by (auto split: option.splits dest: svc_key)
    with mutateService_fields [OF mut] show "meta_key (svc_Meta new) = meta_key (svc_Meta (new_service pc))"
      by (auto dest!: owner_key)
    show "adm_Service A (v_Services (view (ext s)) (meta_key (svc_Meta (new_service pc)))) new"
      using accepted [OF mut] by simp
  qed (use mut in simp)
  then show ?thesis by (auto simp: reconcileHeadlessService_def call_def)
qed

lemma reconcileChildren_live:
  assumes cl: "v_Clusters (view (ext s)) (pc_key pc) = Some pc"
    and adopt: "adoptable L pc (view (ext s))" and accepted: "acceptable A L pc (view (ext s))"
    and reg: "\<And>register. BackupSchedule R = Some register \<Longrightarrow> bk_Enabled (sp_Backup (pc_Spec pc)) \<Longrightarrow>
      \<exists>u t. register pc s = (Inr u, t)"
  shows "\<exists>res t. reconcileChildren L R pc s = (Inr res, t)"
proof -
  have "\<exists>u s1. registerBackup R pc s = (Inr u, s1)"
    using reg by (auto simp: registerBackup_def split: option.splits)
  then obtain u s1 where 1: "registerBackup R pc s = (Inr u, s1)" by blast
  have v1: "view (ext s1) = view (ext s)"
    using registerBackup_ok [OF 1] by (intro store.equality ext) (auto simp: confined_def same_except_def)
  obtain b s2 where 2: "reconcileConfigMap L R pc s1 = (Inr b, s2)"
    using reconcileConfigMap_live [of s1 pc] adopt accepted by (auto simp: adoptable_def acceptable_def Let_def v1)
  have v2: "same_except {ConfigMapId (Namespace (pc_Meta pc), configMapName pc)} (view (ext s)) (view (ext s2))"
    using reconcileConfigMap_scope [OF 2] by (simp add: confined_def v1)
  obtain op s3 where 3: "reconcileHeadlessService L R pc s2 = (Inr op, s3)"
    using reconcileHeadlessService_live [of s2 pc] adopt accepted same_exceptD(3) [OF v2]
    by (auto simp: adoptable_def acceptable_def Let_def)
  have v3: "same_except {ServiceId (pc_key pc)} (view (ext s2)) (view (ext s3))"
    using reconcileHeadlessService_scope [OF 3] by (simp add: confined_def)
  have cl3: "v_Clusters (view (ext s3)) (pc_key pc) = Some pc"
    using cl same_exceptD(1) [OF v2] same_exceptD(1) [OF v3] by simp
  have st3: "v_StatefulSets (view (ext s3)) (pc_key pc) = v_StatefulSets (view (ext s)) (pc_key pc)"
    using same_exceptD(2) [OF v2] same_exceptD(2) [OF v3] by simp
  have "\<exists>res t. reconcileStatefulSet L R pc s3 = (Inr res, t)"
    by (rule reconcileStatefulSet_live [OF cl3])
      (use adopt accepted st3 in \<open>simp_all add: adoptable_def acceptable_def Let_def\<close>)
  then show ?thesis by (simp add: reconcileChildren_def 1 2 3)
qed

lemma Reconcile_live:
  assumes cl: "v_Clusters (view (ext s)) k = Some pc"
    and live: "DeletionTimestamp (pc_Meta pc) = None" "ContainsFinalizer L pc finalizerName"
    and adopt: "adoptable L pc (view (ext s))" and accepted: "acceptable A L pc (view (ext s))"
    and reg: "\<And>register s'. BackupSchedule R = Some register \<Longrightarrow> bk_Enabled (sp_Backup (pc_Spec pc)) \<Longrightarrow>
      \<exists>u t. register pc s' = (Inr u, t)"
  shows "\<exists>res t. Reconcile L R k s = (Inr res, t) \<and> \<not> Requeue res \<and> converged L admit pc (view (ext t)) \<and>
    reported view pc (fst (observed pc (view (ext s)))) (snd (observed pc (view (ext s)))) s t"
proof -
  have key: "pc_key pc = k" by (rule clusters.stored_key [OF cl])
  obtain w where get: "Get (Clusters (Client R)) k (ext s) = (Inr pc, w)"
    using get_cluster_ok [OF cl] by blast
  have same: "view w = view (ext s)" by (rule clusters.get_same [OF get])
  obtain res t where "reconcileChildren L R pc (s\<lparr>ext := w\<rparr>) = (Inr res, t)"
    using reconcileChildren_live [of "s\<lparr>ext := w\<rparr>" pc] cl adopt accepted reg by (auto simp: same key)
  then have run: "Reconcile L R k s = (Inr res, t)"
    using get live by (simp add: Reconcile_def)
  with Reconcile_ok [OF get live run] show ?thesis by blast
qed

end

section \<open>From pass to pass\<close>

definition same_cluster :: "prometheus_cluster \<Rightarrow> prometheus_cluster \<Rightarrow> bool" where
  "same_cluster pc pc' \<longleftrightarrow> pc_Spec pc' = pc_Spec pc \<and> same_identity (pc_Meta pc') (pc_Meta pc)"

text \<open>The backup scheduler, where there is one, accepts the cluster's schedule.\<close>

definition registers :: "'w cluster_reconciler \<Rightarrow> prometheus_cluster \<Rightarrow> bool" where
  "registers R pc \<longleftrightarrow>
     (\<forall>register pc' s. BackupSchedule R = Some register \<longrightarrow> bk_Enabled (sp_Backup (pc_Spec pc)) \<longrightarrow>
        same_cluster pc pc' \<longrightarrow> (\<exists>u t. register pc' s = (Inr u, t)))"

lemma registersD:
  "registers R pc \<Longrightarrow> same_cluster pc pc' \<Longrightarrow> BackupSchedule R = Some register \<Longrightarrow>
     bk_Enabled (sp_Backup (pc_Spec pc')) \<Longrightarrow> \<exists>u t. register pc' s = (Inr u, t)"
  by (auto simp: registers_def same_cluster_def)

lemma same_cluster_keys:
  assumes "same_cluster pc pc'"
  shows "Namespace (pc_Meta pc') = Namespace (pc_Meta pc)" "Name (pc_Meta pc') = Name (pc_Meta pc)"
    "pc_key pc' = pc_key pc" "configMapName pc' = configMapName pc" "UID (pc_Meta pc') = UID (pc_Meta pc)"
    "pc_Spec pc' = pc_Spec pc" "DeletionTimestamp (pc_Meta pc') = DeletionTimestamp (pc_Meta pc)"
  using assms by (auto simp: same_cluster_def same_identity_def meta_key_def pc_key_def configMapName_def)

lemma same_cluster_build:
  assumes "same_cluster pc pc'"
  shows "buildStatefulSet Q pc' = buildStatefulSet Q pc" "renderConfig T pc' = renderConfig T pc"
    "additional_data pc' = additional_data pc" "observed pc' st = observed pc st"
  unfolding renderConfig_def additionalScrapePath_def additional_data_def observed_def buildStatefulSet_def buildPodSpec_def
    prometheusContainer_def prometheusArgs_def clusterLabels_def buildThanosSidecar_def
    same_cluster_keys [OF assms]
  by (rule refl)+

context controller_util
begin

lemma same_cluster_controlled: "same_cluster pc pc' \<Longrightarrow> controlled L pc' m = controlled L pc m"
  using owner_same [of pc pc' m] same_cluster_keys [of pc pc'] by (simp add: controlled_def)

lemma same_cluster_converged:
  assumes "same_cluster pc pc'"
  shows "converged L admit pc' st = converged L admit pc st"
  by (simp add: converged_def config_in_place_def service_in_place_def sts_in_place_def sts_matches_def
      same_cluster_controlled [OF assms] same_cluster_build [OF assms] same_cluster_keys [OF assms])

lemma same_cluster_adoptable: "same_cluster pc pc' \<Longrightarrow> adoptable L pc' st = adoptable L pc st"
  by (simp add: adoptable_def same_cluster_controlled same_cluster_keys)

lemma same_cluster_acceptable:
  assumes "same_cluster pc pc'"
  shows "acceptable A L pc' st = acceptable A L pc st"
proof -
  note keys = same_cluster_keys [OF assms] and build = same_cluster_build [OF assms]
  have owner: "SetControllerReference L pc' m = SetControllerReference L pc m" for m
    using owner_same [of pc' pc m] keys by simp
  have same: "mutateConfigMap L pc' = mutateConfigMap L pc" "mutateService L pc' = mutateService L pc"
    "new_config_map pc' = new_config_map pc" "new_service pc' = new_service pc"
    by (simp_all add: fun_eq_iff mutateConfigMap_def mutateService_def new_config_map_def new_service_def owner keys build)
  show ?thesis unfolding acceptable_def same owner keys build by (rule refl)
qed

lemma converged_adoptable: "converged L admit pc st \<Longrightarrow> adoptable L pc st"
  by (auto simp: converged_def adoptable_def config_in_place_def service_in_place_def sts_in_place_def
      sts_matches_def)

end

lemma converged_observed:
  assumes "converged L admit pc st"
  obtains sts where "v_StatefulSets st (pc_key pc) = Some sts"
    and "observed pc st = (phaseFor False (sts_ReadyReplicas sts) (sp_Replicas (pc_Spec pc)), sts_ReadyReplicas sts)"
  using assms by (auto simp: converged_def sts_in_place_def sts_matches_def observed_def)

lemma reported_same_cluster:
  assumes "reported view pc phase ready s t" and "v_Clusters (view (ext s)) (pc_key pc) = Some pc"
  obtains pc' where "v_Clusters (view (ext t)) (pc_key pc) = Some pc'" "same_cluster pc pc'"
    "Finalizers (pc_Meta pc') = Finalizers (pc_Meta pc)"
    "cs_Phase (pc_Status pc') = phase" "cs_ReadyReplicas (pc_Status pc') = ready"
  using assms by (auto simp: reported_def same_cluster_def same_identity_def)

context cluster_reconcile_live
begin

lemma Reconcile_again:
  assumes cl: "v_Clusters (view (ext s)) k = Some pc"
    and live: "DeletionTimestamp (pc_Meta pc) = None" "ContainsFinalizer L pc finalizerName"
    and first: "Reconcile L R k s = (Inr res, t)" and accepted: "acceptable A L pc (view (ext t))"
    and reg: "registers R pc"
  shows "\<exists>pc' res' u sts. v_Clusters (view (ext t)) k = Some pc' \<and> same_cluster pc pc' \<and>
    Reconcile L R k t = (Inr res', u) \<and> \<not> Requeue res' \<and> converged L admit pc' (view (ext u)) \<and>
    v_StatefulSets (view (ext t)) k = Some sts \<and>
    reported view pc' (phaseFor False (sts_ReadyReplicas sts) (sp_Replicas (pc_Spec pc)))
      (sts_ReadyReplicas sts) t u"
proof -
  have key: "pc_key pc = k" by (rule clusters.stored_key [OF cl])
  obtain w where get: "Get (Clusters (Client R)) k (ext s) = (Inr pc, w)"
    using get_cluster_ok [OF cl] by blast
  note good = Reconcile_ok [OF get live first]
  obtain pc' where pc': "v_Clusters (view (ext t)) k = Some pc'" and same: "same_cluster pc pc'"
    and fin: "Finalizers (pc_Meta pc') = Finalizers (pc_Meta pc)"
    by (rule reported_same_cluster [of view pc _ _ s t]) (use good cl key in auto)
  have conv: "converged L admit pc' (view (ext t))"
    using good same_cluster_converged [OF same] by simp
  obtain sts where sts: "v_StatefulSets (view (ext t)) (pc_key pc') = Some sts"
    and obs: "observed pc' (view (ext t)) =
      (phaseFor False (sts_ReadyReplicas sts) (sp_Replicas (pc_Spec pc')), sts_ReadyReplicas sts)"
    by (rule converged_observed [OF conv])
  have "ContainsFinalizer L pc' finalizerName"
    using contains_meta [OF fin, of finalizerName] live by simp
  then obtain res' u where again: "Reconcile L R k t = (Inr res', u)" "\<not> Requeue res'"
      "converged L admit pc' (view (ext u))"
      "reported view pc' (fst (observed pc' (view (ext t)))) (snd (observed pc' (view (ext t)))) t u"
    using Reconcile_live [OF pc'] converged_adoptable [OF conv] accepted [folded same_cluster_acceptable [OF same]]
      live registersD [OF reg same] same_cluster_keys(7) [OF same]
    by auto
  have "v_StatefulSets (view (ext t)) k = Some sts"
    using sts same_cluster_keys(3) [OF same] key by simp
  moreover have "reported view pc' (phaseFor False (sts_ReadyReplicas sts) (sp_Replicas (pc_Spec pc)))
      (sts_ReadyReplicas sts) t u"
    using again(4) obs same_cluster_keys(6) [OF same] by simp
  ultimately show ?thesis using pc' same again by blast
qed

lemma Reconcile_new:
  assumes cl: "v_Clusters (view (ext s)) k = Some pc"
    and new: "DeletionTimestamp (pc_Meta pc) = None" "\<not> ContainsFinalizer L pc finalizerName"
    and adopt: "adoptable L pc (view (ext s))" and accepted: "acceptable A L pc (view (ext s))"
    and finalizer: "adm_Cluster A pc (AddFinalizer L pc finalizerName)"
    and reg: "registers R pc"
  shows "\<exists>res t pc' res' u. Reconcile L R k s = (Inr res, t) \<and> Requeue res \<and>
    v_Clusters (view (ext t)) k = Some pc' \<and> same_cluster pc pc' \<and>
    confined view {ClusterId k} s t \<and>
    Reconcile L R k t = (Inr res', u) \<and> \<not> Requeue res' \<and> converged L admit pc' (view (ext u)) \<and>
    reported view pc' (fst (observed pc (view (ext s)))) (snd (observed pc (view (ext s)))) t u"
proof -
  let ?x = "AddFinalizer L pc finalizerName"
  have key: "pc_key pc = k" by (rule clusters.stored_key [OF cl])
  obtain w where get: "Get (Clusters (Client R)) k (ext s) = (Inr pc, w)"
    using get_cluster_ok [OF cl] by blast
  have rv: "ResourceVersion (pc_Meta ?x) = ResourceVersion (pc_Meta pc)"
    using add_only [of pc finalizerName] by auto
  obtain y w' where "Update (Clusters (Client R)) ?x w = (Inr y, w')"
    using update_cluster_ok [of w ?x pc] rv cl finalizer by (auto simp: add_key key clusters.get_same [OF get])
  then obtain t res where first: "Reconcile L R k s = (Inr res, t)"
    using get new by (simp add: Reconcile_def attempt_def call_def)
  note good = addFinalizer_ok [OF get new first]
  then obtain pc' where pc': "v_Clusters (view (ext t)) k = Some pc'" "ContainsFinalizer L pc' finalizerName"
    and same: "same_cluster pc pc'" by (auto simp: same_cluster_def)
  have rest: "same_except {ClusterId k} (view (ext s)) (view (ext t))"
    using good by (simp add: confined_def)
  have obs: "observed pc' (view (ext t)) = observed pc (view (ext s))"
    using same_exceptD(2) [OF rest] same_cluster_build(4) [OF same] by (simp add: observed_def)
  have "adoptable L pc' (view (ext t))"
    using adopt same_exceptD(2-4) [OF rest] unfolding same_cluster_adoptable [OF same]
    by (simp add: adoptable_def)
  moreover have "acceptable A L pc' (view (ext t))"
    using accepted same_exceptD(2-4) [OF rest] unfolding same_cluster_acceptable [OF same]
    by (simp add: acceptable_def)
  ultimately obtain res' u where "Reconcile L R k t = (Inr res', u)" "\<not> Requeue res'"
      "converged L admit pc' (view (ext u))"
      "reported view pc' (fst (observed pc' (view (ext t)))) (snd (observed pc' (view (ext t)))) t u"
    using Reconcile_live [OF pc'(1)] pc'(2) new registersD [OF reg same] same_cluster_keys(7) [OF same] by auto
  with first good pc' same show ?thesis unfolding obs by blast
qed

end

lemma own_objects_disjoint: "k \<noteq> k' \<Longrightarrow> own_objects k \<inter> own_objects k' = {}"
  by (cases k; cases k') (auto simp: own_objects_def)

context cluster_reconcile
begin

lemma reconcileChildren_order:
  assumes run: "reconcileChildren L R pc s = (r, t)"
    and changed: "v_StatefulSets (view (ext t)) (pc_key pc) \<noteq> v_StatefulSets (view (ext s)) (pc_key pc)"
  shows "config_in_place L pc (view (ext t)) \<and> service_in_place L pc (view (ext t))"
proof -
  let ?v = "\<lambda>s. view (ext s)"
  obtain r1 s1 where 1: "registerBackup R pc s = (r1, s1)" by (cases "registerBackup R pc s")
  obtain r2 s2 where 2: "reconcileConfigMap L R pc s1 = (r2, s2)" by (cases "reconcileConfigMap L R pc s1")
  obtain r3 s3 where 3: "reconcileHeadlessService L R pc s2 = (r3, s3)"
    by (cases "reconcileHeadlessService L R pc s2")
  have e1: "v_StatefulSets (?v s1) k = v_StatefulSets (?v s) k" for k
    using registerBackup_ok [OF 1] by (simp add: confined_def same_except_def del: split_paired_All)
  have e2: "v_StatefulSets (?v s2) k = v_StatefulSets (?v s) k" for k
    using reconcileConfigMap_scope [OF 2] e1 by (simp add: confined_def same_except_def del: split_paired_All)
  have e3: "v_StatefulSets (?v s3) k = v_StatefulSets (?v s) k" for k
    using reconcileHeadlessService_scope [OF 3] e2 by (simp add: confined_def same_except_def del: split_paired_All)
  obtain u b op where ok: "r1 = Inr u" "r2 = Inr b" "r3 = Inr op" and 4: "reconcileStatefulSet L R pc s3 = (r, t)"
    using run changed 1 2 3 e1 e2 e3
    by (cases r1; cases r2; cases r3) (auto simp: reconcileChildren_def attempt_def)
  have "config_in_place L pc (?v s2)" "service_in_place L pc (?v s3)"
    using reconcileConfigMap_stored [OF 2 [unfolded ok]] reconcileHeadlessService_stored [OF 3 [unfolded ok]] .
  then show ?thesis
    using reconcileHeadlessService_scope [OF 3] reconcileStatefulSet_scope [OF 4]
    by (simp add: config_in_place_def service_in_place_def confined_def same_except_def del: split_paired_All)
qed

lemma Reconcile_order:
  assumes stored: "v_Clusters (view (ext s)) k = Some pc" and run: "Reconcile L R k s = (r, t)"
    and changed: "v_StatefulSets (view (ext t)) k \<noteq> v_StatefulSets (view (ext s)) k"
  shows "config_in_place L pc (view (ext t)) \<and> service_in_place L pc (view (ext t))"
proof -
  obtain x w where get: "Get (Clusters (Client R)) k (ext s) = (x, w)"
    by (cases "Get (Clusters (Client R)) k (ext s)")
  have same: "view w = view (ext s)" by (rule clusters.get_same [OF get])
  have key: "pc_key pc = k" by (rule clusters.stored_key [OF stored])
  obtain y where y: "x = Inr y"
    using run get changed same by (cases x) (auto simp: Reconcile_def split: if_splits)
  have "y = pc" using clusters.get_stored [OF get [unfolded y]] stored by (simp add: same)
  with y get have get: "Get (Clusters (Client R)) k (ext s) = (Inr pc, w)" by simp
  have "DeletionTimestamp (pc_Meta pc) = None"
  proof (rule ccontr)
    assume "DeletionTimestamp (pc_Meta pc) \<noteq> None"
    from finalize_pass [OF get this run] changed show False
      by (simp add: same_except_def del: split_paired_All split: if_splits)
  qed
  moreover have "ContainsFinalizer L pc finalizerName"
  proof (rule ccontr)
    assume "\<not> ContainsFinalizer L pc finalizerName"
    with calculation run get obtain rr where
      "Update (Clusters (Client R)) (AddFinalizer L pc finalizerName) w = (rr, ext t)"
      by (auto simp: Reconcile_def attempt_def call_def split: prod.splits sum.splits)
    from clusters.update_scope [OF this] changed same show False by (simp add: same_except_def del: split_paired_All)
  qed
  ultimately have "reconcileChildren L R pc (s\<lparr>ext := w\<rparr>) = (r, t)"
    using run get by (simp add: Reconcile_def)
  from reconcileChildren_order [OF this] changed show ?thesis by (simp add: same key)
qed

lemma read_cluster:
  "Get (Clusters (Client R)) k w = (Inr pc, w') \<Longrightarrow> v_Clusters (view w) k = Some pc \<and> pc_key pc = k"
  using clusters.get_stored clusters.get_same clusters.get_key by metis

lemma cluster_key: "v_Clusters (view w) k = Some pc \<Longrightarrow> pc_key pc = k"
  by (rule clusters.stored_key)

end

section \<open>Properties\<close>

text \<open>
  Whatever the outcome, a reconcile of a cluster leaves every object of the API server as it
  was, except the cluster itself, the StatefulSet and the Service of its name and its
  \<open>-config\<close> ConfigMap; the objects of different clusters are disjoint.
\<close>

theorem Reconcile_touches_own_objects:
  assumes "cluster_reconcile R view admit L" and "Reconcile L R k s = (r, t)"
  shows "same_except (own_objects k) (view (ext s)) (view (ext t)) \<and>
    own_objects k = {ClusterId k, StatefulSetId k, ServiceId k, ConfigMapId (fst k, snd k @ ''-config'')} \<and>
    (\<forall>k'. own_objects k \<inter> own_objects k' \<noteq> {} \<longrightarrow> k' = k)"
  using keepsD [OF cluster_reconcile.Reconcile_confined [OF assms(1)] assms(2)] own_objects_disjoint [of k]
  by (auto simp: confined_def own_objects_def)

text \<open>
  C1: When a reconcile of a live cluster that carries the finalizer succeeds, the rendered
  configuration and the scrape file are in the ConfigMap, the Service is headless and
  selects the cluster's pods, the StatefulSet has the wanted replicas and the wanted
  template, and the status and the phase gauge report the phase that the StatefulSet found
  at the start determines; no other field of the cluster changed.
\<close>

theorem Reconcile_success:
  assumes "cluster_reconcile R view admit L"
    and "Get (Clusters (Client R)) k (ext s) = (Inr pc, w)"
    and "DeletionTimestamp (pc_Meta pc) = None" and "ContainsFinalizer L pc finalizerName"
    and "Reconcile L R k s = (Inr res, t)"
  shows "\<not> Requeue res \<and>
    config_in_place L pc (view (ext t)) \<and> service_in_place L pc (view (ext t)) \<and>
    sts_in_place L admit pc (view (ext t)) \<and>
    (case observed pc (view (ext s)) of (phase, ready) \<Rightarrow>
       (\<exists>v. v_Clusters (view (ext t)) k =
          Some (pc\<lparr>pc_Meta := with_version (pc_Meta pc) v,
                   pc_Status := (pc_Status pc)\<lparr>cs_Phase := phase, cs_ReadyReplicas := ready\<rparr>\<rparr>)) \<and>
       mets t = SetPhase (Namespace (pc_Meta pc)) (Name (pc_Meta pc)) phase (mets s))"
proof -
  have "v_Clusters (view (ext s)) k = Some pc" "pc_key pc = k"
    using cluster_reconcile.Reconcile_ok [OF assms] cluster_reconcile.read_cluster [OF assms(1,2)] by auto
  then show ?thesis
    using cluster_reconcile.Reconcile_ok [OF assms] 
    by (auto simp: converged_def reported_def split: prod.splits)
qed

text \<open>
  Whatever the outcome, a reconcile never changes the spec of its cluster and writes no
  status field but the phase and the ready replicas; a phase it writes is Provisioning,
  Active or Scaling, so that Failed is never reached.
\<close>

theorem Reconcile_writes_status_only:
  assumes "cluster_reconcile R view admit L" and "v_Clusters (view (ext s)) k = Some pc"
    and "Reconcile L R k s = (r, t)" and "v_Clusters (view (ext t)) k = Some pc'"
  shows "pc_Spec pc' = pc_Spec pc \<and>
    (\<exists>phase ready. pc_Status pc' = (pc_Status pc)\<lparr>cs_Phase := phase, cs_ReadyReplicas := ready\<rparr> \<and>
       phase \<in> {cs_Phase (pc_Status pc), PhaseProvisioning, PhaseActive, PhaseScaling})"
  using cluster_reconcile.Reconcile_status_only [OF assms] by (simp only: status_only_def)

text \<open>
  C4: Configuration comes before pods: if a reconcile, failed or not, left the cluster's
  StatefulSet different, then the ConfigMap the pods mount and the Service that governs
  them are in place for the same spec.
\<close>

theorem Reconcile_config_before_pods:
  assumes "cluster_reconcile R view admit L" and "v_Clusters (view (ext s)) k = Some pc"
    and "Reconcile L R k s = (r, t)"
    and "v_StatefulSets (view (ext t)) k \<noteq> v_StatefulSets (view (ext s)) k"
  shows "config_in_place L pc (view (ext t)) \<and> service_in_place L pc (view (ext t))"
  by (rule cluster_reconcile.Reconcile_order [OF assms])

text \<open>
  C15: a reconcile of a cluster under deletion. When the cluster does not carry the operator's
  finalizer the pass succeeds and changes no object and no metric. When it does, the pass touches
  nothing but the cluster object, of which spec, status and identity stay, and when it succeeds it
  asks for no requeue, the finalizer is gone from what is still stored, no phase, backup or
  failover series of the cluster is left, and every series of another cluster and the audit
  metrics are as they were; when it fails, no metric changes.
\<close>

theorem Reconcile_deletion:
  assumes "cluster_reconcile R view admit L"
    and "Get (Clusters (Client R)) k (ext s) = (Inr pc, w)" and "DeletionTimestamp (pc_Meta pc) \<noteq> None"
    and "Reconcile L R k s = (r, t)"
  shows "if ContainsFinalizer L pc finalizerName
    then same_except {ClusterId k} (view (ext s)) (view (ext t)) \<and>
      (\<forall>pc'. v_Clusters (view (ext t)) k = Some pc' \<longrightarrow> only_finalizers_differ pc pc') \<and>
      (case r of Inl e \<Rightarrow> mets t = mets s
       | Inr res \<Rightarrow> \<not> Requeue res \<and> series_removed k (mets s) (mets t) \<and>
           (\<forall>pc'. v_Clusters (view (ext t)) k = Some pc' \<longrightarrow> \<not> ContainsFinalizer L pc' finalizerName))
    else r = Inr \<lparr>Requeue = False\<rparr> \<and> view (ext t) = view (ext s) \<and> mets t = mets s"
  using assms by (rule cluster_reconcile.finalize_pass)


text \<open>
  On an idle API server that still accepts the objects the pass after a successful one succeeds
  too, keeps everything in place and reports Active exactly when the StatefulSet's ready replicas
  reach the wanted ones, Provisioning otherwise: Scaling lasts a single pass.
\<close>

theorem Reconcile_scaling_is_transient:
  assumes "cluster_reconcile_live R view admit L A"
    and "v_Clusters (view (ext s)) k = Some pc" and "DeletionTimestamp (pc_Meta pc) = None"
    and "ContainsFinalizer L pc finalizerName" and "Reconcile L R k s = (Inr res, t)"
    and "acceptable A L pc (view (ext t))"
    and "registers R pc"
  shows "\<exists>pc' res' u sts pc''. same_cluster pc pc' \<and> Reconcile L R k t = (Inr res', u) \<and> \<not> Requeue res' \<and>
    converged L admit pc' (view (ext u)) \<and> v_StatefulSets (view (ext t)) k = Some sts \<and>
    v_Clusters (view (ext u)) k = Some pc'' \<and>
    cs_ReadyReplicas (pc_Status pc'') = sts_ReadyReplicas sts \<and>
    cs_Phase (pc_Status pc'') =
      (if sint (sts_ReadyReplicas sts) < sint (sp_Replicas (pc_Spec pc)) then PhaseProvisioning else PhaseActive)"
proof -
  obtain pc' res' u sts where again: "v_Clusters (view (ext t)) k = Some pc'" "same_cluster pc pc'"
    "Reconcile L R k t = (Inr res', u)" "\<not> Requeue res'" "converged L admit pc' (view (ext u))"
    "v_StatefulSets (view (ext t)) k = Some sts" and
    rep: "reported view pc' (phaseFor False (sts_ReadyReplicas sts) (sp_Replicas (pc_Spec pc)))
      (sts_ReadyReplicas sts) t u"
    using cluster_reconcile_live.Reconcile_again [OF assms] by blast
  have "pc_key pc' = k"
    using assms(1) again(1) by (auto simp: cluster_reconcile_live_def dest: cluster_reconcile.cluster_key)
  with rep obtain pc'' where "v_Clusters (view (ext u)) k = Some pc''"
    "cs_ReadyReplicas (pc_Status pc'') = sts_ReadyReplicas sts"
    "cs_Phase (pc_Status pc'') = phaseFor False (sts_ReadyReplicas sts) (sp_Replicas (pc_Spec pc))"
    by (auto simp: reported_def)
  with again show ?thesis unfolding phaseFor_def if_False by blast
qed

end
