(* ===== verification/Operator.thy ===== *)
theory Operator
  imports RestApi HealthChecker ClusterSetReconciler ClusterGuarantees
begin

text \<open>
  The operator process as a whole (\<open>cmd/main.go\<close>): which components the command line switches
  on and how they are wired together, and the runs of the process, in which reconcile passes,
  cron jobs, health checks, pruning and API requests follow one another in any order and the
  rest of the world acts in between.
\<close>

section \<open>Wiring\<close>

record flags =
  enableHA :: bool
  enableBackup :: bool
  enableWebhook :: bool
  enableAPI :: bool
  apiNamespace :: string
  auditDSN :: string
  auditRetentionDays :: int64

text \<open>The flags before the command line is read, the environment giving the DSN.\<close>

definition default_flags :: "string \<Rightarrow> flags" where
  "default_flags dsn = \<lparr>enableHA = True, enableBackup = True, enableWebhook = False, enableAPI = True,
     apiNamespace = ''default'', auditDSN = dsn, auditRetentionDays = 0\<rparr>"

text \<open>
  What the libraries hand to \<open>main\<close>: the manager's client, the health checker and the scheduler
  built on it with their HTTP, S3, exec and event clients, label selectors, and the database.
\<close>

record 'w parts =
  pt_Client :: "'w client"
  pt_Checker :: "'w health_checker"
  pt_Scheduler :: "'w scheduler"
  pt_Selectors :: "label_selector \<Rightarrow> selector result"
  pt_Connect :: "'w \<Rightarrow> 'w audit_db result \<times> 'w"
  pt_EnsureSchema :: "'w audit_db \<Rightarrow> 'w \<Rightarrow> unit result \<times> 'w"

record 'w assembly =
  as_Reconciler :: "'w cluster_reconciler"
  as_SetReconciler :: "'w set_reconciler"
  as_Checker :: "'w health_checker option"
  as_Scheduler :: "'w scheduler option"
  as_Webhook :: bool
  as_Logger :: "'w logger option"
  as_Api :: "'w server option"

definition assemble :: "flags \<Rightarrow> 'w parts \<Rightarrow> 'w logger option \<Rightarrow> 'w assembly" where
  "assemble fl p auditLogger =
     (let scheduler = (if enableBackup fl then Some ((pt_Scheduler p)\<lparr>sch_Client := pt_Client p\<rparr>) else None)
      in \<lparr>as_Reconciler = \<lparr>Client = pt_Client p, BackupSchedule = map_option Register scheduler\<rparr>,
          as_SetReconciler = \<lparr>set_Client = pt_Client p, LabelSelectorAsSelector = pt_Selectors p\<rparr>,
          as_Checker = (if enableHA fl then Some ((pt_Checker p)\<lparr>hc_Client := pt_Client p\<rparr>) else None),
          as_Scheduler = scheduler,
          as_Webhook = enableWebhook fl,
          as_Logger = auditLogger,
          as_Api = (if enableAPI fl
                    then Some \<lparr>srv_Client = pt_Client p, srv_Namespace = apiNamespace fl,
                               srv_Audit = auditLogger, srv_Backup = None\<rparr>
                    else None)\<rparr>)"

definition openAudit :: "flags \<Rightarrow> 'w parts \<Rightarrow> 'w \<Rightarrow> 'w logger option result \<times> 'w" where
  "openAudit fl p w =
     (if auditDSN fl = [] then (Inr None, w)
      else (case Open (pt_Connect p) (pt_EnsureSchema p) w of
              (Inl e, w) \<Rightarrow> (Inl e, w)
            | (Inr l, w) \<Rightarrow> (Inr (Some (l\<lparr>RetentionDays := auditRetentionDays fl\<rparr>)), w)))"

text \<open>\<open>main\<close> up to the start of the manager: an assembly, or the error it exits with.\<close>

definition operator_main :: "flags \<Rightarrow> 'w parts \<Rightarrow> 'w \<Rightarrow> 'w assembly result \<times> 'w" where
  "operator_main fl p w =
     (case openAudit fl p w of
        (Inl e, w) \<Rightarrow> (Inl e, w)
      | (Inr l, w) \<Rightarrow> (Inr (assemble fl p l), w))"

section \<open>Runs\<close>

inductive operator_step ::
    "reconcile_lib \<Rightarrow> (string \<Rightarrow> createReq result) \<Rightarrow> ('w \<Rightarrow> 'w \<Rightarrow> bool) \<Rightarrow> 'w assembly \<Rightarrow>
     'w process \<Rightarrow> 'w process \<Rightarrow> bool" for L J world A where
  reconcile_pass: "Reconcile L (as_Reconciler A) k s = (r, t) \<Longrightarrow> operator_step L J world A s t"
| set_pass: "ReconcileSet (as_SetReconciler A) k s = (r, t) \<Longrightarrow> operator_step L J world A s t"
| cron_job: "as_Scheduler A = Some S \<Longrightarrow> RunOnce S ns name s = (u, t) \<Longrightarrow> operator_step L J world A s t"
| health_tick: "as_Checker A = Some H \<Longrightarrow> checkAll H s = (u, t) \<Longrightarrow> operator_step L J world A s t"
| prune_tick: "as_Logger A = Some l \<Longrightarrow> 0 < sint (RetentionDays l) \<Longrightarrow> operator_step L J world A s (tick l s)"
| api_request: "as_Api A = Some srv \<Longrightarrow> Router J srv meth path op body s = (resp, t) \<Longrightarrow>
    operator_step L J world A s t"
| world_acts: "world (ext s) w \<Longrightarrow> operator_step L J world A s (s\<lparr>ext := w\<rparr>)"

section \<open>Relations that every call keeps\<close>

text \<open>
  The client's calls all keep \<open>P\<close>; then so do the components' operations, which are made of such
  calls and of updates of the metrics.
\<close>

definition resource_calls :: "('w process \<Rightarrow> 'w process \<Rightarrow> bool) \<Rightarrow> ('w, 'o) resource \<Rightarrow> bool" where
  "resource_calls P R \<longleftrightarrow>
     (\<forall>k. keeps P (call (Get R k))) \<and> (\<forall>opts. keeps P (call (List R opts))) \<and>
     (\<forall>x. keeps P (call (Create R x))) \<and> (\<forall>x. keeps P (call (Update R x))) \<and>
     (\<forall>x. keeps P (call (StatusUpdate R x))) \<and> (\<forall>k. keeps P (call (Delete R k)))"

definition client_calls :: "('w process \<Rightarrow> 'w process \<Rightarrow> bool) \<Rightarrow> 'w client \<Rightarrow> bool" where
  "client_calls P cl \<longleftrightarrow>
     resource_calls P (Clusters cl) \<and> resource_calls P (ClusterSets cl) \<and>
     resource_calls P (StatefulSets cl) \<and> resource_calls P (Pods cl) \<and> resource_calls P (Namespaces cl) \<and>
     (\<forall>cm f. keeps P (call (CreateOrUpdateConfigMap cl cm f))) \<and>
     (\<forall>svc f. keeps P (call (CreateOrUpdateService cl svc f)))"

lemma resource_callsD:
  assumes "resource_calls P R"
  shows "keeps P (call (Get R k))" "keeps P (call (List R opts))" "keeps P (call (Create R x))"
    "keeps P (call (Update R x))" "keeps P (call (StatusUpdate R x))" "keeps P (call (Delete R k))"
  using assms by (simp_all add: resource_calls_def del: split_paired_All)

lemma client_callsD:
  assumes "client_calls P cl"
  shows "resource_calls P (Clusters cl)" "resource_calls P (ClusterSets cl)" "resource_calls P (StatefulSets cl)"
    "resource_calls P (Pods cl)" "resource_calls P (Namespaces cl)"
    "keeps P (call (CreateOrUpdateConfigMap cl cm f))" "keeps P (call (CreateOrUpdateService cl svc g))"
  using assms by (simp_all add: client_calls_def)

locale call_relation =
  fixes P :: "'w process \<Rightarrow> 'w process \<Rightarrow> bool"
  assumes refl: "reflp P" and trans: "transp P" and metrics: "P s (s\<lparr>mets := m\<rparr>)"
begin

lemma keeps_metrics: "keeps P (\<lambda>s. (r, s\<lparr>mets := f (mets s)\<rparr>))"
  by (rule keepsI) (auto intro: metrics)

lemma keeps_same: "keeps P (\<lambda>s. (r, s))"
  by (rule keeps_return [OF refl])

lemma keeps_fold:
  assumes "\<And>x s. P s (f x s)"
  shows "P s (fold f xs s)"
proof (induction xs arbitrary: s)
  case (Cons x xs)
  show ?case using transpD [OF trans assms Cons.IH] by simp
qed (simp add: reflpD [OF refl])

lemma Reconcile_keeps:
  assumes "client_calls P (Client R)"
    and "\<And>reg pc. BackupSchedule R = Some reg \<Longrightarrow> keeps P (reg pc)"
  shows "keeps P (Reconcile L R k)"
proof -
  note calls = client_callsD(6,7) [OF assms(1)] resource_callsD [OF client_callsD(1) [OF assms(1)]]
    resource_callsD [OF client_callsD(3) [OF assms(1)]]
  have phase: "keeps P (updatePhase R pc ph n)" for pc ph n
    unfolding updatePhase_def Let_def by (intro keeps_attempt trans keeps_metrics) (rule calls)
  have update: "keeps P (updateStatefulSet L R pc d cur)" for pc d cur
    unfolding updateStatefulSet_def Let_def
    by (cases "sts_Replicas cur") (auto intro!: keeps_attempt trans phase keeps_same simp: calls)
  have create: "keeps P (createStatefulSet L R pc d)" for pc d
    unfolding createStatefulSet_def
    by (cases "SetControllerReference L pc (sts_Meta d)") (auto intro!: keeps_attempt trans phase keeps_same simp: calls)
  have sts: "keeps P (reconcileStatefulSet L R pc)" for pc
  proof -
    have get: "keeps P (call (Get (StatefulSets (Client R)) k))" for k by (rule calls)
    show ?thesis
      unfolding reconcileStatefulSet_def Let_def
      by (rule keepsI) (auto split: prod.splits sum.splits if_splits intro: transpD [OF trans]
          dest!: keepsD [OF get] keepsD [OF create] keepsD [OF update])
  qed
  have cm: "keeps P (reconcileConfigMap L R pc)" for pc
  proof -
    have "keeps P (call (CreateOrUpdateConfigMap (Client R) (new_config_map pc) (mutateConfigMap L pc)))"
      by (rule calls)
    then show ?thesis
      by (intro keepsI) (auto simp: reconcileConfigMap_def split: prod.splits sum.splits dest: keepsD)
  qed
  have reg: "keeps P (registerBackup R pc)" for pc
    using assms(2) by (auto simp: registerBackup_def keeps_same split: option.splits)
  have children: "keeps P (reconcileChildren L R pc)" for pc
    unfolding reconcileChildren_def reconcileHeadlessService_def
    by (intro keeps_attempt trans reg cm sts) (rule calls)
  have fin: "keeps P (finalize L R pc)" for pc
    unfolding finalize_def by (auto intro!: keeps_attempt trans keeps_metrics keeps_same simp: calls)
  have get: "keeps P (call (Get (Clusters (Client R)) k))" by (rule calls)
  have add: "keeps P (attempt ''add finalizer'' (call (Update (Clusters (Client R)) x)) (\<lambda>_ s. (Inr \<lparr>Requeue = True\<rparr>, s)))" for x
    by (intro keeps_attempt trans keeps_same) (rule calls)
  show ?thesis
    unfolding Reconcile_def
    by (rule keepsI) (auto split: prod.splits sum.splits if_splits intro: transpD [OF trans]
        dest!: keepsD [OF get] keepsD [OF fin] keepsD [OF add] keepsD [OF children])
qed

lemma ReconcileSet_keeps:
  assumes "client_calls P (set_Client R)"
  shows "keeps P (ReconcileSet R k)"
proof -
  note calls = resource_callsD [OF client_callsD(1) [OF assms]] resource_callsD [OF client_callsD(2) [OF assms]]
    resource_callsD [OF client_callsD(5) [OF assms]]
  have update: "keeps P (call (Update (Clusters (set_Client R)) x))" for x by (rule calls)
  have over: "keeps P (overlayBackup R cset pc)" for cset pc
    by (rule keepsI) (auto simp: overlayBackup_def reflpD [OF refl] split: prod.splits sum.splits option.splits if_splits
        dest: keepsD [OF update])
  have members: "keeps P (collect_members R cset allowed sel pcs ms pcnt)" for cset allowed sel pcs ms pcnt
  proof (induction pcs arbitrary: ms pcnt)
    case (Cons pc pcs)
    show ?case
      by (rule keepsI) (auto split: prod.splits if_splits intro: transpD [OF trans]
          dest!: keepsD [OF over] keepsD [OF Cons.IH])
  qed (simp add: keeps_def reflpD [OF refl])
  have allowed: "keeps P (allowedNamespaces R sel)" for sel
    unfolding allowedNamespaces_def by (auto intro!: keeps_attempt trans keeps_same calls)
  have report: "keeps P (reportMembers R cset ms pcnt)" for cset ms pcnt
    unfolding reportMembers_def Let_def by (intro keeps_attempt trans keeps_same calls)
  have loop: "keeps P (attempt ''list prometheusclusters'' (call (List (Clusters (set_Client R)) list_all_objects))
      (\<lambda>pcs s. case collect_members R cset allowed sel pcs [] Map.empty s of
         ((members, phaseCount), s) \<Rightarrow> reportMembers R cset members phaseCount s))" for cset allowed sel
  proof (intro keeps_attempt trans calls keepsI)
    fix pcs s r t
    assume run: "(case collect_members R cset allowed sel pcs [] Map.empty s of
         ((members, phaseCount), s) \<Rightarrow> reportMembers R cset members phaseCount s) = (r, t)"
    obtain ms pcnt u where ms: "collect_members R cset allowed sel pcs [] Map.empty s = ((ms, pcnt), u)"
      by (metis prod.collapse)
    with run have "reportMembers R cset ms pcnt u = (r, t)" by simp
    with ms show "P s t" by (blast intro: transpD [OF trans] dest: keepsD [OF members] keepsD [OF report])
  qed
  have body: "keeps P (reconcileMembers R cset)" for cset
    unfolding reconcileMembers_def
    by (rule keepsI) (auto split: prod.splits sum.splits intro: transpD [OF trans] reflpD [OF refl]
        dest!: keepsD [OF allowed] keepsD [OF loop])
  have get: "keeps P (call (Get (ClusterSets (set_Client R)) k))" by (rule calls)
  show ?thesis
    unfolding ReconcileSet_def
    by (rule keepsI) (auto split: prod.splits sum.splits if_splits intro: transpD [OF trans]
        dest!: keepsD [OF get] keepsD [OF body])
qed

lemma checkAll_keeps:
  assumes "client_calls P (hc_Client H)"
    and "\<And>url. keeps P (call (hc_Get H url))" "keeps P (call (hc_Now H))"
    and "\<And>pc ty re msg s. P s (s\<lparr>ext := Eventf H pc ty re msg (ext s)\<rparr>)"
  shows "keeps P (checkAll H)"
proof -
  note calls = resource_callsD [OF client_callsD(1) [OF assms(1)]] resource_callsD [OF client_callsD(4) [OF assms(1)]]
  have del: "keeps P (call (Delete (Pods (hc_Client H)) k))"
    and status: "keeps P (call (StatusUpdate (Clusters (hc_Client H)) x))"
    and pods: "keeps P (call (List (Pods (hc_Client H)) opts))" for k x opts
    by (rule calls)+
  have failover: "P s t" if "triggerFailover H pc pod cause s = (pc', t)" for pc pod cause s pc' t
  proof -
    let ?s1 = "s\<lparr>mets := (mets s)\<lparr>FailoverTotal :=
                 inc (FailoverTotal (mets s)) (Namespace (pc_Meta pc), Name (pc_Meta pc))\<rparr>\<rparr>"
    let ?s2 = "?s1\<lparr>ext := Eventf H pc ''Warning'' ''FailoverTriggered'' (failover_message pod cause) (ext ?s1)\<rparr>"
    have "P s ?s2" by (rule transpD [OF trans metrics assms(4)])
    moreover have "P ?s2 t"
      using that by (auto simp: triggerFailover_def Let_def split: prod.splits sum.splits intro: transpD [OF trans]
          dest!: keepsD [OF del] keepsD [OF status] keepsD [OF assms(3)])
    ultimately show ?thesis by (rule transpD [OF trans])
  qed
  have pod: "P s t" if "checkPod H p (pc, s) = (pc', t)" for p pc s pc' t
    using that by (auto simp: checkPod_def reflpD [OF refl] split: prod.splits sum.splits if_splits
        intro: transpD [OF trans] dest!: keepsD [OF assms(2)] failover)
  have pods_loop: "P s t" if "fold (checkPod H) ps (pc, s) = (pc', t)" for ps pc s pc' t
    using that
  proof (induction ps arbitrary: pc s)
    case (Cons p ps)
    obtain pc1 s1 where one: "checkPod H p (pc, s) = (pc1, s1)" by fastforce
    with Cons.prems have "fold (checkPod H) ps (pc1, s1) = (pc', t)" by simp
    then show ?case using pod [OF one] Cons.IH by (blast intro: transpD [OF trans])
  qed (simp add: reflpD [OF refl])
  have cluster: "P s (checkCluster H pc s)" for pc s
    unfolding checkCluster_def
    by (auto split: prod.splits sum.splits intro: transpD [OF trans] dest!: keepsD [OF pods]
        intro!: pods_loop [OF prod.collapse [symmetric]])
  show ?thesis
    unfolding checkAll_def
    by (intro keeps_attempt trans calls) (simp add: keeps_def keeps_fold cluster)
qed

lemma tick_keeps:
  assumes "\<And>stmt. keeps P (call (ExecContext (db l) stmt))" "keeps P (call (SelectCount (db l)))"
    "keeps P (call (TimeNow (db l)))"
  shows "P s (tick l s)"
proof -
  have prune: "keeps P (Prune l b)" for b
    unfolding Prune_def by (intro keeps_attempt trans assms) (auto simp: keeps_def reflpD [OF refl] metrics split: sum.splits)
  have rows: "keeps P (RowCount l)"
    unfolding RowCount_def by (intro keeps_attempt trans keeps_same assms)
  obtain now s1 where s1: "call (TimeNow (db l)) s = (now, s1)" by fastforce
  obtain r s2 where s2: "Prune l (cutoff (RetentionDays l) now) s1 = (r, s2)" by fastforce
  obtain c s3 where s3: "RowCount l s2 = (c, s3)" by fastforce
  have "P s s2" by (rule transpD [OF trans keepsD [OF assms(3) s1] keepsD [OF prune s2]])
  moreover from this have "P s s3" by (rule transpD [OF trans _ keepsD [OF rows s3]])
  moreover from this have "P s (s3\<lparr>mets := m\<rparr>)" for m by (rule transpD [OF trans _ metrics])
  ultimately show ?thesis using s1 s2 s3 by (auto simp: tick_def split: sum.splits)
qed

lemma Record_keeps:
  assumes "\<And>stmt. keeps P (call (ExecContext (db l) stmt))" "keeps P (call (TimeNow (db l)))"
  shows "keeps P (Record l e)"
proof -
  have run: "keeps P (attempt ''insert audit'' (call (ExecContext (db l) stmt))
      (\<lambda>_ s. (Inr (), s\<lparr>mets := (mets s)\<lparr>AuditRecordTotal := inc (AuditRecordTotal (mets s)) x\<rparr>\<rparr>)))" for stmt x
    by (intro keeps_attempt trans assms keeps_metrics)
  show ?thesis
    by (rule keepsI) (auto simp: Record_def Let_def split: prod.splits if_splits intro: transpD [OF trans]
        dest!: keepsD [OF assms(2)] keepsD [OF run])
qed

lemma RunOnce_keeps:
  assumes "scheduler_calls P S"
  shows "keeps P (RunOnce S ns name)"
proof (rule keepsI)
  fix s r t
  assume "RunOnce S ns name s = (r, t)"
  then obtain u where run: "runBackup S ns name s = (r, u)"
    and t: "ext t = ext u" "entries t = entries u"
    using RunOnce_outcome by blast
  have "t = u\<lparr>mets := mets t\<rparr>" using t by (cases t; cases u) simp
  then have "P u t" using metrics [of u "mets t"] by simp
  with keepsD [OF runBackup_keeps [OF refl trans assms] run] show "P s t" by (rule transpD [OF trans])
qed

lemma Router_keeps:
  assumes "client_calls P (srv_Client srv)"
    and "\<And>S. srv_Backup srv = Some S \<Longrightarrow> scheduler_calls P S"
    and "\<And>l stmt. srv_Audit srv = Some l \<Longrightarrow> keeps P (call (ExecContext (db l) stmt))"
    and "\<And>l. srv_Audit srv = Some l \<Longrightarrow> keeps P (call (TimeNow (db l)))"
    and "\<And>l c n. srv_Audit srv = Some l \<Longrightarrow> keeps P (call (SelectEntries (db l) c n))"
  shows "keeps P (Router J srv meth path operator body)"
proof -
  note calls = resource_callsD [OF client_callsD(1) [OF assms(1)]] resource_callsD [OF client_callsD(2) [OF assms(1)]]
  have log: "P s (audit srv c cl op res d s)" for c cl op res d s
    using Record_keeps [OF assms(3,4)] by (auto simp: audit_def keeps_def reflpD [OF refl] split: option.splits)
  have create: "keeps P (call (Create (Clusters (srv_Client srv)) x))"
    and delete: "keeps P (call (Delete (Clusters (srv_Client srv)) k))"
    and get: "keeps P (call (Get (Clusters (srv_Client srv)) k))"
    and lst: "keeps P (call (List (Clusters (srv_Client srv)) opts))" for x k opts
    by (rule calls)+
  have sets: "keeps P (call (Get (ClusterSets (srv_Client srv)) k))"
    "keeps P (call (List (ClusterSets (srv_Client srv)) opts))" for k opts
    by (rule calls)+
  have reads: "keeps P (listClusters srv)" "keeps P (listClusterSets srv)" "keeps P (getCluster srv c)"
    "keeps P (getClusterSet srv c)" for c
    by (rule keepsI; auto simp: listClusters_def listClusterSets_def getCluster_def getClusterSet_def
        split: prod.splits sum.splits dest!: keepsD [OF get] keepsD [OF lst] keepsD [OF sets(1)] keepsD [OF sets(2)])+
  have creates: "keeps P (createCluster J srv c)" for c
    by (rule keepsI) (auto simp: createCluster_def reflpD [OF refl] split: prod.splits sum.splits
        dest!: keepsD [OF create] intro: transpD [OF trans _ log])
  have deletes: "keeps P (deleteCluster srv c)" for c
    by (rule keepsI) (auto simp: deleteCluster_def split: prod.splits sum.splits
        dest!: keepsD [OF delete] intro: transpD [OF trans _ log])
  have backups: "keeps P (triggerBackup srv c)" for c
    by (rule keepsI) (auto simp: triggerBackup_def reflpD [OF refl] split: prod.splits sum.splits option.splits
        dest!: keepsD [OF RunOnce_keeps [OF assms(2)], rotated] intro: transpD [OF trans _ log])
  have queries: "keeps P (queryAudit srv c)" for c
  proof (cases "srv_Audit srv")
    case (Some l)
    have "keeps P (Query l n lim)" for n lim
      unfolding Query_def Let_def by (intro keeps_attempt trans keeps_same assms(5) [OF Some])
    with Some show ?thesis
      by (intro keepsI) (auto simp: queryAudit_def split: prod.splits sum.splits dest: keepsD)
  qed (simp add: queryAudit_def keeps_def reflpD [OF refl])
  show ?thesis
    unfolding Router_def Let_def
    by (rule keepsI) (auto simp: reflpD [OF refl] split: list.splits if_splits
        dest!: keepsD [OF reads(1)] keepsD [OF reads(2)] keepsD [OF reads(3)] keepsD [OF reads(4)]
          keepsD [OF creates] keepsD [OF deletes] keepsD [OF backups] keepsD [OF queries])
qed

end

section \<open>The cron library in a run\<close>

definition jobs_same :: "('w \<Rightarrow> nat \<rightharpoonup> string \<times> namespaced_name) \<Rightarrow> ('w \<Rightarrow> nat) \<Rightarrow> 'w process \<Rightarrow> 'w process \<Rightarrow> bool" where
  "jobs_same jobs lastId s t \<longleftrightarrow>
     jobs (ext t) = jobs (ext s) \<and> lastId (ext t) = lastId (ext s) \<and> entries t = entries s"

lemma keeps_mono: "keeps P f \<Longrightarrow> (\<And>s t. P s t \<Longrightarrow> Q s t) \<Longrightarrow> keeps Q f"
  by (simp add: keeps_def)

lemma resource_calls_mono:
  assumes "resource_calls P R" and "\<And>s t. P s t \<Longrightarrow> Q s t"
  shows "resource_calls Q R"
  using assms by (simp add: resource_calls_def keeps_def del: split_paired_All)

lemma client_calls_mono:
  assumes "client_calls P cl" and "\<And>s t. P s t \<Longrightarrow> Q s t"
  shows "client_calls Q cl"
  unfolding client_calls_def
  by (intro conjI allI resource_calls_mono [OF _ assms(2)] keeps_mono [OF _ assms(2)])
    (simp_all add: client_callsD [OF assms(1)])

text \<open>
  Only the scheduler reaches the cron library: no call of the API server, of the other
  libraries or of the rest of the world changes its jobs.
\<close>

locale operator_env =
  fixes p :: "'w parts" and l :: "'w logger option" and world :: "'w \<Rightarrow> 'w \<Rightarrow> bool"
    and jobs :: "'w \<Rightarrow> nat \<rightharpoonup> string \<times> namespaced_name" and lastId :: "'w \<Rightarrow> nat" and parses :: "string \<Rightarrow> bool"
  assumes cron: "cron_lib (sch_cron (pt_Scheduler p)) jobs lastId parses"
    and client_apart: "client_calls (jobs_same jobs lastId) (pt_Client p)"
    and scheduler_apart: "scheduler_calls (jobs_same jobs lastId) ((pt_Scheduler p)\<lparr>sch_Client := pt_Client p\<rparr>)"
    and probe_apart: "keeps (jobs_same jobs lastId) (call (hc_Get (pt_Checker p) url))"
    and clock_apart: "keeps (jobs_same jobs lastId) (call (hc_Now (pt_Checker p)))"
    and event_apart: "jobs_same jobs lastId s (s\<lparr>ext := Eventf (pt_Checker p) pc ty re msg (ext s)\<rparr>)"
    and log_exec_apart: "l = Some lg \<Longrightarrow> keeps (jobs_same jobs lastId) (call (ExecContext (db lg) stmt))"
    and log_count_apart: "l = Some lg \<Longrightarrow> keeps (jobs_same jobs lastId) (call (SelectCount (db lg)))"
    and log_select_apart: "l = Some lg \<Longrightarrow> keeps (jobs_same jobs lastId) (call (SelectEntries (db lg) c n))"
    and log_clock_apart: "l = Some lg \<Longrightarrow> keeps (jobs_same jobs lastId) (call (TimeNow (db lg)))"
    and world_apart: "world w w' \<Longrightarrow> jobs w' = jobs w \<and> lastId w' = lastId w"
begin

end

sublocale operator_env \<subseteq> registrar: backup_registrar "(pt_Scheduler p)\<lparr>sch_Client := pt_Client p\<rparr>" jobs lastId parses
  unfolding backup_registrar_def using cron by simp

context operator_env
begin

lemma same_relation: "call_relation (jobs_same jobs lastId :: 'w process \<Rightarrow> 'w process \<Rightarrow> bool)"
  by unfold_locales (auto simp: jobs_same_def reflp_def transp_def)

definition inv_kept :: "'w process \<Rightarrow> 'w process \<Rightarrow> bool" where
  "inv_kept s t \<longleftrightarrow> (registrar.one_job_each s \<longrightarrow> registrar.one_job_each t)"

lemma one_job_each_metrics: "registrar.one_job_each (s\<lparr>mets := m\<rparr>) \<longleftrightarrow> registrar.one_job_each s"
  by (simp add: registrar.one_job_each_def)

lemma inv_relation: "call_relation inv_kept"
  by unfold_locales (auto simp: inv_kept_def reflp_def transp_def one_job_each_metrics)

lemma same_inv: "jobs_same jobs lastId s t \<Longrightarrow> inv_kept s t"
  by (simp add: jobs_same_def inv_kept_def registrar.one_job_each_def)

lemma Reconcile_inv:
  assumes "Reconcile L (as_Reconciler (assemble fl p l)) k s = (r, t)" and "registrar.one_job_each s"
  shows "registrar.one_job_each t"
proof -
  have "keeps inv_kept (Reconcile L (as_Reconciler (assemble fl p l)) k)"
  proof (rule call_relation.Reconcile_keeps [OF inv_relation])
    show "client_calls inv_kept (Client (as_Reconciler (assemble fl p l)))"
      using client_calls_mono [OF client_apart same_inv] by (simp add: assemble_def Let_def)
    have "keeps inv_kept (Register ((pt_Scheduler p)\<lparr>sch_Client := pt_Client p\<rparr>) pc)" for pc
      by (rule keepsI) (simp add: inv_kept_def registrar.Register_invariant)
    then show "keeps inv_kept (reg pc)" if "BackupSchedule (as_Reconciler (assemble fl p l)) = Some reg" for reg pc
      using that by (auto simp: assemble_def Let_def split: if_splits)
  qed
  from keepsD [OF this assms(1)] assms(2) show ?thesis by (simp add: inv_kept_def)
qed

text \<open>Everything but a reconcile pass leaves the jobs and the entries alone.\<close>

lemma other_steps_same:
  assumes "operator_step L J world (assemble fl p l) s t"
  shows "(\<exists>k r. Reconcile L (as_Reconciler (assemble fl p l)) k s = (r, t)) \<or> jobs_same jobs lastId s t"
  using assms
proof cases
  case (reconcile_pass k r)
  then show ?thesis by blast
next
  case (set_pass k r)
  have "keeps (jobs_same jobs lastId) (ReconcileSet (as_SetReconciler (assemble fl p l)) k)"
    by (rule call_relation.ReconcileSet_keeps [OF same_relation]) (simp add: assemble_def Let_def client_apart)
  with set_pass show ?thesis by (blast dest: keepsD)
next
  case (cron_job S ns name u)
  then have "S = (pt_Scheduler p)\<lparr>sch_Client := pt_Client p\<rparr>"
    by (simp add: assemble_def Let_def split: if_splits)
  then have "keeps (jobs_same jobs lastId) (RunOnce S ns name)"
    using call_relation.RunOnce_keeps [OF same_relation scheduler_apart] by simp
  with cron_job show ?thesis by (blast dest: keepsD)
next
  case (health_tick H u)
  then have H: "H = (pt_Checker p)\<lparr>hc_Client := pt_Client p\<rparr>"
    by (simp add: assemble_def Let_def split: if_splits)
  have "keeps (jobs_same jobs lastId) (checkAll H)"
    by (rule call_relation.checkAll_keeps [OF same_relation])
      (simp_all add: H client_apart probe_apart clock_apart event_apart)
  with health_tick show ?thesis by (blast dest: keepsD)
next
  case (prune_tick lg)
  then have lg: "l = Some lg" by (simp add: assemble_def Let_def)
  have "jobs_same jobs lastId s (tick lg s)"
    by (rule call_relation.tick_keeps [OF same_relation log_exec_apart [OF lg] log_count_apart [OF lg] log_clock_apart [OF lg]])
  with prune_tick show ?thesis by simp
next
  case (api_request srv meth path op body resp)
  then have srv: "srv_Client srv = pt_Client p" "srv_Audit srv = l" "srv_Backup srv = None"
    by (auto simp: assemble_def Let_def split: if_splits)
  have "keeps (jobs_same jobs lastId) (Router J srv meth path op body)"
    by (rule call_relation.Router_keeps [OF same_relation])
      (simp_all add: srv client_apart log_exec_apart log_clock_apart log_select_apart)
  with api_request show ?thesis by (blast dest: keepsD)
next
  case (world_acts w)
  then show ?thesis using world_apart by (simp add: jobs_same_def)
qed

lemma reachable_inv:
  assumes "(operator_step L J world (assemble fl p l))\<^sup>*\<^sup>* s t" and "registrar.one_job_each s"
  shows "registrar.one_job_each t"
  using assms
proof (induction rule: rtranclp_induct)
  case (step t u)
  then have "registrar.one_job_each t" by simp
  with other_steps_same [OF step(2)] show ?case
    using Reconcile_inv same_inv by (auto simp: inv_kept_def)
qed

end

section \<open>Properties\<close>

text \<open>
  C5: at most one cron job per cluster, in every run of the whole operator. Whatever reconcile
  passes, set passes, cron jobs, health checks, pruning and API requests happen in whatever
  order and with whatever errors, and whatever users do to the stored objects: two jobs for the
  same cluster are the same job, it is the one the scheduler's map names, and the map never
  names one job for two clusters.
\<close>

theorem one_job_per_cluster_in_every_run:
  assumes "operator_env p l world jobs lastId parses"
    and "(operator_step L J world (assemble fl p l))\<^sup>*\<^sup>* s t"
    and "entries s = Map.empty" and "jobs (ext s) = Map.empty"
  shows "(\<forall>i j sched sched' job. jobs (ext t) i = Some (sched, job) \<and> jobs (ext t) j = Some (sched', job) \<longrightarrow> i = j) \<and>
    (\<forall>i sched job. jobs (ext t) i = Some (sched, job) \<longrightarrow> entries t (entry_key job) = Some i) \<and>
    (\<forall>k k' i. entries t k = Some i \<and> entries t k' = Some i \<longrightarrow> k = k')"
proof -
  have "cron_lib.one_job_each jobs lastId s"
    using cron_lib.one_job_each_def [OF operator_env.cron [OF assms(1)], of s] assms(3,4) by simp
  from operator_env.reachable_inv [OF assms(1,2) this]
  have inv: "cron_lib.one_job_each jobs lastId t" .
  note D = cron_lib.one_job_eachD [OF operator_env.cron [OF assms(1)] inv]
  show ?thesis by (metis D(1) D(3) option.inject)
qed

text \<open>
  The REST API can never trigger a backup. \<open>main\<close> builds the API server without the
  scheduler, whatever the flags, also when the scheduler runs: a request for a backup is always
  answered with the message that no scheduler is configured, and does nothing.
\<close>

theorem api_backup_never_configured:
  "case as_Api (assemble fl p l) of
     Some srv \<Rightarrow> enableAPI fl \<and>
       triggerBackup srv c s = (JSON 503 (ErrorBody ''backup scheduler not configured''), s)
   | None \<Rightarrow> \<not> enableAPI fl"
  by (simp add: assemble_def Let_def triggerBackup_def)


end
