(* ===== verification/MemoryKube.thy ===== *)
theory MemoryKube
  imports ClusterGuarantees AuditLog
begin

text \<open>
  A reference API server in memory. The laws of \<open>KubeClient\<close> are assumptions about code
  outside this repository; this theory shows that they can all hold at once: it keeps lists
  of objects, checks \<open>resourceVersion\<close> on updates, keeps finalized objects until their
  finalizers are gone, ignores status on an update and everything else on a status update,
  and defaults the replicas of a StatefulSet. The locales are interpreted on it, and so are
  the laws of the controller helpers on reference versions of them. The witnesses of the
  reconcilers' properties run on it.
\<close>

section \<open>Lists of objects by key\<close>

definition find_key :: "('o \<Rightarrow> 'k) \<Rightarrow> 'k \<Rightarrow> 'o list \<Rightarrow> 'o option" where
  "find_key key k xs = find (\<lambda>x. key x = k) xs"

definition drop_key :: "('o \<Rightarrow> 'k) \<Rightarrow> 'k \<Rightarrow> 'o list \<Rightarrow> 'o list" where
  "drop_key key k xs = filter (\<lambda>x. key x \<noteq> k) xs"

lemma find_key_Cons [simp]: "find_key key k (x # xs) = (if key x = k then Some x else find_key key k xs)"
  by (simp add: find_key_def)

lemma find_key_Nil [simp]: "find_key key k [] = None"
  by (simp add: find_key_def)

lemma find_key_drop [simp]: "find_key key k (drop_key key j xs) = (if k = j then None else find_key key k xs)"
  by (induction xs) (auto simp: drop_key_def)

lemma find_key_Some: "find_key key k xs = Some x \<Longrightarrow> key x = k"
  by (auto simp: find_key_def find_Some_iff)

text \<open>The first object of every key, as a list call returns them.\<close>

fun first_by :: "('o \<Rightarrow> 'k) \<Rightarrow> 'k list \<Rightarrow> 'o list \<Rightarrow> 'o list" where
  "first_by key seen [] = []"
| "first_by key seen (x # xs) =
     (if key x \<in> set seen then first_by key seen xs else x # first_by key (key x # seen) xs)"

lemma first_by_found:
  "x \<in> set (first_by key seen xs) \<Longrightarrow> find_key key (key x) xs = Some x \<and> key x \<notin> set seen"
proof (induction xs arbitrary: seen)
  case (Cons a xs)
  then show ?case using Cons.IH [of seen] Cons.IH [of "key a # seen"] by (auto split: if_splits)
qed simp

lemma first_by_complete:
  "find_key key k xs = Some x \<Longrightarrow> k \<notin> set seen \<Longrightarrow> x \<in> set (first_by key seen xs)"
proof (induction xs arbitrary: seen)
  case (Cons a xs)
  then show ?case using Cons.IH [of seen] Cons.IH [of "key a # seen"] by (auto split: if_splits)
qed simp

lemma first_by_distinct: "distinct (map key (first_by key seen xs))"
  by (induction xs arbitrary: seen) (auto dest!: first_by_found)

lemma find_key_in: "find_key key k xs = Some x \<Longrightarrow> x \<in> set xs"
  by (auto simp: find_key_def find_Some_iff)

section \<open>The store\<close>

text \<open>
  Beside the API server's objects, what else lives outside the process in the witnesses of
  the other components: the cron library's jobs, the bucket, the recorded events, the audit
  table.
\<close>

record mem =
  m_Clusters :: "prometheus_cluster list"
  m_ClusterSets :: "prometheus_cluster_set list"
  m_StatefulSets :: "stateful_set list"
  m_Services :: "service list"
  m_ConfigMaps :: "config_map list"
  m_Pods :: "pod list"
  m_Namespaces :: "namespace_object list"
  m_Clock :: nat
  m_Jobs :: "(nat \<times> string \<times> namespaced_name) list"
  m_LastJob :: nat
  m_Bucket :: "((string \<times> string) \<times> string) list"
  m_Events :: "string list"
  m_Rows :: "entry list"
  m_LastRow :: nat

definition empty_mem :: mem where
  "empty_mem = \<lparr>m_Clusters = [], m_ClusterSets = [], m_StatefulSets = [], m_Services = [],
     m_ConfigMaps = [], m_Pods = [], m_Namespaces = [], m_Clock = 0,
     m_Jobs = [], m_LastJob = 0, m_Bucket = [], m_Events = [], m_Rows = [], m_LastRow = 0\<rparr>"

definition mem_view :: "mem \<Rightarrow> store" where
  "mem_view w =
     \<lparr>v_Clusters = (\<lambda>k. find_key pc_key k (m_Clusters w)),
      v_ClusterSets = (\<lambda>k. find_key set_key k (m_ClusterSets w)),
      v_StatefulSets = (\<lambda>k. find_key sts_key k (m_StatefulSets w)),
      v_Services = (\<lambda>k. find_key (\<lambda>x. meta_key (svc_Meta x)) k (m_Services w)),
      v_ConfigMaps = (\<lambda>k. find_key (\<lambda>x. meta_key (cm_Meta x)) k (m_ConfigMaps w)),
      v_Pods = (\<lambda>k. find_key pod_key k (m_Pods w)),
      v_Namespaces = (\<lambda>k. find_key nso_key k (m_Namespaces w))\<rparr>"

definition version_at :: "nat \<Rightarrow> string" where
  "version_at n = replicate (Suc n) (CHR ''v'')"

record 'o mem_kind =
  objects :: "mem \<Rightarrow> 'o list"
  set_objects :: "'o list \<Rightarrow> mem \<Rightarrow> mem"
  meta_of :: "'o \<Rightarrow> object_meta"
  with_meta :: "object_meta \<Rightarrow> 'o \<Rightarrow> 'o"
  on_create :: "'o \<Rightarrow> 'o"
  on_update :: "'o \<Rightarrow> 'o \<Rightarrow> 'o"
  on_status :: "'o \<Rightarrow> 'o \<Rightarrow> 'o"

definition key_of :: "'o mem_kind \<Rightarrow> 'o \<Rightarrow> namespaced_name" where
  "key_of K x = meta_key (meta_of K x)"

definition stamp :: "'o mem_kind \<Rightarrow> mem \<Rightarrow> 'o \<Rightarrow> 'o" where
  "stamp K w x = with_meta K (with_version (meta_of K x) (version_at (m_Clock w))) x"

definition store_object :: "'o mem_kind \<Rightarrow> 'o \<Rightarrow> mem \<Rightarrow> mem" where
  "store_object K x w =
     (set_objects K (x # drop_key (key_of K) (key_of K x) (objects K w)) w)\<lparr>m_Clock := Suc (m_Clock w)\<rparr>"

definition remove_object :: "'o mem_kind \<Rightarrow> namespaced_name \<Rightarrow> mem \<Rightarrow> mem" where
  "remove_object K k w = set_objects K (drop_key (key_of K) k (objects K w)) w"

definition matches :: "list_options \<Rightarrow> object_meta \<Rightarrow> bool" where
  "matches opts m \<longleftrightarrow>
     (case lo_InNamespace opts of None \<Rightarrow> True | Some ns \<Rightarrow> Namespace m = ns) \<and>
     list_all (\<lambda>(l, v). Labels m l = Some v) (lo_MatchingLabels opts)"

definition mem_resource :: "'o mem_kind \<Rightarrow> (mem, 'o) resource" where
  "mem_resource K =
     \<lparr>Get = (\<lambda>k w. (case find_key (key_of K) k (objects K w) of
               None \<Rightarrow> Inl (StatusError NotFound ''not found'') | Some x \<Rightarrow> Inr x, w)),
      List = (\<lambda>opts w. (Inr (filter (\<lambda>x. matches opts (meta_of K x)) (first_by (key_of K) [] (objects K w))), w)),
      Create = (\<lambda>x w. case find_key (key_of K) (key_of K x) (objects K w) of
               Some _ \<Rightarrow> (Inl (StatusError AlreadyExists ''already exists''), w)
             | None \<Rightarrow> (let y = stamp K w (on_create K x) in (Inr y, store_object K y w))),
      Update = (\<lambda>x w. case find_key (key_of K) (key_of K x) (objects K w) of
               None \<Rightarrow> (Inl (StatusError NotFound ''not found''), w)
             | Some old \<Rightarrow>
                 if ResourceVersion (meta_of K x) \<noteq> ResourceVersion (meta_of K old)
                 then (Inl (StatusError Conflict ''conflict''), w)
                 else (let y = stamp K w (on_update K old x)
                       in if DeletionTimestamp (meta_of K old) \<noteq> None \<and> Finalizers (meta_of K old) \<noteq> [] \<and>
                             Finalizers (meta_of K y) = []
                          then (Inr y, remove_object K (key_of K x) w)
                          else (Inr y, store_object K y w))),
      StatusUpdate = (\<lambda>x w. case find_key (key_of K) (key_of K x) (objects K w) of
               None \<Rightarrow> (Inl (StatusError NotFound ''not found''), w)
             | Some old \<Rightarrow>
                 if ResourceVersion (meta_of K x) \<noteq> ResourceVersion (meta_of K old)
                 then (Inl (StatusError Conflict ''conflict''), w)
                 else (let y = stamp K w (on_status K old x) in (Inr y, store_object K y w))),
      Delete = (\<lambda>k w. case find_key (key_of K) k (objects K w) of
               None \<Rightarrow> (Inl (StatusError NotFound ''not found''), w)
             | Some old \<Rightarrow>
                 if Finalizers (meta_of K old) = [] then (Inr (), remove_object K k w)
                 else (let m = (meta_of K old)\<lparr>DeletionTimestamp := Some (int (m_Clock w))\<rparr>;
                           y = stamp K w (with_meta K m old)
                       in (Inr (), store_object K y w)))\<rparr>"

definition mem_create_or_update ::
    "'o mem_kind \<Rightarrow> 'o \<Rightarrow> ('o \<Rightarrow> 'o result) \<Rightarrow> mem \<Rightarrow> operation_result result \<times> mem" where
  "mem_create_or_update K x f w =
     (let found = find_key (key_of K) (key_of K x) (objects K w)
      in case f (case found of None \<Rightarrow> x | Some old \<Rightarrow> old) of
           Inl e \<Rightarrow> (Inl e, w)
         | Inr new \<Rightarrow>
             if key_of K new \<noteq> key_of K x then (Inl (ErrorString ''MutateFn cannot mutate object name''), w)
             else (Inr (if found = None then OperationCreated else OperationUpdated),
                   store_object K (stamp K w new) w))"

text \<open>What a kind has to say for itself so that the resource obeys the scope laws.\<close>

locale mem_kind_laws =
  fixes K :: "'o mem_kind" and lookup :: "store \<Rightarrow> namespaced_name \<Rightarrow> 'o option"
    and ident :: "namespaced_name \<Rightarrow> object_id"
  assumes lookup_view: "lookup (mem_view w) k = find_key (key_of K) k (objects K w)"
    and write_scope: "(\<And>j. j \<noteq> k \<Longrightarrow> find_key (key_of K) j xs = find_key (key_of K) j (objects K w)) \<Longrightarrow>
      same_except {ident k} (mem_view w) (mem_view (set_objects K xs w))"
    and objects_written: "objects K (set_objects K xs w) = xs"
    and objects_clock: "objects K (w\<lparr>m_Clock := n\<rparr>) = objects K w"
    and meta_written: "meta_of K (with_meta K m x) = m"
    and create_key: "key_of K (on_create K x) = key_of K x"
    and update_key: "key_of K x = key_of K old \<Longrightarrow> key_of K (on_update K old x) = key_of K old"
    and status_key: "key_of K x = key_of K old \<Longrightarrow> key_of K (on_status K old x) = key_of K old"
begin

lemma clock_view: "mem_view (w\<lparr>m_Clock := n\<rparr>) = mem_view w"
  by (simp add: mem_view_def)

lemma stamp_key: "key_of K (stamp K w x) = key_of K x"
  by (simp add: stamp_def key_of_def meta_written)

lemma store_scope: "same_except {ident (key_of K x)} (mem_view w) (mem_view (store_object K x w))"
  unfolding store_object_def clock_view by (rule write_scope) simp

lemma remove_scope: "same_except {ident k} (mem_view w) (mem_view (remove_object K k w))"
  unfolding remove_object_def by (rule write_scope) simp

lemma stored_lookup: "lookup (mem_view (store_object K x w)) (key_of K x) = Some x"
  by (simp add: lookup_view store_object_def objects_clock objects_written)

lemma removed_lookup: "lookup (mem_view (remove_object K k w)) k = None"
  by (simp add: lookup_view remove_object_def objects_written)

lemma resource_scope: "resource_scope (mem_resource K) mem_view lookup ident (key_of K)"
proof
  show "Get (mem_resource K) k w = (r, w') \<Longrightarrow> mem_view w' = mem_view w" for k w r w'
    by (auto simp: mem_resource_def)
  show "Get (mem_resource K) k w = (Inr x, w') \<Longrightarrow> lookup (mem_view w) k = Some x" for k w x w'
    by (auto simp: mem_resource_def lookup_view split: option.splits)
  show "lookup (mem_view w) k = Some x \<Longrightarrow> key_of K x = k" for w k x
    by (auto simp: lookup_view dest: find_key_Some)
  show "List (mem_resource K) opts w = (rs, w') \<Longrightarrow> mem_view w' = mem_view w" for opts w rs w'
    by (auto simp: mem_resource_def)
  show "Create (mem_resource K) x w = (r, w') \<Longrightarrow> same_except {ident (key_of K x)} (mem_view w) (mem_view w')"
    for x w r w'
    using store_scope [of "stamp K w (on_create K x)" w]
    by (auto simp: mem_resource_def stamp_key create_key Let_def split: option.splits)
  show "Update (mem_resource K) x w = (r, w') \<Longrightarrow> same_except {ident (key_of K x)} (mem_view w) (mem_view w')"
    for x w r w'
    using remove_scope [of "key_of K x" w]
    by (auto simp: mem_resource_def Let_def dest!: find_key_Some split: option.splits if_splits)
      (metis stamp_key update_key store_scope)+
  show "StatusUpdate (mem_resource K) x w = (r, w') \<Longrightarrow>
      same_except {ident (key_of K x)} (mem_view w) (mem_view w')" for x w r w'
    by (auto simp: mem_resource_def Let_def dest!: find_key_Some split: option.splits if_splits)
      (metis stamp_key status_key store_scope)+
  show "Delete (mem_resource K) k w = (u, w') \<Longrightarrow> same_except {ident k} (mem_view w) (mem_view w')"
    for k w u w'
  proof -
    assume run: "Delete (mem_resource K) k w = (u, w')"
    let ?y = "\<lambda>old. stamp K w (with_meta K ((meta_of K old)\<lparr>DeletionTimestamp := Some (int (m_Clock w))\<rparr>) old)"
    have "key_of K (?y old) = key_of K old" for old
      by (simp add: stamp_key) (simp add: key_of_def meta_written meta_key_def)
    then have "same_except {ident (key_of K old)} (mem_view w) (mem_view (store_object K (?y old) w))" for old
      using store_scope [of "?y old" w] by simp
    then show ?thesis
      using run remove_scope [of k w]
      by (auto simp: mem_resource_def Let_def dest!: find_key_Some split: option.splits if_splits)
  qed
qed

lemma create_or_update_scope:
  assumes "mem_create_or_update K x f w = (r, w')"
  shows "same_except {ident (key_of K x)} (mem_view w) (mem_view w')"
  using assms store_scope [of "stamp K w y" w for y]
  by (auto simp: mem_create_or_update_def Let_def stamp_key split: sum.splits if_splits) metis+

lemma create_or_update_stored:
  assumes "mem_create_or_update K x f w = (Inr op, w')"
  shows "\<exists>old new v. (lookup (mem_view w) (key_of K x) = Some old \<or>
      lookup (mem_view w) (key_of K x) = None \<and> old = x) \<and> f old = Inr new \<and>
      lookup (mem_view w') (key_of K x) = Some (with_meta K (with_version (meta_of K new) v) new)"
proof -
  let ?found = "find_key (key_of K) (key_of K x) (objects K w)"
  let ?old = "case ?found of None \<Rightarrow> x | Some old \<Rightarrow> old"
  obtain new where new: "f ?old = Inr new" "key_of K new = key_of K x"
    and w': "w' = store_object K (stamp K w new) w"
    using assms by (auto simp: mem_create_or_update_def Let_def split: sum.splits if_splits)
  have "lookup (mem_view w') (key_of K x) = Some (stamp K w new)"
    using stored_lookup [of "stamp K w new" w] by (simp add: w' stamp_key new(2))
  moreover have "lookup (mem_view w) (key_of K x) = Some ?old \<or>
      lookup (mem_view w) (key_of K x) = None \<and> ?old = x"
    by (auto simp: lookup_view split: option.splits)
  ultimately show ?thesis using new(1) unfolding stamp_def by blast
qed

lemma create_or_update_ok:
  assumes "f (case lookup (mem_view w) (key_of K x) of Some c \<Rightarrow> c | None \<Rightarrow> x) = Inr new"
    and "key_of K new = key_of K x"
  shows "\<exists>op w'. mem_create_or_update K x f w = (Inr op, w')"
  using assms by (simp add: mem_create_or_update_def lookup_view Let_def)

lemma update_outcome:
  assumes "Update (mem_resource K) x w = (r, w')" and "lookup (mem_view w) (key_of K x) = Some old"
  shows "(\<exists>e. r = Inl e \<and> w' = w \<and> ResourceVersion (meta_of K x) \<noteq> ResourceVersion (meta_of K old)) \<or>
    (\<exists>v y. y = with_meta K (with_version (meta_of K (on_update K old x)) v) (on_update K old x) \<and> r = Inr y \<and>
       (lookup (mem_view w') (key_of K x) = Some y \<or>
        lookup (mem_view w') (key_of K x) = None \<and> DeletionTimestamp (meta_of K old) \<noteq> None \<and>
          Finalizers (meta_of K y) \<noteq> Finalizers (meta_of K old)))"
proof -
  let ?y = "stamp K w (on_update K old x)"
  have old: "find_key (key_of K) (key_of K x) (objects K w) = Some old" using assms(2) by (simp add: lookup_view)
  then have key: "key_of K ?y = key_of K x" by (auto simp: stamp_key update_key dest!: find_key_Some)
  have l: "lookup (mem_view (store_object K ?y w)) (key_of K x) = Some ?y"
    using stored_lookup [of ?y w] unfolding key .
  show ?thesis
  proof (cases "ResourceVersion (meta_of K x) = ResourceVersion (meta_of K old)")
    case False
    then show ?thesis using assms(1) by (auto simp: mem_resource_def old)
  next
    case True
    then have "r = Inr ?y \<and> (w' = store_object K ?y w \<or>
        w' = remove_object K (key_of K x) w \<and> DeletionTimestamp (meta_of K old) \<noteq> None \<and>
          Finalizers (meta_of K ?y) \<noteq> Finalizers (meta_of K old))"
      using assms(1) by (auto simp: mem_resource_def old Let_def split: if_splits)
    then show ?thesis using l removed_lookup [of "key_of K x" w] unfolding stamp_def by blast
  qed
qed

lemma status_outcome:
  assumes "StatusUpdate (mem_resource K) x w = (r, w')"
  shows "(\<exists>e. r = Inl e \<and> w' = w \<and> (\<forall>old. lookup (mem_view w) (key_of K x) = Some old \<longrightarrow>
      ResourceVersion (meta_of K x) \<noteq> ResourceVersion (meta_of K old))) \<or>
    (\<exists>old v y. lookup (mem_view w) (key_of K x) = Some old \<and>
       y = with_meta K (with_version (meta_of K (on_status K old x)) v) (on_status K old x) \<and> r = Inr y \<and>
       lookup (mem_view w') (key_of K x) = Some y)"
proof (cases "find_key (key_of K) (key_of K x) (objects K w)")
  case None
  then show ?thesis using assms by (auto simp: mem_resource_def lookup_view)
next
  case (Some old)
  let ?y = "stamp K w (on_status K old x)"
  have key: "key_of K ?y = key_of K x" using Some by (auto simp: stamp_key status_key dest!: find_key_Some)
  have "lookup (mem_view (store_object K ?y w)) (key_of K x) = Some ?y"
    using stored_lookup [of ?y w] unfolding key .
  then show ?thesis
    using assms Some by (auto simp: mem_resource_def lookup_view Let_def stamp_def split: if_splits)
qed

end

section \<open>The client\<close>

definition mem_admit :: "stateful_set \<Rightarrow> stateful_set" where
  "mem_admit sts =
     sts\<lparr>sts_Replicas := Some (case sts_Replicas sts of None \<Rightarrow> 1 | Some n \<Rightarrow> n)\<rparr>"

definition cluster_kind :: "prometheus_cluster mem_kind" where
  "cluster_kind =
     \<lparr>objects = m_Clusters, set_objects = (\<lambda>xs w. w\<lparr>m_Clusters := xs\<rparr>), meta_of = pc_Meta,
      with_meta = (\<lambda>m x. x\<lparr>pc_Meta := m\<rparr>), on_create = (\<lambda>x. x),
      on_update = (\<lambda>old x. x\<lparr>pc_Meta := (pc_Meta x)\<lparr>UID := UID (pc_Meta old),
        DeletionTimestamp := DeletionTimestamp (pc_Meta old)\<rparr>, pc_Status := pc_Status old\<rparr>),
      on_status = (\<lambda>old x. old\<lparr>pc_Status := pc_Status x\<rparr>)\<rparr>"

definition cluster_set_kind :: "prometheus_cluster_set mem_kind" where
  "cluster_set_kind =
     \<lparr>objects = m_ClusterSets, set_objects = (\<lambda>xs w. w\<lparr>m_ClusterSets := xs\<rparr>), meta_of = set_Meta,
      with_meta = (\<lambda>m x. x\<lparr>set_Meta := m\<rparr>), on_create = (\<lambda>x. x),
      on_update = (\<lambda>old x. x\<lparr>set_Status := set_Status old\<rparr>),
      on_status = (\<lambda>old x. old\<lparr>set_Status := set_Status x\<rparr>)\<rparr>"

definition sts_kind :: "stateful_set mem_kind" where
  "sts_kind =
     \<lparr>objects = m_StatefulSets, set_objects = (\<lambda>xs w. w\<lparr>m_StatefulSets := xs\<rparr>), meta_of = sts_Meta,
      with_meta = (\<lambda>m x. x\<lparr>sts_Meta := m\<rparr>),
      on_create = (\<lambda>x. (mem_admit x)\<lparr>sts_ReadyReplicas := 0\<rparr>),
      on_update = (\<lambda>old x. (mem_admit x)\<lparr>sts_ReadyReplicas := sts_ReadyReplicas old\<rparr>),
      on_status = (\<lambda>old x. old\<lparr>sts_ReadyReplicas := sts_ReadyReplicas x\<rparr>)\<rparr>"

definition pod_kind :: "pod mem_kind" where
  "pod_kind =
     \<lparr>objects = m_Pods, set_objects = (\<lambda>xs w. w\<lparr>m_Pods := xs\<rparr>), meta_of = pod_Meta,
      with_meta = (\<lambda>m x. x\<lparr>pod_Meta := m\<rparr>), on_create = (\<lambda>x. x),
      on_update = (\<lambda>old x. x), on_status = (\<lambda>old x. x)\<rparr>"

definition namespace_kind :: "namespace_object mem_kind" where
  "namespace_kind =
     \<lparr>objects = m_Namespaces, set_objects = (\<lambda>xs w. w\<lparr>m_Namespaces := xs\<rparr>), meta_of = nso_Meta,
      with_meta = (\<lambda>m x. x\<lparr>nso_Meta := m\<rparr>), on_create = (\<lambda>x. x),
      on_update = (\<lambda>old x. x), on_status = (\<lambda>old x. x)\<rparr>"

definition config_map_kind :: "config_map mem_kind" where
  "config_map_kind =
     \<lparr>objects = m_ConfigMaps, set_objects = (\<lambda>xs w. w\<lparr>m_ConfigMaps := xs\<rparr>), meta_of = cm_Meta,
      with_meta = (\<lambda>m x. x\<lparr>cm_Meta := m\<rparr>), on_create = (\<lambda>x. x),
      on_update = (\<lambda>old x. x), on_status = (\<lambda>old x. x)\<rparr>"

definition service_kind :: "service mem_kind" where
  "service_kind =
     \<lparr>objects = m_Services, set_objects = (\<lambda>xs w. w\<lparr>m_Services := xs\<rparr>), meta_of = svc_Meta,
      with_meta = (\<lambda>m x. x\<lparr>svc_Meta := m\<rparr>), on_create = (\<lambda>x. x),
      on_update = (\<lambda>old x. x), on_status = (\<lambda>old x. x)\<rparr>"

lemma kind_keys [simp]:
  "key_of cluster_kind = pc_key" "key_of cluster_set_kind = set_key" "key_of sts_kind = sts_key"
  "key_of pod_kind = pod_key" "key_of namespace_kind = nso_key"
  "key_of config_map_kind = (\<lambda>x. meta_key (cm_Meta x))" "key_of service_kind = (\<lambda>x. meta_key (svc_Meta x))"
  by (auto simp: fun_eq_iff key_of_def cluster_kind_def cluster_set_kind_def sts_kind_def pod_kind_def
      namespace_kind_def config_map_kind_def service_kind_def pc_key_def set_key_def sts_key_def pod_key_def nso_key_def)

lemma mem_admit_fields [simp]:
  "sts_Meta (mem_admit x) = sts_Meta x" "sts_Template (mem_admit x) = sts_Template x"
  by (simp_all add: mem_admit_def)

definition mem_client :: "mem client" where
  "mem_client =
     \<lparr>Clusters = mem_resource cluster_kind, ClusterSets = mem_resource cluster_set_kind,
      StatefulSets = mem_resource sts_kind, Pods = mem_resource pod_kind,
      Namespaces = mem_resource namespace_kind,
      CreateOrUpdateConfigMap = mem_create_or_update config_map_kind,
      CreateOrUpdateService = mem_create_or_update service_kind\<rparr>"

interpretation mem_clusters: mem_kind_laws cluster_kind v_Clusters ClusterId
  by unfold_locales
    (simp_all add: mem_view_def same_except_def, simp_all add: cluster_kind_def key_of_def pc_key_def meta_key_def)

interpretation mem_sets: mem_kind_laws cluster_set_kind v_ClusterSets ClusterSetId
  by unfold_locales
    (simp_all add: mem_view_def same_except_def, simp_all add: cluster_set_kind_def key_of_def set_key_def)

interpretation mem_stss: mem_kind_laws sts_kind v_StatefulSets StatefulSetId
  by unfold_locales
    (simp_all add: mem_view_def same_except_def, simp_all add: sts_kind_def key_of_def sts_key_def)

interpretation mem_pods: mem_kind_laws pod_kind v_Pods PodId
  by unfold_locales
    (simp_all add: mem_view_def same_except_def, simp_all add: pod_kind_def key_of_def pod_key_def)

interpretation mem_namespaces: mem_kind_laws namespace_kind v_Namespaces NamespaceId
  by unfold_locales
    (simp_all add: mem_view_def same_except_def, simp_all add: namespace_kind_def key_of_def nso_key_def)

interpretation mem_config_maps: mem_kind_laws config_map_kind v_ConfigMaps ConfigMapId
  by unfold_locales
    (simp_all add: mem_view_def same_except_def, simp_all add: config_map_kind_def key_of_def)

interpretation mem_services: mem_kind_laws service_kind v_Services ServiceId
  by unfold_locales
    (simp_all add: mem_view_def same_except_def, simp_all add: service_kind_def key_of_def)

lemmas kind_defs = cluster_kind_def cluster_set_kind_def sts_kind_def pod_kind_def namespace_kind_def
  config_map_kind_def service_kind_def

lemma kind_fields [simp]:
  "meta_of cluster_kind = pc_Meta" "with_meta cluster_kind m pc = pc\<lparr>pc_Meta := m\<rparr>"
  "on_update cluster_kind old pc = pc\<lparr>pc_Meta := (pc_Meta pc)\<lparr>UID := UID (pc_Meta old),
     DeletionTimestamp := DeletionTimestamp (pc_Meta old)\<rparr>, pc_Status := pc_Status old\<rparr>"
  "on_status cluster_kind old pc = old\<lparr>pc_Status := pc_Status pc\<rparr>"
  "meta_of sts_kind = sts_Meta" "with_meta sts_kind m sts = sts\<lparr>sts_Meta := m\<rparr>"
  "on_create sts_kind sts = (mem_admit sts)\<lparr>sts_ReadyReplicas := 0\<rparr>"
  "on_update sts_kind sts0 sts = (mem_admit sts)\<lparr>sts_ReadyReplicas := sts_ReadyReplicas sts0\<rparr>"
  "meta_of config_map_kind = cm_Meta" "with_meta config_map_kind m cm = cm\<lparr>cm_Meta := m\<rparr>"
  "meta_of service_kind = svc_Meta" "with_meta service_kind m svc = svc\<lparr>svc_Meta := m\<rparr>"
  by (simp_all add: kind_defs)

lemma mem_client_fields [simp]:
  "Clusters mem_client = mem_resource cluster_kind" "ClusterSets mem_client = mem_resource cluster_set_kind"
  "StatefulSets mem_client = mem_resource sts_kind" "Pods mem_client = mem_resource pod_kind"
  "Namespaces mem_client = mem_resource namespace_kind"
  "CreateOrUpdateConfigMap mem_client = mem_create_or_update config_map_kind"
  "CreateOrUpdateService mem_client = mem_create_or_update service_kind"
  by (simp_all add: mem_client_def)

lemma same_identity_merge:
  "same_identity m m' \<Longrightarrow> m\<lparr>UID := UID m', DeletionTimestamp := DeletionTimestamp m'\<rparr> = m"
  by (simp add: same_identity_def)

lemma mem_cluster_update:
  assumes "Update (mem_resource cluster_kind) x w = (r, w')"
    and "v_Clusters (mem_view w) (pc_key x) = Some pc"
  shows "(\<exists>e. r = Inl e \<and> w' = w) \<or>
    (\<exists>v y. y = x\<lparr>pc_Status := pc_Status pc, pc_Meta := with_version ((pc_Meta x)\<lparr>UID := UID (pc_Meta pc),
              DeletionTimestamp := DeletionTimestamp (pc_Meta pc)\<rparr>) v\<rparr> \<and> r = Inr y \<and>
       (v_Clusters (mem_view w') (pc_key x) = Some y \<or>
        v_Clusters (mem_view w') (pc_key x) = None \<and> DeletionTimestamp (pc_Meta pc) \<noteq> None \<and>
          Finalizers (pc_Meta x) \<noteq> Finalizers (pc_Meta pc)))"
  using mem_clusters.update_outcome [OF assms(1)] assms(2) by auto

lemma mem_cluster_update_missing:
  "v_Clusters (mem_view w) (pc_key x) = None \<Longrightarrow> \<exists>e. Update (mem_resource cluster_kind) x w = (Inl e, w)"
  by (auto simp: mem_resource_def mem_clusters.lookup_view)

lemma mem_sts_create:
  assumes "Create (mem_resource sts_kind) x w = (Inr y, w')"
  shows "v_StatefulSets (mem_view w) (sts_key x) = None \<and> v_StatefulSets (mem_view w') (sts_key x) = Some y \<and>
    sts_Template y = sts_Template (mem_admit x) \<and> sts_Replicas y = sts_Replicas (mem_admit x)"
proof -
  let ?y = "stamp sts_kind w ((mem_admit x)\<lparr>sts_ReadyReplicas := 0\<rparr>)"
  have y: "y = ?y" "w' = store_object sts_kind ?y w" "v_StatefulSets (mem_view w) (sts_key x) = None"
    using assms by (auto simp: mem_resource_def mem_stss.lookup_view Let_def split: option.splits)
  have "sts_key ?y = sts_key x"
    using mem_stss.stamp_key mem_stss.create_key [of x] by simp
  then show ?thesis
    using y mem_stss.stored_lookup [of ?y w] by (simp add: stamp_def)
qed

lemma mem_sts_update:
  assumes "Update (mem_resource sts_kind) x w = (Inr y, w')"
    and "v_StatefulSets (mem_view w) (sts_key x) = Some sts0"
    and "sts_Meta x = sts_Meta sts0"
  shows "v_StatefulSets (mem_view w') (sts_key x) = Some y \<and>
    sts_Template y = sts_Template (mem_admit x) \<and> sts_Replicas y = sts_Replicas (mem_admit x) \<and>
    sts_ReadyReplicas y = sts_ReadyReplicas sts0"
  using mem_stss.update_outcome [OF assms(1)] assms(2,3) by auto

lemma cluster_update_order: "x\<lparr>pc_Status := a, pc_Meta := b\<rparr> = x\<lparr>pc_Meta := b, pc_Status := a\<rparr>"
  by simp

lemma mem_cluster_update_same:
  assumes "Update (mem_resource cluster_kind) x w = (r, w')"
    and "v_Clusters (mem_view w) (pc_key x) = Some pc" and "same_identity (pc_Meta x) (pc_Meta pc)"
  shows "(\<exists>e. r = Inl e \<and> w' = w) \<or>
    (\<exists>v y. y = x\<lparr>pc_Meta := with_version (pc_Meta x) v, pc_Status := pc_Status pc\<rparr> \<and> r = Inr y \<and>
       (v_Clusters (mem_view w') (pc_key x) = Some y \<or> v_Clusters (mem_view w') (pc_key x) = None))"
  using mem_cluster_update [OF assms(1,2)] unfolding same_identity_merge [OF assms(3)] cluster_update_order by auto

lemma mem_cluster_update_key:
  "Update (mem_resource cluster_kind) x w = (Inr y, w') \<Longrightarrow> pc_key y = pc_key x"
  using mem_cluster_update_missing [of w x] mem_cluster_update [of x w "Inr y" w']
  by (cases "v_Clusters (mem_view w) (pc_key x)") (auto simp: pc_key_def meta_key_def)

lemma mem_cluster_update_kept:
  "Update (mem_resource cluster_kind) x w = (r, w') \<Longrightarrow> v_Clusters (mem_view w) (pc_key x) = Some pc \<Longrightarrow>
     DeletionTimestamp (pc_Meta pc) = None \<or> Finalizers (pc_Meta x) = Finalizers (pc_Meta pc) \<Longrightarrow>
     v_Clusters (mem_view w') (pc_key x) \<noteq> None"
  by (drule (1) mem_cluster_update) auto

lemma mem_cluster_status:
  assumes "StatusUpdate (mem_resource cluster_kind) x w = (r, w')"
  shows "(\<exists>e. r = Inl e \<and> w' = w) \<or>
    (\<exists>pc v y. v_Clusters (mem_view w) (pc_key x) = Some pc \<and>
       y = pc\<lparr>pc_Meta := with_version (pc_Meta pc) v, pc_Status := pc_Status x\<rparr> \<and> r = Inr y \<and>
       v_Clusters (mem_view w') (pc_key x) = Some y)"
  using mem_clusters.status_outcome [OF assms] by (auto simp: cluster_update_order)

lemma mem_view_keys:
  "v_ConfigMaps (mem_view w) k = Some c \<Longrightarrow> meta_key (cm_Meta c) = k"
  "v_Services (mem_view w) k = Some v \<Longrightarrow> meta_key (svc_Meta v) = k"
  by (auto simp: mem_view_def dest: find_key_Some)

interpretation mem_kube: kube_scope mem_client mem_view mem_admit
proof -
  note scopes = mem_clusters.resource_scope mem_sets.resource_scope mem_stss.resource_scope
    mem_pods.resource_scope mem_namespaces.resource_scope
  have "kube_scope_axioms mem_client mem_view mem_admit"
    apply (unfold_locales)
    subgoal using mem_config_maps.create_or_update_scope by fastforce
    subgoal using mem_config_maps.create_or_update_stored by fastforce
    subgoal using mem_services.create_or_update_scope by fastforce
    subgoal using mem_services.create_or_update_stored by fastforce
    subgoal by (rule mem_view_keys)
    subgoal by (rule mem_view_keys)
    subgoal by (auto dest!: mem_cluster_update_same)
    subgoal by (auto dest: mem_cluster_update_kept)
    subgoal by (auto dest!: mem_cluster_update_same)
    subgoal by (auto dest: mem_cluster_update_key)
    subgoal by (auto dest!: mem_cluster_status)
    subgoal by (auto dest!: mem_cluster_status)
    subgoal by (simp add: mem_sts_create)
    subgoal by (simp add: mem_sts_update)
    subgoal by (simp add: mem_admit_def)
    subgoal by simp
    done
  with scopes show "kube_scope mem_client mem_view mem_admit"
    by (simp add: kube_scope_def)
qed

lemma mem_get [simp]:
  "Get (mem_resource cluster_kind) k w =
     (case v_Clusters (mem_view w) k of None \<Rightarrow> Inl (StatusError NotFound ''not found'') | Some x \<Rightarrow> Inr x, w)"
  "Get (mem_resource sts_kind) k w =
     (case v_StatefulSets (mem_view w) k of None \<Rightarrow> Inl (StatusError NotFound ''not found'') | Some y \<Rightarrow> Inr y, w)"
  by (simp_all add: mem_resource_def mem_clusters.lookup_view mem_stss.lookup_view)

lemma mem_status_ok:
  assumes "v_Clusters (mem_view w) (pc_key pc) = Some old"
    and "ResourceVersion (pc_Meta pc) = ResourceVersion (pc_Meta old)"
  shows "\<exists>new w'. StatusUpdate (mem_resource cluster_kind) pc w = (Inr new, w')"
proof -
  obtain r w' where run: "StatusUpdate (mem_resource cluster_kind) pc w = (r, w')" by fastforce
  from mem_clusters.status_outcome [OF run] assms run show ?thesis by auto
qed

lemma mem_update_ok:
  assumes "v_Clusters (mem_view w) (pc_key pc) = Some old"
    and "ResourceVersion (pc_Meta pc) = ResourceVersion (pc_Meta old)"
  shows "\<exists>new w'. Update (mem_resource cluster_kind) pc w = (Inr new, w')"
proof -
  obtain r w' where run: "Update (mem_resource cluster_kind) pc w = (r, w')" by fastforce
  from mem_clusters.update_outcome [OF run] assms run show ?thesis by auto
qed

lemma mem_sts_update_ok:
  assumes "v_StatefulSets (mem_view w) (sts_key sts) = Some sts0"
    and "ResourceVersion (sts_Meta sts) = ResourceVersion (sts_Meta sts0)"
  shows "\<exists>new w'. Update (mem_resource sts_kind) sts w = (Inr new, w')"
proof -
  obtain r w' where run: "Update (mem_resource sts_kind) sts w = (r, w')" by fastforce
  from mem_stss.update_outcome [OF run] assms run show ?thesis by auto
qed

lemma mem_sts_create_ok:
  "v_StatefulSets (mem_view w) (sts_key sts) = None \<Longrightarrow>
     \<exists>new w'. Create (mem_resource sts_kind) sts w = (Inr new, w')"
  by (simp add: mem_resource_def mem_stss.lookup_view Let_def)

text \<open>
  The rules of the server: the names of Services and StatefulSets are labels of the domain name
  system, and a Service keeps its cluster address.
\<close>

definition dns_label :: "string \<Rightarrow> bool" where
  "dns_label s \<longleftrightarrow>
     s \<noteq> [] \<and> length s \<le> 63 \<and> hd s \<in> set ''abcdefghijklmnopqrstuvwxyz'' \<and> last s \<noteq> CHR ''-'' \<and>
     list_all (\<lambda>c. c \<in> set ''abcdefghijklmnopqrstuvwxyz0123456789-'') s"

definition mem_admission :: admission where
  "mem_admission =
     \<lparr>adm_Cluster = (\<lambda>_ _. True), adm_ConfigMap = (\<lambda>_ _. True),
      adm_Service = (\<lambda>old new. dns_label (Name (svc_Meta new)) \<and>
        (case old of None \<Rightarrow> True | Some svc \<Rightarrow> svc_ClusterIP new = svc_ClusterIP svc)),
      adm_StatefulSet = (\<lambda>old new. dns_label (Name (sts_Meta new)))\<rparr>"

lemma mem_admission_simps [simp]:
  "adm_Cluster mem_admission pc pc'" "adm_ConfigMap mem_admission cm cm'"
  "adm_Service mem_admission svc svc' \<longleftrightarrow> dns_label (Name (svc_Meta svc')) \<and>
     (case svc of None \<Rightarrow> True | Some old \<Rightarrow> svc_ClusterIP svc' = svc_ClusterIP old)"
  "adm_StatefulSet mem_admission sts sts' \<longleftrightarrow> dns_label (Name (sts_Meta sts'))"
  by (simp_all add: mem_admission_def)

interpretation mem_idle: kube_live mem_client mem_view mem_admit mem_admission
  apply (unfold_locales)
  subgoal by simp
  subgoal by simp
  subgoal by simp
  subgoal using mem_update_ok by simp
  subgoal using mem_status_ok by simp
  subgoal using mem_sts_create_ok by simp
  subgoal using mem_sts_update_ok by simp
  subgoal for f w cm cm' using mem_config_maps.create_or_update_ok [of f w cm cm'] by simp
  subgoal for g w svc svc' using mem_services.create_or_update_ok [of g w svc svc'] by simp
  done

section \<open>The controller helpers\<close>

definition controller_ref :: "prometheus_cluster \<Rightarrow> owner_reference" where
  "controller_ref pc =
     \<lparr>or_Kind = ''PrometheusCluster'', or_Name = Name (pc_Meta pc), or_UID = UID (pc_Meta pc), or_Controller = True\<rparr>"

definition with_finalizers :: "prometheus_cluster \<Rightarrow> string list \<Rightarrow> prometheus_cluster" where
  "with_finalizers pc fs = pc\<lparr>pc_Meta := (pc_Meta pc)\<lparr>Finalizers := fs\<rparr>\<rparr>"

definition ref_lib :: reconcile_lib where
  "ref_lib =
     \<lparr>ContainsFinalizer = (\<lambda>pc f. f \<in> set (Finalizers (pc_Meta pc))),
      AddFinalizer = (\<lambda>pc f. if f \<in> set (Finalizers (pc_Meta pc)) then pc
        else with_finalizers pc (Finalizers (pc_Meta pc) @ [f])),
      RemoveFinalizer = (\<lambda>pc f. with_finalizers pc (filter (\<lambda>g. g \<noteq> f) (Finalizers (pc_Meta pc)))),
      SetControllerReference = (\<lambda>pc m.
        if list_ex (\<lambda>r. or_Controller r \<and> r \<noteq> controller_ref pc) (OwnerReferences m)
        then Inl (ErrorString ''already owned by another controller'')
        else Inr (m\<lparr>OwnerReferences :=
          (if controller_ref pc \<in> set (OwnerReferences m) then OwnerReferences m
           else OwnerReferences m @ [controller_ref pc])\<rparr>)),
      PodSpecDeepEqual = (=),
      Quantities = text_quantities,
      PrintTable = (\<lambda>_. False)\<rparr>"

lemma ref_lib_fields [simp]:
  "ContainsFinalizer ref_lib pc f \<longleftrightarrow> f \<in> set (Finalizers (pc_Meta pc))"
  "PodSpecDeepEqual ref_lib = (=)"
  "Quantities ref_lib = text_quantities" "PrintTable ref_lib = (\<lambda>_. False)"
  by (simp_all add: ref_lib_def)

lemma ref_owner:
  "SetControllerReference ref_lib pc m = Inr m' \<longleftrightarrow>
     (\<forall>r \<in> set (OwnerReferences m). or_Controller r \<longrightarrow> r = controller_ref pc) \<and>
     m' = m\<lparr>OwnerReferences :=
          (if controller_ref pc \<in> set (OwnerReferences m) then OwnerReferences m
           else OwnerReferences m @ [controller_ref pc])\<rparr>"
  by (auto simp: ref_lib_def list_ex_iff)

lemma ref_owner_ok:
  "(\<exists>m'. SetControllerReference ref_lib pc m = Inr m') \<longleftrightarrow>
     (\<forall>r \<in> set (OwnerReferences m). or_Controller r \<longrightarrow> r = controller_ref pc)"
  by (simp add: ref_owner)

interpretation ref_util: controller_util ref_lib
proof
  show "\<exists>fs. AddFinalizer ref_lib pc f = pc\<lparr>pc_Meta := (pc_Meta pc)\<lparr>Finalizers := fs\<rparr>\<rparr>" for pc f
    by (auto simp: ref_lib_def with_finalizers_def intro: exI [of _ "Finalizers (pc_Meta pc)"])
  show "\<exists>fs. RemoveFinalizer ref_lib pc f = pc\<lparr>pc_Meta := (pc_Meta pc)\<lparr>Finalizers := fs\<rparr>\<rparr>" for pc f
    by (auto simp: ref_lib_def with_finalizers_def)
  show "ContainsFinalizer ref_lib (AddFinalizer ref_lib pc f) f"
    "\<not> ContainsFinalizer ref_lib (RemoveFinalizer ref_lib pc f) f" for pc f
    by (auto simp: ref_lib_def with_finalizers_def)
  show "\<exists>os. m' = m\<lparr>OwnerReferences := os\<rparr>" if "SetControllerReference ref_lib pc m = Inr m'" for pc m m'
    using that unfolding ref_owner by blast
  show "\<exists>m'. SetControllerReference ref_lib pc m = Inr m'" if "OwnerReferences m = []" for pc m
    by (simp add: ref_owner_ok that)
  show "\<exists>r. SetControllerReference ref_lib pc m'' = Inr r"
    if "SetControllerReference ref_lib pc m = Inr m'" "OwnerReferences m'' = OwnerReferences m'" for pc m m' m''
    using that unfolding ref_owner_ok ref_owner by (auto split: if_splits)
  show "SetControllerReference ref_lib pc m = SetControllerReference ref_lib pc' m"
    if "pc_key pc = pc_key pc'" "UID (pc_Meta pc) = UID (pc_Meta pc')" for pc pc' m
  proof -
    have "controller_ref pc = controller_ref pc'"
      using that by (simp add: controller_ref_def pc_key_def meta_key_def)
    then show ?thesis by (simp add: ref_lib_def)
  qed
qed simp_all

section \<open>The reconciler on the reference server\<close>

definition mem_reconciler :: "mem cluster_reconciler" where
  "mem_reconciler = \<lparr>Client = mem_client, BackupSchedule = None\<rparr>"

lemma mem_reconciler_fields [simp]:
  "Client mem_reconciler = mem_client" "BackupSchedule mem_reconciler = None"
  by (simp_all add: mem_reconciler_def)

interpretation mem_pass: cluster_reconcile mem_reconciler mem_view mem_admit ref_lib
  unfolding cluster_reconcile_def mem_reconciler_fields
  using mem_kube.kube_scope_axioms ref_util.controller_util_axioms
  by (simp add: cluster_reconcile_axioms_def)

interpretation mem_live: cluster_reconcile_live mem_reconciler mem_view mem_admit ref_lib mem_admission
  unfolding cluster_reconcile_live_def mem_reconciler_fields
  using mem_pass.cluster_reconcile_axioms mem_idle.kube_live_axioms by simp

end
