(* ===== verification/ClusterWitnesses.thy ===== *)
theory ClusterWitnesses
  imports MemoryKube
begin

text \<open>
  The properties of a reconcile pass at concrete states of the reference API server: a store
  that holds one PrometheusCluster, new, adopted, or under deletion.
\<close>

definition demo_key :: namespaced_name where
  "demo_key = (''monitoring'', ''demo'')"

definition demo_cluster :: "string list \<Rightarrow> timestamp option \<Rightarrow> prometheus_cluster" where
  "demo_cluster fs deleted = zero_cluster
     \<lparr>pc_Meta := zero_meta\<lparr>Name := ''demo'', Namespace := ''monitoring'', UID := ''u1'',
        Finalizers := fs, DeletionTimestamp := deleted\<rparr>,
      pc_Spec := zero_spec\<lparr>sp_Replicas := 2, sp_Image := ''prom/prometheus:v2'', sp_Retention := ''15d''\<rparr>\<rparr>"

definition demo_process :: "prometheus_cluster \<Rightarrow> mem process" where
  "demo_process pc = \<lparr>ext = empty_mem\<lparr>m_Clusters := [pc]\<rparr>, mets = no_metrics, entries = Map.empty\<rparr>"

lemma demo_cluster_fields [simp]:
  "pc_key (demo_cluster fs d) = demo_key" "Finalizers (pc_Meta (demo_cluster fs d)) = fs"
  "DeletionTimestamp (pc_Meta (demo_cluster fs d)) = d"
  "bk_Enabled (sp_Backup (pc_Spec (demo_cluster fs d))) = False"
  by (simp_all add: demo_cluster_def zero_value_defs pc_key_def meta_key_def demo_key_def)

lemma demo_store [simp]:
  "v_Clusters (mem_view (ext (demo_process (demo_cluster fs d)))) demo_key = Some (demo_cluster fs d)"
  "v_StatefulSets (mem_view (ext (demo_process pc))) k = None"
  by (simp_all add: demo_process_def mem_view_def empty_mem_def)

lemma demo_adoptable [simp]: "adoptable L pc (mem_view (ext (demo_process pc')))"
  by (simp add: adoptable_def demo_process_def mem_view_def empty_mem_def)

text \<open>The server accepts the objects of a cluster with a proper name that meets no Service.\<close>

lemma acceptable_by_name:
  assumes "dns_label (Name (pc_Meta pc))" and "v_Services (mem_view w) (pc_key pc) = None"
  shows "acceptable mem_admission ref_lib pc (mem_view w)"
proof -
  have svc: "Name (svc_Meta new) = Name (pc_Meta pc)" if "mutateService ref_lib pc (new_service pc) = Inr new" for new
    using that ref_util.owner_key by (auto simp: mutateService_def Let_def new_service_def meta_key_def split: sum.splits)
  have built: "Name (sts_Meta (buildStatefulSet Q pc)) = Name (pc_Meta pc)" for Q
    by (simp add: buildStatefulSet_def Let_def)
  have sts: "Name m = Name (pc_Meta pc)"
    if "SetControllerReference ref_lib pc (sts_Meta (buildStatefulSet Q pc)) = Inr m" for m Q
    using ref_util.owner_key [OF that] built by (simp add: meta_key_def)
  have old: "Name (sts_Meta x) = Name (pc_Meta pc)" if "v_StatefulSets (mem_view w) (pc_key pc) = Some x" for x
    using mem_kube.stss.stored_key [OF that] by (simp add: sts_key_def pc_key_def meta_key_def)
  show ?thesis
    using assms svc sts old by (auto simp: acceptable_def Let_def split: option.splits)
qed

lemma demo_acceptable [simp]:
  "acceptable mem_admission ref_lib (demo_cluster fs d) (mem_view (ext (demo_process pc')))"
  by (rule acceptable_by_name)
    (simp_all add: demo_cluster_def zero_value_defs dns_label_def demo_process_def mem_view_def empty_mem_def)

lemma demo_registers [simp]: "registers mem_reconciler pc"
  by (simp add: registers_def)

lemma demo_pass:
  obtains res t where "Reconcile ref_lib mem_reconciler demo_key
      (demo_process (demo_cluster [finalizerName] None)) = (Inr res, t)"
    and "v_StatefulSets (mem_view (ext t)) demo_key \<noteq> None"
    and "v_Clusters (mem_view (ext t)) demo_key \<noteq> None"
    and "v_Services (mem_view (ext t)) demo_key \<noteq> None"
proof -
  let ?s = "demo_process (demo_cluster [finalizerName] None)"
  obtain res t where run: "Reconcile ref_lib mem_reconciler demo_key ?s = (Inr res, t)"
    and conv: "converged ref_lib mem_admit (demo_cluster [finalizerName] None) (mem_view (ext t))"
    and rep: "reported mem_view (demo_cluster [finalizerName] None)
      (fst (observed (demo_cluster [finalizerName] None) (mem_view (ext ?s))))
      (snd (observed (demo_cluster [finalizerName] None) (mem_view (ext ?s)))) ?s t"
    using mem_live.Reconcile_live [of ?s demo_key "demo_cluster [finalizerName] None"] by auto
  have "v_StatefulSets (mem_view (ext t)) demo_key \<noteq> None" "v_Services (mem_view (ext t)) demo_key \<noteq> None"
    using conv by (auto simp: converged_def sts_in_place_def service_in_place_def)
  moreover have "v_Clusters (mem_view (ext t)) demo_key \<noteq> None"
    using rep by (auto simp: reported_def)
  ultimately show ?thesis using run that by blast
qed

text \<open>After a pass the Service is headless, so that the next pass does not change its address.\<close>

lemma demo_pass_acceptable:
  assumes "Reconcile ref_lib mem_reconciler demo_key (demo_process (demo_cluster [finalizerName] None)) = (Inr res, t)"
  shows "acceptable mem_admission ref_lib (demo_cluster [finalizerName] None) (mem_view (ext t))"
proof -
  let ?pc = "demo_cluster [finalizerName] None"
  have "service_in_place ref_lib ?pc (mem_view (ext t))"
    using mem_pass.Reconcile_ok [OF _ _ _ assms, of ?pc "ext (demo_process ?pc)"] by (auto simp: converged_def)
  then have headless: "svc_ClusterIP svc = ''None''" if "v_Services (mem_view (ext t)) demo_key = Some svc" for svc
    using that by (auto simp: service_in_place_def)
  have name: "Name (pc_Meta ?pc) = ''demo''" "dns_label ''demo''"
    by (simp_all add: demo_cluster_def zero_value_defs dns_label_def)
  have svc: "Name (svc_Meta new) = ''demo'' \<and> svc_ClusterIP new = ''None''"
    if "mutateService ref_lib ?pc old = Inr new" "meta_key (svc_Meta old) = demo_key" for old new
    using that ref_util.owner_key by (auto simp: mutateService_def Let_def meta_key_def demo_key_def split: sum.splits)
  have stored: "meta_key (svc_Meta x) = demo_key" if "v_Services (mem_view (ext t)) demo_key = Some x" for x
    by (rule mem_kube.svc_key [OF that])
  have fresh: "meta_key (svc_Meta (new_service ?pc)) = demo_key"
    by (simp add: new_service_def meta_key_def demo_key_def demo_cluster_def zero_value_defs)
  have sts: "Name m = ''demo''" if "SetControllerReference ref_lib ?pc (sts_Meta (buildStatefulSet Q ?pc)) = Inr m" for m Q
    using ref_util.owner_key [OF that] name(1) by (simp add: meta_key_def buildStatefulSet_def Let_def)
  have old: "Name (sts_Meta x) = ''demo''" if "v_StatefulSets (mem_view (ext t)) demo_key = Some x" for x
    using mem_kube.stss.stored_key [OF that] by (simp add: sts_key_def demo_key_def meta_key_def)
  show ?thesis
    unfolding acceptable_def Let_def demo_cluster_fields
    using svc [OF _ stored] svc [OF _ fresh] headless sts old name(2) by (auto split: option.splits)
qed

theorem Reconcile_touches_own_objects_witness:
  "same_except (own_objects demo_key) (mem_view (ext (demo_process (demo_cluster [] None))))
     (mem_view (ext (snd (Reconcile ref_lib mem_reconciler demo_key (demo_process (demo_cluster [] None))))))"
  using Reconcile_touches_own_objects [OF mem_pass.cluster_reconcile_axioms prod.collapse [symmetric],
      of demo_key "demo_process (demo_cluster [] None)"] by blast

theorem Reconcile_success_witness:
  "\<exists>res t. Reconcile ref_lib mem_reconciler demo_key
        (demo_process (demo_cluster [finalizerName] None)) = (Inr res, t) \<and> \<not> Requeue res \<and>
     config_in_place ref_lib (demo_cluster [finalizerName] None) (mem_view (ext t))"
proof -
  obtain res t where run: "Reconcile ref_lib mem_reconciler demo_key
      (demo_process (demo_cluster [finalizerName] None)) = (Inr res, t)" by (rule demo_pass)
  then show ?thesis
    using Reconcile_success [OF mem_pass.cluster_reconcile_axioms _ _ _ run,
        of "demo_cluster [finalizerName] None" "ext (demo_process (demo_cluster [finalizerName] None))"]
    by auto
qed

theorem Reconcile_writes_status_only_witness:
  "\<exists>res t pc'. Reconcile ref_lib mem_reconciler demo_key
        (demo_process (demo_cluster [finalizerName] None)) = (Inr res, t) \<and>
     v_Clusters (mem_view (ext t)) demo_key = Some pc' \<and>
     pc_Spec pc' = pc_Spec (demo_cluster [finalizerName] None)"
proof -
  obtain res t pc' where run: "Reconcile ref_lib mem_reconciler demo_key
      (demo_process (demo_cluster [finalizerName] None)) = (Inr res, t)"
    and after: "v_Clusters (mem_view (ext t)) demo_key = Some pc'" by (rule demo_pass) auto
  show ?thesis
    using Reconcile_writes_status_only [OF mem_pass.cluster_reconcile_axioms _ run after,
        of "demo_cluster [finalizerName] None"] run after by auto
qed

theorem Reconcile_config_before_pods_witness:
  "\<exists>r t. Reconcile ref_lib mem_reconciler demo_key
        (demo_process (demo_cluster [finalizerName] None)) = (r, t) \<and>
     v_StatefulSets (mem_view (ext t)) demo_key \<noteq> None \<and>
     config_in_place ref_lib (demo_cluster [finalizerName] None) (mem_view (ext t))"
proof -
  obtain res t where run: "Reconcile ref_lib mem_reconciler demo_key
      (demo_process (demo_cluster [finalizerName] None)) = (Inr res, t)"
    and new: "v_StatefulSets (mem_view (ext t)) demo_key \<noteq> None" by (rule demo_pass)
  show ?thesis
    using Reconcile_config_before_pods [OF mem_pass.cluster_reconcile_axioms _ run,
        of "demo_cluster [finalizerName] None"] run new by auto
qed

theorem Reconcile_deletion_witness:
  "let s = demo_process (demo_cluster [finalizerName] (Some 7));
       t = snd (Reconcile ref_lib mem_reconciler demo_key s)
   in same_except {ClusterId demo_key} (mem_view (ext s)) (mem_view (ext t)) \<and>
      (case fst (Reconcile ref_lib mem_reconciler demo_key s) of Inl e \<Rightarrow> mets t = mets s
       | Inr res \<Rightarrow> series_removed demo_key (mets s) (mets t))"
  unfolding Let_def
  using Reconcile_deletion [OF mem_pass.cluster_reconcile_axioms _ _ prod.collapse [symmetric],
      of demo_key "demo_process (demo_cluster [finalizerName] (Some 7))" "demo_cluster [finalizerName] (Some 7)"
        "ext (demo_process (demo_cluster [finalizerName] (Some 7)))"]
  by (auto split: sum.splits)


theorem Reconcile_scaling_is_transient_witness:
  "\<exists>res t res' u pc''. Reconcile ref_lib mem_reconciler demo_key
        (demo_process (demo_cluster [finalizerName] None)) = (Inr res, t) \<and>
     Reconcile ref_lib mem_reconciler demo_key t = (Inr res', u) \<and>
     v_Clusters (mem_view (ext u)) demo_key = Some pc'' \<and> cs_Phase (pc_Status pc'') \<noteq> PhaseScaling"
proof -
  obtain res t where run: "Reconcile ref_lib mem_reconciler demo_key
      (demo_process (demo_cluster [finalizerName] None)) = (Inr res, t)" by (rule demo_pass)
  have "PhaseProvisioning \<noteq> PhaseScaling" "PhaseActive \<noteq> PhaseScaling" by (simp_all add: phase_defs)
  moreover have "acceptable mem_admission ref_lib (demo_cluster [finalizerName] None) (mem_view (ext t))"
    by (rule demo_pass_acceptable [OF run])
  ultimately show ?thesis
    using Reconcile_scaling_is_transient [OF mem_live.cluster_reconcile_live_axioms _ _ _ run,
        of "demo_cluster [finalizerName] None"] run by (auto split: if_splits)
qed

end
