(* ===== verification/AuditWitnesses.thy ===== *)
theory AuditWitnesses
  imports ClusterWitnesses
begin

text \<open>
  A reference audit database in the world of \<open>MemoryKube\<close>: a list of rows with serial
  identifiers, times kept to the microsecond. The laws of \<open>audit_table\<close> are interpreted on it
  and the properties of the audit log are witnessed there.
\<close>

definition mem_micro :: "timestamp \<Rightarrow> timestamp" where
  "mem_micro t = t div 1000 * 1000"

definition mem_insert :: "entry \<Rightarrow> mem \<Rightarrow> int64 result result \<times> mem" where
  "mem_insert e w =
     (if ID e \<in> ID ` set (m_Rows w) then (Inl (ErrorString ''duplicate key''), w)
      else (Inr (Inr 1), w\<lparr>m_Rows := m_Rows w @ [e], m_LastRow := Suc (m_LastRow w)\<rparr>))"

definition mem_exec :: "statement \<Rightarrow> mem \<Rightarrow> int64 result result \<times> mem" where
  "mem_exec stmt w =
     (case stmt of
        InsertRow c op who ts r d \<Rightarrow>
          mem_insert \<lparr>ID = of_nat (Suc (m_LastRow w)), ClusterName = c, Operation = op, Operator = who,
            Timestamp = mem_micro ts, Result = r, Detail = d\<rparr> w
      | DeleteOlder before \<Rightarrow>
          (let kept = filter (\<lambda>r. mem_micro before \<le> Timestamp r) (m_Rows w);
               n = length (m_Rows w) - length kept
           in (if n < 2 ^ 63 then Inr (Inr (of_nat n)) else Inr (Inl (ErrorString ''overflow'')),
               w\<lparr>m_Rows := kept\<rparr>)))"

definition mem_select :: "string \<Rightarrow> int64 \<Rightarrow> mem \<Rightarrow> entry list result \<times> mem" where
  "mem_select c limit w =
     (Inr (take (nat (sint limit)) (sort_key (\<lambda>r. - Timestamp r) (rows_of c (m_Rows w)))), w)"

definition mem_count :: "mem \<Rightarrow> int64 result \<times> mem" where
  "mem_count w =
     (if length (m_Rows w) < 2 ^ 63 then Inr (of_nat (length (m_Rows w))) else Inl (ErrorString ''overflow''), w)"

definition mem_db :: "mem audit_db" where
  "mem_db = \<lparr>ExecContext = mem_exec, SelectEntries = mem_select, SelectCount = mem_count,
     TimeNow = (\<lambda>w. (int (m_Clock w), w))\<rparr>"

lemma mem_db_fields [simp]:
  "ExecContext mem_db = mem_exec" "SelectEntries mem_db = mem_select" "SelectCount mem_db = mem_count"
  "TimeNow mem_db = (\<lambda>w. (int (m_Clock w), w))"
  by (simp_all add: mem_db_def)

lemma sint_of_nat_64: "n < 2 ^ 63 \<Longrightarrow> sint (of_nat n :: int64) = int n"
  by (simp add: sint_uint signed_take_bit_int_eq_self unsigned_of_nat take_bit_int_eq_self take_bit_nat_eq_self of_nat_take_bit)

lemma newest_first_sort: "newest_first (sort_key (\<lambda>r. - Timestamp r) rows)"
proof -
  have "sorted (map (\<lambda>r. - Timestamp r) (sort_key (\<lambda>r. - Timestamp r) rows))" by simp
  then show ?thesis by (simp add: newest_first_def sorted_map)
qed

interpretation mem_audit: audit_table mem_db m_Rows "\<lambda>w. int (m_Clock w)" mem_micro
proof
  show "a \<le> b \<Longrightarrow> mem_micro a \<le> mem_micro b" for a b
    by (simp add: mem_micro_def zdiv_mono1)
  show "\<bar>mem_micro a - a\<bar> \<le> 1000" for a
    using pos_mod_bound [of 1000 a] pos_mod_sign [of 1000 a] div_mult_mod_eq [of a 1000]
    by (simp add: mem_micro_def)
  show "inserted mem_micro stmt (m_Rows w) (m_Rows w')" if "ExecContext mem_db stmt w = (Inr res, w')"
    for stmt w res w'
    using that by (cases stmt) (auto simp: mem_exec_def mem_insert_def inserted_def Let_def split: if_splits)
  show "sint n = int (length (m_Rows w)) - int (length (m_Rows w'))"
    if run: "ExecContext mem_db (DeleteOlder before) w = (Inr (Inr n), w')" for before w n w'
  proof -
    let ?kept = "filter (\<lambda>r. mem_micro before \<le> Timestamp r) (m_Rows w)"
    have "n = of_nat (length (m_Rows w) - length ?kept)" "length (m_Rows w) - length ?kept < 2 ^ 63"
      and "m_Rows w' = ?kept"
      using run by (auto simp: mem_exec_def Let_def split: if_splits simp del: of_nat_diff)
    moreover from this(2) have "sint (of_nat (length (m_Rows w) - length ?kept) :: int64) =
        int (length (m_Rows w) - length ?kept)"
      by (rule sint_of_nat_64)
    moreover have "int (length (m_Rows w) - length ?kept) = int (length (m_Rows w)) - int (length ?kept)"
      by (rule of_nat_diff) simp
    ultimately show ?thesis by (simp del: of_nat_diff)
  qed
  show "\<exists>rest. mset (out @ rest) = mset (rows_of c (m_Rows w)) \<and> newest_first (out @ rest) \<and>
      length out = min (nat (sint limit)) (length (rows_of c (m_Rows w)))"
    if run: "SelectEntries mem_db c limit w = (Inr out, w')" and "0 < sint limit" for c limit w out w'
  proof -
    let ?sorted = "sort_key (\<lambda>r. - Timestamp r) (rows_of c (m_Rows w))"
    have out: "out = take (nat (sint limit)) ?sorted" using run by (auto simp: mem_select_def)
    then show ?thesis
      using newest_first_sort [of "rows_of c (m_Rows w)"]
      by (intro exI [of _ "drop (nat (sint limit)) ?sorted"]) (simp add: min.commute del: mset_append)
  qed
  show "sint n = int (length (m_Rows w))" if "SelectCount mem_db w = (Inr n, w')" for w n w'
    using that by (auto simp: mem_count_def sint_of_nat_64 split: if_splits)
qed (auto simp: mem_exec_def mem_insert_def mem_select_def mem_count_def Let_def split: statement.splits if_splits)

section \<open>Witnesses\<close>

definition demo_logger :: "int64 \<Rightarrow> mem logger" where
  "demo_logger days = \<lparr>db = mem_db, RetentionDays = days, PruneInterval = 1 * Hour\<rparr>"

lemma demo_logger_fields [simp]: "db (demo_logger d) = mem_db" "RetentionDays (demo_logger d) = d"
  by (simp_all add: demo_logger_def)

definition row_at :: "int64 \<Rightarrow> timestamp \<Rightarrow> entry" where
  "row_at i ts = zero_entry\<lparr>ID := i, ClusterName := ''demo'', Operation := ''create'',
     Operator := ''anonymous'', Timestamp := ts, Result := ''success''\<rparr>"

text \<open>A log with one row from the beginning of time and one from just now, 30 days later.\<close>

definition demo_log :: "mem process" where
  "demo_log = \<lparr>ext = empty_mem\<lparr>m_Clock := nat (30 * day_ns), m_LastRow := 2,
     m_Rows := [row_at 1 1000, row_at 2 (30 * day_ns)]\<rparr>, mets = no_metrics, entries = Map.empty\<rparr>"

lemma demo_log_fields [simp]:
  "m_Rows (ext demo_log) = [row_at 1 1000, row_at 2 (30 * day_ns)]"
  "m_Clock (ext demo_log) = nat (30 * day_ns)"
  "Timestamp (row_at i ts) = ts" "ClusterName (row_at i ts) = ''demo''"
  by (simp_all add: demo_log_def row_at_def zero_entry_def)

lemma day_ns_nonneg [simp]: "0 \<le> day_ns"
  by (simp add: day_ns_def)

lemma few_rows_prune:
  "m_Rows w = m_Rows (ext demo_log) \<Longrightarrow> \<exists>n w'. ExecContext mem_db (DeleteOlder b) w = (Inr (Inr n), w')"
  by (simp add: mem_exec_def Let_def)

theorem pruner_keeps_recent_rows_witness:
  "row_at 2 (30 * day_ns) \<in> set (m_Rows (ext (StartPruner (demo_logger 7) [\<lambda>s. s] demo_log)))"
proof (rule pruner_keeps_recent_rows [where clock = "\<lambda>w. int (m_Clock w)" and micro = mem_micro])
  show "audit_table (db (demo_logger 7)) m_Rows (\<lambda>w. int (m_Clock w)) mem_micro"
    using mem_audit.audit_table_axioms by simp
  have clock: "m_Clock (ext (tick (demo_logger 7) s)) = m_Clock (ext s)" for s
    by (simp add: tick_def Prune_def RowCount_def attempt_def call_def mem_exec_def mem_count_def Let_def
        split: sum.splits)
  show "sint (RetentionDays (demo_logger 7)) \<le> 0 \<or>
      mem_micro (int (m_Clock (ext (StartPruner (demo_logger 7) [\<lambda>s. s] demo_log))) -
        sint (RetentionDays (demo_logger 7)) * day_ns) \<le> Timestamp (row_at 2 (30 * day_ns))"
    by (simp add: StartPruner_def clock mem_micro_def day_ns_def)
qed auto

theorem tick_prunes_expired_rows_witness:
  "m_Rows (ext (tick (demo_logger 7) demo_log)) = [row_at 2 (30 * day_ns)]"
proof -
  have "audit_table (db (demo_logger 7)) m_Rows (\<lambda>w. int (m_Clock w)) mem_micro"
    using mem_audit.audit_table_axioms by simp
  from tick_prunes_expired_rows [OF this, of demo_log] few_rows_prune
  obtain now where "int (m_Clock (ext demo_log)) \<le> now" "now \<le> int (m_Clock (ext (tick (demo_logger 7) demo_log)))"
    and rows: "m_Rows (ext (tick (demo_logger 7) demo_log)) =
      filter (\<lambda>r. mem_micro (now - 7 * day_ns) \<le> Timestamp r) (m_Rows (ext demo_log))"
    by auto
  moreover have "m_Clock (ext (tick (demo_logger 7) demo_log)) = m_Clock (ext demo_log)"
    by (simp add: tick_def Prune_def RowCount_def attempt_def call_def mem_exec_def mem_count_def Let_def
        split: sum.splits)
  ultimately have "now = 30 * day_ns" by simp
  then show ?thesis using rows by (simp add: mem_micro_def day_ns_def)
qed

theorem retention_overflow_empties_log_witness:
  "m_Rows (ext demo_log) \<noteq> [] \<and> m_Rows (ext (StartPruner (demo_logger 106752) [] demo_log)) = []"
proof -
  have "audit_table (db (demo_logger 106752)) m_Rows (\<lambda>w. int (m_Clock w)) mem_micro"
    using mem_audit.audit_table_axioms by simp
  then have "m_Rows (ext (StartPruner (demo_logger 106752) [] demo_log)) = []"
  proof (rule retention_overflow_empties_log)
    show "Timestamp r \<le> int (m_Clock (ext demo_log))" if "r \<in> set (m_Rows (ext demo_log))" for r
      using that by (auto simp: day_ns_def)
  qed (use few_rows_prune in simp_all)
  then show ?thesis by simp
qed

theorem Record_then_Query_witness:
  "\<exists>out i ts older s2. Query (demo_logger 0) ''demo'' 1 (snd (Record (demo_logger 0)
      (row_at 0 0\<lparr>Timestamp := 31 * day_ns\<rparr>) demo_log)) = (Inr out, s2) \<and>
    out = row_at 0 0\<lparr>ID := i, Timestamp := ts\<rparr> # older"
proof -
  let ?e = "row_at 0 0\<lparr>Timestamp := 31 * day_ns\<rparr>"
  have table: "audit_table (db (demo_logger 0)) m_Rows (\<lambda>w. int (m_Clock w)) mem_micro"
    using mem_audit.audit_table_axioms by simp
  obtain u s1 where rec: "Record (demo_logger 0) ?e demo_log = (Inr u, s1)"
    by (auto simp: Record_def attempt_def call_def mem_exec_def mem_insert_def day_ns_def
        demo_log_def row_at_def zero_entry_def)
  obtain out s2 where que: "Query (demo_logger 0) (ClusterName ?e) 1 s1 = (Inr out, s2)"
    by (auto simp: Query_def attempt_def call_def mem_select_def)
  have "\<exists>i ts older. out = ?e\<lparr>ID := i, Timestamp := ts\<rparr> # older"
    using Record_then_Query [OF table rec que] by (fastforce simp: day_ns_def mem_micro_def)
  then have "\<exists>i ts older. out = row_at 0 0\<lparr>ID := i, Timestamp := ts\<rparr> # older"
    by simp
  then show ?thesis using rec que by (auto simp: row_at_def zero_entry_def)
qed

end
