(* ===== verification/BackupWitnesses.thy ===== *)
theory BackupWitnesses
  imports BackupScheduler ClusterWitnesses
begin

text \<open>
  The laws of the backup scheduler's environment on the reference server: a cron library that
  keeps a list of jobs and hands out increasing identifiers, a bucket that keeps what is
  put into it, an HTTP client that gives a fixed answer and an executor that replays a
  transfer. The cluster reconciler is interpreted once more with this scheduler as its
  registrar. The properties of the scheduler are witnessed on it.
\<close>

definition mem_cron :: "mem cron" where
  "mem_cron =
     \<lparr>AddFunc = (\<lambda>sched job w.
        if sched = ''never'' then (Inl (ErrorString ''bad schedule''), w)
        else (Inr (Suc (m_LastJob w)),
              w\<lparr>m_Jobs := (Suc (m_LastJob w), sched, job) # m_Jobs w, m_LastJob := Suc (m_LastJob w)\<rparr>)),
      RemoveEntry = (\<lambda>i w. w\<lparr>m_Jobs := filter (\<lambda>(j, _). j \<noteq> i) (m_Jobs w)\<rparr>)\<rparr>"

definition mem_jobs :: "mem \<Rightarrow> nat \<rightharpoonup> string \<times> namespaced_name" where
  "mem_jobs w i = (if i \<le> m_LastJob w then map_of (m_Jobs w) i else None)"

definition mem_scheduler :: "http_response \<Rightarrow> transfer \<Rightarrow> mem scheduler" where
  "mem_scheduler answer T =
     \<lparr>sch_Client = mem_client,
      PutObject = (\<lambda>obj body w. (Inr (), w\<lparr>m_Bucket := ((po_Bucket obj, po_Key obj), body) # m_Bucket w\<rparr>)),
      sch_Exec = Some
        \<lparr>Exec = (\<lambda>_ w. (Inr (), w)),
         ExecInto = (\<lambda>_ obj w. (T, case tar_object T of
            Some content \<Rightarrow> w\<lparr>m_Bucket := ((po_Bucket obj, po_Key obj), content) # m_Bucket w\<rparr> | None \<Rightarrow> w))\<rparr>,
      HTTP_Do = (\<lambda>_ _ w. (Inr answer, w)),
      sch_cron = mem_cron,
      Unmarshal = (\<lambda>body. if body = ''ok'' then Some \<lparr>sr_Status = ''success'', sr_Name = ''snap''\<rparr> else None),
      Now = (\<lambda>w. (int (m_Clock w), w)),
      FormatTime = (\<lambda>_. ''20260101T000000Z'')\<rparr>"

lemma map_of_filter_key: "map_of (filter (\<lambda>(j, _). j \<noteq> i) xs) = (map_of xs)(i := None)"
  by (induction xs) auto

lemma mem_view_cron [simp]:
  "mem_view (w\<lparr>m_Jobs := js\<rparr>) = mem_view w" "mem_view (w\<lparr>m_LastJob := n\<rparr>) = mem_view w"
  "mem_view (w\<lparr>m_Bucket := b\<rparr>) = mem_view w"
  by (simp_all add: mem_view_def)

interpretation mem_crontab: cron_lib mem_cron mem_jobs m_LastJob "\<lambda>s. s \<noteq> ''never''"
proof
  show "i \<le> m_LastJob w" if "mem_jobs w i \<noteq> None" for w i
    using that by (simp add: mem_jobs_def split: if_splits)
  show "mem_jobs (RemoveEntry mem_cron i w) = (mem_jobs w)(i := None)" for i w
    by (rule ext) (simp add: mem_jobs_def mem_cron_def map_of_filter_key)
qed (auto simp: mem_cron_def mem_jobs_def split: if_splits)

lemma mem_scheduler_fields [simp]:
  "sch_Client (mem_scheduler a T) = mem_client" "sch_cron (mem_scheduler a T) = mem_cron"
  by (simp_all add: mem_scheduler_def)

interpretation mem_registrar: backup_registrar "mem_scheduler a T" mem_jobs m_LastJob "\<lambda>s. s \<noteq> ''never''"
  unfolding backup_registrar_def mem_scheduler_fields by (rule mem_crontab.cron_lib_axioms)

interpretation mem_backup: backup_env "mem_scheduler a T" mem_view mem_admit
proof -
  have "backup_env_axioms (mem_scheduler a T) mem_view"
    by unfold_locales (auto simp: mem_scheduler_def mem_cron_def split: option.splits if_splits)
  then show "backup_env (mem_scheduler a T) mem_view mem_admit"
    unfolding backup_env_def mem_scheduler_fields using mem_kube.kube_scope_axioms by simp
qed

definition mem_operator :: "http_response \<Rightarrow> transfer \<Rightarrow> mem cluster_reconciler" where
  "mem_operator a T = \<lparr>Client = mem_client, BackupSchedule = Some (Register (mem_scheduler a T))\<rparr>"

lemma mem_operator_fields [simp]:
  "Client (mem_operator a T) = mem_client" "BackupSchedule (mem_operator a T) = Some (Register (mem_scheduler a T))"
  by (simp_all add: mem_operator_def)

interpretation mem_operator_pass: cluster_reconcile "mem_operator a T" mem_view mem_admit ref_lib
proof -
  have "cluster_reconcile_axioms (mem_operator a T) mem_view"
    using mem_backup.Register_quiet [of a T]
    by unfold_locales (auto simp: mem_backup.quiet_def confined_def intro!: keepsI)
  then show "cluster_reconcile (mem_operator a T) mem_view mem_admit ref_lib"
    unfolding cluster_reconcile_def mem_operator_fields
    using mem_kube.kube_scope_axioms ref_util.controller_util_axioms by simp
qed

section \<open>Witnesses\<close>

definition backup_cluster :: "string \<Rightarrow> prometheus_cluster" where
  "backup_cluster schedule =
     (let pc = demo_cluster [finalizerName] None
      in pc\<lparr>pc_Spec := (pc_Spec pc)\<lparr>sp_Backup := zero_backup\<lparr>bk_Enabled := True, bk_Bucket := ''b'',
                 bk_Prefix := ''p'', bk_Schedule := schedule\<rparr>\<rparr>\<rparr>)"

lemma backup_cluster_fields [simp]:
  "bk_Enabled (sp_Backup (pc_Spec (backup_cluster x)))" "bk_Schedule (sp_Backup (pc_Spec (backup_cluster x))) = x"
  "pc_key (backup_cluster x) = demo_key"
  by (simp_all add: backup_cluster_def Let_def zero_backup_def pc_key_def demo_cluster_def demo_key_def
      meta_key_def zero_meta_def)

definition answer_page :: "int \<Rightarrow> string \<Rightarrow> http_response" where
  "answer_page code body = \<lparr>StatusCode = code, Body = Inr body\<rparr>"

abbreviation demo_scheduler :: "mem scheduler" where
  "demo_scheduler \<equiv> mem_scheduler (answer_page 403 ''forbidden'') (demo_transfer None)"

lemma demo_one_job_each: "mem_crontab.one_job_each (demo_process pc)"
  by (simp add: mem_crontab.one_job_each_def demo_process_def empty_mem_def mem_jobs_def)

theorem Register_keeps_one_job_each_witness:
  "mem_crontab.one_job_each (snd (Register demo_scheduler (backup_cluster ''@daily'')
      (demo_process (backup_cluster ''@daily''))))"
  using Register_keeps_one_job_each [OF mem_registrar.cron_lib_axioms demo_one_job_each prod.collapse [symmetric],
    of "answer_page 403 ''forbidden''" "demo_transfer None"] by simp

theorem Register_refines_schedule_map_witness:
  "schedule_map mem_jobs (snd (Register demo_scheduler (backup_cluster ''@daily'')
      (demo_process (backup_cluster ''@daily'')))) (entry_key demo_key) = Some (''@daily'', demo_key)"
  using Register_refines_schedule_map [OF mem_registrar.cron_lib_axioms demo_one_job_each prod.collapse [symmetric],
    of "answer_page 403 ''forbidden''" "demo_transfer None" "backup_cluster ''@daily''" "backup_cluster ''@daily''"]
  by (simp add: set_schedule_def Let_def)

theorem Register_replaces_job_witness:
  "\<exists>u t i. Register demo_scheduler (backup_cluster ''@daily'') (demo_process (backup_cluster ''@daily'')) = (Inr u, t) \<and>
     mem_jobs (ext t) i = Some (''@daily'', demo_key)"
proof -
  obtain u t where run:
    "Register demo_scheduler (backup_cluster ''@daily'') (demo_process (backup_cluster ''@daily'')) = (Inr u, t)"
    using mem_registrar.Register_total [of "backup_cluster ''@daily''" "answer_page 403 ''forbidden''" "demo_transfer None"]
    by auto
  let ?pc = "backup_cluster ''@daily''"
  have on: "bk_Enabled (sp_Backup (pc_Spec ?pc))" "bk_Schedule (sp_Backup (pc_Spec ?pc)) \<noteq> []" by simp_all
  from Register_replaces_job [OF mem_registrar.cron_lib_axioms demo_one_job_each run on, THEN conjunct1]
  obtain i where "\<forall>n sched job. mem_jobs (ext t) n = Some (sched, job) \<and> entry_key job = entry_key (pc_key ?pc) \<longleftrightarrow>
      n = i \<and> sched = bk_Schedule (sp_Backup (pc_Spec ?pc)) \<and> job = pc_key ?pc" by (rule exE)
  then have "mem_jobs (ext t) i = Some (bk_Schedule (sp_Backup (pc_Spec ?pc)), pc_key ?pc)" by blast
  with run show ?thesis unfolding backup_cluster_fields by blast
qed

theorem Register_failure_drops_job_witness:
  "\<exists>e t. Register demo_scheduler (backup_cluster ''never'') (demo_process (backup_cluster ''never'')) = (Inl e, t) \<and>
     entries t = entries (demo_process (backup_cluster ''never''))"
proof -
  obtain e t where run:
    "Register demo_scheduler (backup_cluster ''never'') (demo_process (backup_cluster ''never'')) = (Inl e, t)"
    by (simp add: Register_def attempt_def call_def mem_cron_def Let_def)
  then show ?thesis
    using Register_failure_drops_job [OF mem_registrar.cron_lib_axioms demo_one_job_each run] by auto
qed

theorem RunOnce_counts_once_witness:
  "\<exists>r t. RunOnce demo_scheduler ''monitoring'' ''nobody'' (demo_process (backup_cluster ''@daily'')) = (r, t) \<and>
     counter (BackupTotal (mets t)) (''monitoring'', ''nobody'', case r of Inr _ \<Rightarrow> ''success'' | Inl _ \<Rightarrow> ''error'') = 1"
proof -
  obtain r t where run:
    "RunOnce demo_scheduler ''monitoring'' ''nobody'' (demo_process (backup_cluster ''@daily'')) = (r, t)" by fastforce
  show ?thesis
    using RunOnce_counts_once [OF mem_backup.backup_env_axioms run] run
    by (simp add: demo_process_def no_metrics_def counter_def inc_def)
qed

theorem RunOnce_stamps_what_it_uploaded_witness:
  "same_except {ClusterId demo_key} (mem_view (ext (demo_process (backup_cluster ''@daily''))))
     (mem_view (ext (snd (RunOnce demo_scheduler ''monitoring'' ''demo'' (demo_process (backup_cluster ''@daily''))))))"
  using RunOnce_stamps_what_it_uploaded [OF mem_backup.backup_env_axioms prod.collapse [symmetric],
      where ns = "''monitoring''" and name = "''demo''"]
  by (simp add: demo_key_def)

theorem RunOnce_stores_error_answers_witness:
  "\<exists>t. RunOnce demo_scheduler ''monitoring'' ''demo'' (demo_process (backup_cluster ''@daily'')) = (Inr (), t) \<and>
     map_of (m_Bucket (ext t)) (''b'', ''p/demo/20260101T000000Z.tar'') = Some ''forbidden''"
proof -
  let ?pc = "backup_cluster ''@daily''" and ?s = "demo_process (backup_cluster ''@daily'')"
  let ?w = "(ext ?s)\<lparr>m_Bucket := [((''b'', ''p/demo/20260101T000000Z.tar''), ''forbidden'')]\<rparr>"
  have pc: "Name (pc_Meta ?pc) = ''demo''" "Namespace (pc_Meta ?pc) = ''monitoring''"
    "bk_Bucket (sp_Backup (pc_Spec ?pc)) = ''b''" "bk_Prefix (sp_Backup (pc_Spec ?pc)) = ''p''"
    by (simp_all add: backup_cluster_def Let_def demo_cluster_def zero_value_defs)
  have stored: "v_Clusters (mem_view (ext ?s)) (''monitoring'', ''demo'') = Some ?pc"
    using backup_cluster_fields(3) by (simp add: demo_process_def mem_view_def demo_key_def)
  have stored': "v_Clusters (mem_view ?w) (pc_key ?pc) = Some ?pc"
    using stored by (simp add: demo_key_def)
  let ?x = "?pc\<lparr>pc_Status := (pc_Status ?pc)\<lparr>cs_LastBackupTime := Some (int (m_Clock ?w))\<rparr>\<rparr>"
  have "pc_key ?x = pc_key ?pc" by (simp add: pc_key_def)
  then obtain new w' where upd: "StatusUpdate (mem_resource cluster_kind) ?x ?w = (Inr new, w')"
    using mem_status_ok [of ?w ?x ?pc] stored' by auto
  have "m_Bucket v' = m_Bucket v"
    if "StatusUpdate (mem_resource cluster_kind) x v = (r, v')" for x v r v'
    using that by (auto simp: mem_resource_def store_object_def cluster_kind_def Let_def
        split: option.splits if_splits)
  then have bucket: "m_Bucket w' = m_Bucket ?w" using upd by blast
  have "RunOnce demo_scheduler ''monitoring'' ''demo'' ?s = (Inr (), ?s\<lparr>ext := w', mets := (mets ?s)
      \<lparr>BackupTotal := inc (BackupTotal (mets ?s)) (''monitoring'', ''demo'', ''success'')\<rparr>\<rparr>)"
    by (rule RunOnce_stores_error_answers [where pc = ?pc and body = "''forbidden''" and code = 403 and
          ?w1.0 = "ext ?s" and ?w2.0 = "ext ?s" and ?w3.0 = "ext ?s" and ?w4.0 = ?w and ?w5.0 = ?w and
          now = 0 and stamp = "int (m_Clock ?w)" and pc' = new])
      (use stored upd pc in \<open>simp_all add: mem_scheduler_def answer_page_def backup_object_key_def
         demo_process_def empty_mem_def\<close>)
  then show ?thesis using bucket by simp
qed

end
