(* ===== verification/ApiWitnesses.thy ===== *)
theory ApiWitnesses
  imports RestApi AuditWitnesses BackupWitnesses
begin

text \<open>
  The REST API on the reference server: its client, its scheduler and its audit database share
  one world and keep apart in it, so the laws the API relies on hold together. The properties
  of the API are witnessed there.
\<close>

section \<open>What the reference server leaves alone\<close>

lemma mem_resource_frame:
  assumes "\<And>xs w. g (set_objects K xs w) = g w" and "\<And>n w. g (w\<lparr>m_Clock := n\<rparr>) = g w"
  shows "Get (mem_resource K) k w = (x, w') \<Longrightarrow> g w' = g w"
    and "Create (mem_resource K) y w = (r, w') \<Longrightarrow> g w' = g w"
    and "Update (mem_resource K) y w = (r, w') \<Longrightarrow> g w' = g w"
    and "StatusUpdate (mem_resource K) y w = (r, w') \<Longrightarrow> g w' = g w"
    and "Delete (mem_resource K) k w = (u, w') \<Longrightarrow> g w' = g w"
  using assms
  by (auto simp: mem_resource_def store_object_def remove_object_def Let_def split: option.splits if_splits)

lemma cluster_rows [simp]:
  "m_Rows (set_objects cluster_kind xs w) = m_Rows w" "m_Rows (w\<lparr>m_Clock := n\<rparr>) = m_Rows w"
  by (simp_all add: cluster_kind_def)

lemmas cluster_rows_frame = mem_resource_frame [where g = m_Rows and K = cluster_kind, OF cluster_rows]

lemma mem_exec_view: "mem_exec stmt w = (r, w') \<Longrightarrow> mem_view w' = mem_view w"
  by (auto simp: mem_exec_def mem_insert_def mem_view_def Let_def split: statement.splits if_splits)

lemma keeps_rows:
  assumes "\<And>w r w'. f w = (r, w') \<Longrightarrow> m_Rows w' = m_Rows w"
  shows "keeps (log_untouched m_Rows) (call f)"
  using assms by (intro keepsI) (auto simp: log_untouched_def elim!: callE)

lemma scheduler_rows: "scheduler_calls (log_untouched m_Rows) (mem_scheduler a T)"
proof -
  have tar: "sch_Exec (mem_scheduler a T) = Some E \<Longrightarrow> ExecInto E req obj w = (x, w') \<Longrightarrow> m_Rows w' = m_Rows w"
    and cmd: "sch_Exec (mem_scheduler a T) = Some E \<Longrightarrow> Exec E req w = (r, w') \<Longrightarrow> m_Rows w' = m_Rows w"
    and http: "HTTP_Do (mem_scheduler a T) m url w = (resp, w') \<Longrightarrow> m_Rows w' = m_Rows w"
    and put: "PutObject (mem_scheduler a T) obj body w = (r, w') \<Longrightarrow> m_Rows w' = m_Rows w"
    and now: "Now (mem_scheduler a T) w = (n, w') \<Longrightarrow> m_Rows w' = m_Rows w"
    for E req obj w x w' r m url resp body n
    by (auto simp: mem_scheduler_def split: option.splits)
  show ?thesis
    unfolding scheduler_calls_def mem_scheduler_fields mem_client_fields
    by (intro conjI allI impI keeps_rows)
      ((erule cluster_rows_frame(1) cluster_rows_frame(4) http put now | erule (1) cmd tar)+)
qed

section \<open>The server\<close>

definition mem_server :: "mem server" where
  "mem_server = \<lparr>srv_Client = mem_client, srv_Namespace = ''monitoring'',
     srv_Audit = Some (demo_logger 7), srv_Backup = Some demo_scheduler\<rparr>"

lemma mem_server_fields [simp]:
  "srv_Client mem_server = mem_client" "srv_Namespace mem_server = ''monitoring''"
  "srv_Audit mem_server = Some (demo_logger 7)" "srv_Backup mem_server = Some demo_scheduler"
  by (simp_all add: mem_server_def)

interpretation mem_api: api_env mem_server mem_view mem_admit
proof -
  have "api_env_axioms mem_server mem_view mem_admit"
    unfolding api_env_axioms_def mem_server_fields
    using mem_backup.backup_env_axioms by (auto simp: mem_select_def dest: mem_exec_view)
  then show "api_env mem_server mem_view mem_admit"
    unfolding api_env_def mem_server_fields using mem_kube.kube_scope_axioms by simp
qed

interpretation mem_api_log: api_log mem_server "demo_logger 7" m_Rows "\<lambda>w. int (m_Clock w)" mem_micro
proof (rule api_log.intro)
  show "audit_table (db (demo_logger 7)) m_Rows (\<lambda>w. int (m_Clock w)) mem_micro"
    using mem_audit.audit_table_axioms by simp
  show "scheduler_calls (log_untouched m_Rows) S" if "srv_Backup mem_server = Some S" for S
    using that scheduler_rows by auto
qed (use cluster_rows_frame in \<open>auto simp: mem_server_fields\<close>)

section \<open>Witnesses\<close>

definition demo_context :: gin_context where
  "demo_context = \<lparr>Param_name = ''demo'', X_Operator = ''alice'', ReqBody = []\<rparr>"

theorem api_request_effects_witness:
  "same_except {ClusterId (''monitoring'', ''demo'')}
     (mem_view (ext (demo_process (demo_cluster [] None))))
     (mem_view (ext (snd (Router (\<lambda>_. Inl NilDereference) mem_server DELETE [''api'', ''clusters'', ''demo''] ''alice'' []
        (demo_process (demo_cluster [] None))))))"
  using api_request_effects [OF mem_api.api_env_axioms prod.collapse [symmetric],
    where J = "\<lambda>_. Inl NilDereference" and meth = DELETE and path = "[''api'', ''clusters'', ''demo'']"
      and operator = "''alice''" and body = "[]" and s = "demo_process (demo_cluster [] None)"]
  by (simp add: named_cluster_def)

theorem api_audit_trail_witness:
  "\<exists>w t. deleteCluster mem_server demo_context (demo_process (demo_cluster [] None)) = (JSON 204 NoBody, t) \<and>
     submitted (demo_logger 7) m_Rows mem_micro demo_context ''demo'' ''delete'' ''success'' []
       ((demo_process (demo_cluster [] None))\<lparr>ext := w\<rparr>) t"
proof -
  let ?s = "demo_process (demo_cluster [] None)"
  have found: "find_key pc_key demo_key (m_Clusters (ext ?s)) = Some (demo_cluster [] None)"
    by (simp add: demo_process_def empty_mem_def)
  then have del: "Delete (mem_resource cluster_kind) demo_key (ext ?s) =
      (Inr (), remove_object cluster_kind demo_key (ext ?s))"
    by (simp add: mem_resource_def kind_keys) (simp add: cluster_kind_def)
  from del have "fst (deleteCluster mem_server demo_context ?s) = JSON 204 NoBody"
    by (simp add: deleteCluster_def demo_context_def demo_key_def)
  then obtain t where run: "deleteCluster mem_server demo_context ?s = (JSON 204 NoBody, t)"
    by (metis prod.collapse)
  moreover from api_audit_trail [OF mem_api_log.api_log_axioms, THEN conjunct1, rule_format, OF run]
  have "submitted (demo_logger 7) m_Rows mem_micro demo_context ''demo'' ''delete'' ''success'' []
      (?s\<lparr>ext := remove_object cluster_kind demo_key (ext ?s)\<rparr>) t"
    using del by (simp add: demo_context_def demo_key_def)
  ultimately show ?thesis by blast
qed

end
