(* ===== verification/HealthWitnesses.thy ===== *)
theory HealthWitnesses
  imports HealthChecker ClusterWitnesses
begin

text \<open>
  The health checker on the reference server: an HTTP client that reaches every endpoint but
  a given one, and two pods of which one does not answer.
\<close>

definition mem_checker :: "string \<Rightarrow> mem health_checker" where
  "mem_checker bad =
     \<lparr>hc_Client = mem_client,
      hc_Get = (\<lambda>url w. (if url = bad then Inl (ErrorString ''connection refused'')
                         else Inr \<lparr>StatusCode = 200, Body = Inr []\<rparr>, w)),
      Eventf = (\<lambda>_ _ _ msg w. w\<lparr>m_Events := msg # m_Events w\<rparr>),
      hc_Now = (\<lambda>w. (int (m_Clock w), w))\<rparr>"

lemma mem_view_events [simp]: "mem_view (w\<lparr>m_Events := es\<rparr>) = mem_view w"
  by (simp add: mem_view_def)

lemma pod_objects:
  "v_Pods (mem_view w) k = find_key (key_of pod_kind) k (m_Pods w)" "objects pod_kind = m_Pods"
  "meta_of pod_kind = pod_Meta" "with_meta pod_kind m p = p\<lparr>pod_Meta := m\<rparr>" "pod_key (p\<lparr>pod_Meta := m\<rparr>) = meta_key m"
  by (simp_all add: mem_view_def) (simp_all add: pod_kind_def pod_key_def)

lemma mem_pods_listed:
  assumes "List (mem_resource pod_kind) opts w = (Inr ps, w')" and "p \<in> set ps"
  shows "v_Pods (mem_view w) (pod_key p) = Some p \<and> matches opts (pod_Meta p)"
  using assms first_by_found [of p "key_of pod_kind" "[]" "m_Pods w"]
  by (auto simp: mem_resource_def pod_objects)

lemma mem_pod_delete:
  assumes "Delete (mem_resource pod_kind) k w = (r, w')"
  shows "(v_Pods (mem_view w) k = None \<and> w' = w) \<or> (r = Inr () \<and> doomed (mem_view w') k)"
proof (cases "find_key (key_of pod_kind) k (m_Pods w)")
  case None
  then show ?thesis using assms by (simp add: mem_resource_def pod_objects)
next
  case (Some p)
  then have key: "pod_key p = k" by (auto dest: find_key_Some)
  show ?thesis
  proof (cases "Finalizers (pod_Meta p) = []")
    case True
    then have "w' = remove_object pod_kind k w \<and> r = Inr ()"
      using assms Some by (simp add: mem_resource_def pod_objects)
    then show ?thesis using mem_pods.removed_lookup [of k w] by (simp add: doomed_def)
  next
    case False
    let ?y = "stamp pod_kind w (p\<lparr>pod_Meta := (pod_Meta p)\<lparr>DeletionTimestamp := Some (int (m_Clock w))\<rparr>\<rparr>)"
    have "w' = store_object pod_kind ?y w \<and> r = Inr ()"
      using assms Some False by (simp add: mem_resource_def pod_objects Let_def)
    moreover have "pod_key ?y = k" using key by (simp add: stamp_def pod_objects pod_key_def meta_key_def)
    ultimately show ?thesis
      using mem_pods.stored_lookup [of ?y w] by (simp add: doomed_def stamp_def pod_objects)
  qed
qed

lemma mem_checker_fields [simp]: "hc_Client (mem_checker bad) = mem_client"
  by (simp add: mem_checker_def)

interpretation mem_health: health_env "mem_checker bad" mem_view mem_admit
proof -
  have "health_env_axioms (mem_checker bad) mem_view"
  proof
    fix pc w ps w' and p :: pod
    assume "List (Pods (hc_Client (mem_checker bad))) (pods_of pc) w = (Inr ps, w')" "p \<in> set ps"
    then show "v_Pods (mem_view w) (pod_key p) = Some p \<and> Namespace (pod_Meta p) = Namespace (pc_Meta pc) \<and>
        Labels (pod_Meta p) ''app.kubernetes.io/instance'' = Some (Name (pc_Meta pc))"
      using mem_pods_listed [of "pods_of pc" w ps w' p] by (simp add: matches_def pods_of_def)
  next
    fix w w' :: mem and k and r :: "unit result"
    assume "Delete (Pods (hc_Client (mem_checker bad))) k w = (Inr (), w')"
    then show "doomed (mem_view w') k"
      using mem_pod_delete [of k w "Inr ()" w'] by (auto simp: doomed_def)
  next
    fix w w' :: mem and k and r :: "unit result"
    assume "Delete (Pods (hc_Client (mem_checker bad))) k w = (r, w')" "doomed (mem_view w) k"
    then show "doomed (mem_view w') k" using mem_pod_delete [of k w r w'] by auto
  qed (auto simp: mem_checker_def)
  then show "health_env (mem_checker bad) mem_view mem_admit"
    unfolding health_env_def mem_checker_fields using mem_kube.kube_scope_axioms by simp
qed

lemma mem_pod_delete_ok:
  "v_Pods (mem_view w) k \<noteq> None \<Longrightarrow> \<exists>w'. Delete (mem_resource pod_kind) k w = (Inr (), w')"
  using mem_pod_delete [of k w] by (cases "Delete (mem_resource pod_kind) k w") auto

definition demo_pod :: "string \<Rightarrow> string \<Rightarrow> pod" where
  "demo_pod name ip =
     \<lparr>pod_Meta = zero_meta\<lparr>Name := name, Namespace := ''monitoring'',
        Labels := [''app.kubernetes.io/instance'' \<mapsto> ''demo'']\<rparr>, pod_PodIP = ip\<rparr>"

definition demo_pods :: "mem process" where
  "demo_pods = \<lparr>ext = empty_mem\<lparr>m_Clusters := [demo_cluster [] None],
       m_Pods := [demo_pod ''demo-0'' ''10.0.0.1'', demo_pod ''demo-1'' ''10.0.0.2'']\<rparr>,
     mets = no_metrics, entries = Map.empty\<rparr>"

lemma two_pods_trace:
  assumes "list_all2 (pod_trace demo_key) [demo_pod ''demo-0'' ''10.0.0.1'', demo_pod ''demo-1'' ''10.0.0.2''] ess"
  shows "set (asked (concat ess)) \<subseteq> {(''monitoring'', ''demo-0''), (''monitoring'', ''demo-1'')}"
  using asked_pods [OF assms] by (auto simp: demo_pod_def pod_key_def meta_key_def)


theorem run_ticks_changes_pods_and_status_only_witness:
  "v_StatefulSets (mem_view (ext (run_ticks (mem_checker ''http://10.0.0.2:9090/-/ready'') 3 demo_pods))) =
   v_StatefulSets (mem_view (ext demo_pods))"
  using run_ticks_changes_pods_and_status_only [OF mem_health.health_env_axioms, where n = 3 and s = demo_pods] by blast

end
