(* ===== verification/OperatorWitnesses.thy ===== *)
theory OperatorWitnesses
  imports Operator ApiWitnesses HealthWitnesses
begin

text \<open>
  The whole operator on the reference server: every component on one world, in which only the
  scheduler reaches the cron library. The properties of its runs are witnessed there.
\<close>

section \<open>The parts\<close>

definition mem_parts :: "mem parts" where
  "mem_parts =
     \<lparr>pt_Client = mem_client, pt_Checker = mem_checker ''http://10.0.0.9:9090/-/ready'',
      pt_Scheduler = demo_scheduler, pt_Selectors = (\<lambda>_. Inl (ErrorString ''no selectors'')),
      pt_Connect = (\<lambda>w. (Inr mem_db, w)), pt_EnsureSchema = (\<lambda>_ w. (Inr (), w))\<rparr>"

lemma mem_parts_fields [simp]:
  "pt_Client mem_parts = mem_client" "pt_Checker mem_parts = mem_checker ''http://10.0.0.9:9090/-/ready''"
  "pt_Scheduler mem_parts = demo_scheduler"
  by (simp_all add: mem_parts_def)

text \<open>The part of the world that is the cron library's.\<close>

definition cron_part :: "mem \<Rightarrow> (nat \<times> string \<times> namespaced_name) list \<times> nat" where
  "cron_part w = (m_Jobs w, m_LastJob w)"

lemma cron_part_clock [simp]: "cron_part (w\<lparr>m_Clock := n\<rparr>) = cron_part w"
  by (simp add: cron_part_def)

lemma keeps_jobs:
  assumes "\<And>w r w'. f w = (r, w') \<Longrightarrow> cron_part w' = cron_part w"
  shows "keeps (jobs_same mem_jobs m_LastJob) (call f)"
  using assms
  by (intro keepsI) (auto simp: jobs_same_def cron_part_def mem_jobs_def fun_eq_iff elim!: callE)

lemma mem_resource_jobs:
  assumes "\<And>xs w. cron_part (set_objects K xs w) = cron_part w"
  shows "resource_calls (jobs_same mem_jobs m_LastJob) (mem_resource K)"
proof -
  note frame = mem_resource_frame [where g = cron_part, OF assms cron_part_clock]
  have list: "List (mem_resource K) opts w = (r, w') \<Longrightarrow> cron_part w' = cron_part w" for opts w r w'
    by (auto simp: mem_resource_def)
  show ?thesis
    unfolding resource_calls_def
    by (intro conjI allI keeps_jobs) (erule frame list)+
qed

lemma mem_create_or_update_jobs:
  assumes "\<And>xs w. cron_part (set_objects K xs w) = cron_part w"
  shows "keeps (jobs_same mem_jobs m_LastJob) (call (mem_create_or_update K x f))"
  using assms
  by (intro keeps_jobs) (auto simp: mem_create_or_update_def store_object_def Let_def
      split: option.splits sum.splits if_splits)

lemma mem_client_jobs: "client_calls (jobs_same mem_jobs m_LastJob) mem_client"
  unfolding client_calls_def mem_client_fields
  by (intro conjI allI mem_resource_jobs mem_create_or_update_jobs) (simp_all add: kind_defs cron_part_def)

lemma demo_scheduler_client: "demo_scheduler\<lparr>sch_Client := mem_client\<rparr> = demo_scheduler"
  by (simp add: mem_scheduler_def)

lemma mem_scheduler_jobs: "scheduler_calls (jobs_same mem_jobs m_LastJob) (mem_scheduler a T)"
proof -
  note calls = resource_callsD [OF client_callsD(1) [OF mem_client_jobs, unfolded mem_client_fields]]
  have tar: "sch_Exec (mem_scheduler a T) = Some E \<Longrightarrow> ExecInto E req obj w = (x, w') \<Longrightarrow> cron_part w' = cron_part w"
    and cmd: "sch_Exec (mem_scheduler a T) = Some E \<Longrightarrow> Exec E req w = (r, w') \<Longrightarrow> cron_part w' = cron_part w"
    and http: "HTTP_Do (mem_scheduler a T) m url w = (resp, w') \<Longrightarrow> cron_part w' = cron_part w"
    and put: "PutObject (mem_scheduler a T) obj body w = (r, w') \<Longrightarrow> cron_part w' = cron_part w"
    and now: "Now (mem_scheduler a T) w = (n, w') \<Longrightarrow> cron_part w' = cron_part w"
    for E req obj w x w' r m url resp body n
    by (auto simp: mem_scheduler_def cron_part_def split: option.splits)
  show ?thesis
    unfolding scheduler_calls_def mem_scheduler_fields mem_client_fields
    by (intro conjI allI impI calls keeps_jobs) ((erule http put now | erule (1) cmd tar)+)
qed

lemma mem_exec_jobs: "mem_exec stmt w = (r, w') \<Longrightarrow> cron_part w' = cron_part w"
  by (auto simp: mem_exec_def mem_insert_def cron_part_def Let_def split: statement.splits if_splits)

definition users_edit :: "mem \<Rightarrow> mem \<Rightarrow> bool" where
  "users_edit w w' \<longleftrightarrow> (\<exists>pcs. w' = w\<lparr>m_Clusters := pcs\<rparr>)"

interpretation mem_run: operator_env mem_parts "Some (demo_logger 7)" users_edit mem_jobs m_LastJob "\<lambda>s. s \<noteq> ''never''"
proof (rule operator_env.intro)
  show "cron_lib (sch_cron (pt_Scheduler mem_parts)) mem_jobs m_LastJob (\<lambda>s. s \<noteq> ''never'')"
    using mem_crontab.cron_lib_axioms by simp
  show "client_calls (jobs_same mem_jobs m_LastJob) (pt_Client mem_parts)"
    by (simp add: mem_client_jobs)
  show "scheduler_calls (jobs_same mem_jobs m_LastJob) ((pt_Scheduler mem_parts)\<lparr>sch_Client := pt_Client mem_parts\<rparr>)"
    by (simp add: demo_scheduler_client mem_scheduler_jobs)
  show "keeps (jobs_same mem_jobs m_LastJob) (call (hc_Get (pt_Checker mem_parts) url))" for url
    by (rule keeps_jobs) (auto simp: mem_checker_def)
  show "keeps (jobs_same mem_jobs m_LastJob) (call (hc_Now (pt_Checker mem_parts)))"
    by (rule keeps_jobs) (auto simp: mem_checker_def)
  show "jobs_same mem_jobs m_LastJob s (s\<lparr>ext := Eventf (pt_Checker mem_parts) pc ty re msg (ext s)\<rparr>)" for s pc ty re msg
    by (simp add: jobs_same_def mem_checker_def mem_jobs_def fun_eq_iff)
  show "keeps (jobs_same mem_jobs m_LastJob) (call (ExecContext (db lg) stmt))"
    and "keeps (jobs_same mem_jobs m_LastJob) (call (SelectCount (db lg)))"
    and "keeps (jobs_same mem_jobs m_LastJob) (call (SelectEntries (db lg) c n))"
    and "keeps (jobs_same mem_jobs m_LastJob) (call (TimeNow (db lg)))"
    if "Some (demo_logger 7) = Some lg" for lg stmt c n
    using that by (auto intro!: keeps_jobs simp: mem_select_def mem_count_def dest: mem_exec_jobs)
  show "mem_jobs w' = mem_jobs w \<and> m_LastJob w' = m_LastJob w" if "users_edit w w'" for w w'
    using that by (auto simp: users_edit_def mem_jobs_def fun_eq_iff)
qed

section \<open>Witnesses\<close>

theorem one_job_per_cluster_in_every_run_witness:
  "\<exists>t. operator_step ref_lib (\<lambda>_. Inl NilDereference) users_edit (assemble (default_flags ''dsn'') mem_parts (Some (demo_logger 7)))
       (demo_process (backup_cluster ''@daily'')) t \<and>
     (\<forall>i j sched sched' job. mem_jobs (ext t) i = Some (sched, job) \<and> mem_jobs (ext t) j = Some (sched', job) \<longrightarrow> i = j)"
proof -
  let ?A = "assemble (default_flags ''dsn'') mem_parts (Some (demo_logger 7))"
  let ?s = "demo_process (backup_cluster ''@daily'')"
  obtain r t where "Reconcile ref_lib (as_Reconciler ?A) demo_key ?s = (r, t)" by fastforce
  then have step: "operator_step ref_lib (\<lambda>_. Inl NilDereference) users_edit ?A ?s t" by (rule reconcile_pass)
  have "entries ?s = Map.empty" "mem_jobs (ext ?s) = Map.empty"
    by (simp_all add: demo_process_def empty_mem_def mem_jobs_def fun_eq_iff)
  from one_job_per_cluster_in_every_run [OF mem_run.operator_env_axioms r_into_rtranclp this, OF step] step
  show ?thesis by blast
qed

definition start_process :: "mem process" where
  "start_process = \<lparr>ext = empty_mem, mets = no_metrics, entries = Map.empty\<rparr>"

definition demo_request :: createReq where
  "demo_request = \<lparr>cr_Name = ''demo'', cr_Spec = zero_spec\<lparr>sp_Replicas := 2\<rparr>\<rparr>"


end
