(* ===== verification/SetWitnesses.thy ===== *)
theory SetWitnesses
  imports ClusterSetReconciler ClusterWitnesses
begin

text \<open>
  The cluster set reconciler on the reference server, with a selector library that compares
  labels and rejects match expressions.
\<close>

definition mem_set_reconciler :: "mem set_reconciler" where
  "mem_set_reconciler =
     \<lparr>set_Client = mem_client,
      LabelSelectorAsSelector = (\<lambda>ls.
        if MatchExpressions ls = []
        then Inr \<lparr>Matches = (\<lambda>l. MatchLabels ls \<subseteq>\<^sub>m l), Empty = (MatchLabels ls = Map.empty)\<rparr>
        else Inl (ErrorString ''unsupported operator''))\<rparr>"

lemma mem_set_reconciler_fields [simp]: "set_Client mem_set_reconciler = mem_client"
  by (simp add: mem_set_reconciler_def)

lemma matches_all [simp]: "matches list_all_objects m"
  by (simp add: matches_def list_all_objects_def)

lemma mem_list_all:
  assumes "List (mem_resource K) list_all_objects w = (Inr xs, w')"
  shows "distinct (map (key_of K) xs)" and "x \<in> set xs \<longleftrightarrow> find_key (key_of K) (key_of K x) (objects K w) = Some x"
proof -
  have xs: "xs = first_by (key_of K) [] (objects K w)"
    using assms by (auto simp: mem_resource_def)
  show "distinct (map (key_of K) xs)" by (simp add: xs first_by_distinct)
  show "x \<in> set xs \<longleftrightarrow> find_key (key_of K) (key_of K x) (objects K w) = Some x"
    using first_by_found [of x "key_of K" "[]" "objects K w"]
      first_by_complete [of "key_of K" "key_of K x" "objects K w" x "[]"] by (auto simp: xs)
qed

lemma set_kind_fields:
  "meta_of cluster_set_kind = set_Meta" "with_meta cluster_set_kind m c = c\<lparr>set_Meta := m\<rparr>"
  "on_status cluster_set_kind old c = old\<lparr>set_Status := set_Status c\<rparr>"
  by (simp_all add: cluster_set_kind_def)

lemma mem_set_status_atomic:
  assumes "StatusUpdate (mem_resource cluster_set_kind) x w = (r, w')"
  shows "v_ClusterSets (mem_view w') (set_key x) = v_ClusterSets (mem_view w) (set_key x) \<or>
    (\<exists>old v. v_ClusterSets (mem_view w) (set_key x) = Some old \<and> v_ClusterSets (mem_view w') (set_key x) =
       Some (old\<lparr>set_Meta := with_version (set_Meta old) v, set_Status := set_Status x\<rparr>))"
proof -
  have swap: "old\<lparr>set_Status := st, set_Meta := m\<rparr> = old\<lparr>set_Meta := m, set_Status := st\<rparr>"
    for old :: prometheus_cluster_set and st m by simp
  show ?thesis using mem_sets.status_outcome [OF assms] by (auto simp: set_kind_fields swap)
qed

interpretation mem_set_pass: set_env mem_set_reconciler mem_view mem_admit
proof -
  have "set_env_axioms mem_set_reconciler mem_view"
  proof
    fix w w' pcs
    assume "List (Clusters (set_Client mem_set_reconciler)) list_all_objects w = (Inr pcs, w')"
    then show "distinct (map pc_key pcs) \<and> (\<forall>pc. pc \<in> set pcs \<longleftrightarrow> v_Clusters (mem_view w) (pc_key pc) = Some pc)"
      using mem_list_all [of cluster_kind w pcs w'] by (simp add: mem_clusters.lookup_view)
  next
    fix w w' nss ns
    assume "List (Namespaces (set_Client mem_set_reconciler)) list_all_objects w = (Inr nss, w')"
    then show "ns \<in> set nss \<longleftrightarrow> v_Namespaces (mem_view w) (nso_key ns) = Some ns"
      using mem_list_all [of namespace_kind w nss w'] by (simp add: mem_namespaces.lookup_view)
  next
    fix w w' csets cset
    assume "List (ClusterSets (set_Client mem_set_reconciler)) list_all_objects w = (Inr csets, w')"
    then show "cset \<in> set csets \<longleftrightarrow> v_ClusterSets (mem_view w) (set_key cset) = Some cset"
      using mem_list_all [of cluster_set_kind w csets w'] by (simp add: mem_sets.lookup_view)
  next
    fix x rx w w'
    assume "StatusUpdate (ClusterSets (set_Client mem_set_reconciler)) x w = (rx, w')"
    then show "v_ClusterSets (mem_view w') (set_key x) = v_ClusterSets (mem_view w) (set_key x) \<or>
        (\<exists>old v. v_ClusterSets (mem_view w) (set_key x) = Some old \<and> v_ClusterSets (mem_view w') (set_key x) =
          Some (old\<lparr>set_Meta := with_version (set_Meta old) v, set_Status := set_Status x\<rparr>))"
      by (intro mem_set_status_atomic) simp
  next
    fix x y w w'
    assume "StatusUpdate (ClusterSets (set_Client mem_set_reconciler)) x w = (Inr y, w')"
    then have "StatusUpdate (mem_resource cluster_set_kind) x w = (Inr y, w')" by simp
    from mem_sets.status_outcome [OF this]
    obtain old v where "v_ClusterSets (mem_view w) (set_key x) = Some old"
      "v_ClusterSets (mem_view w') (set_key x) =
         Some (old\<lparr>set_Status := set_Status x, set_Meta := with_version (set_Meta old) v\<rparr>)"
      by (auto simp: set_kind_fields)
    then show "\<exists>old v. v_ClusterSets (mem_view w) (set_key x) = Some old \<and>
        v_ClusterSets (mem_view w') (set_key x) =
          Some (old\<lparr>set_Meta := with_version (set_Meta old) v, set_Status := set_Status x\<rparr>)"
      by (intro exI [of _ old] exI [of _ v]) simp
  qed
  then show "set_env mem_set_reconciler mem_view mem_admit"
    unfolding set_env_def mem_set_reconciler_fields using mem_kube.kube_scope_axioms by simp
qed

definition demo_set :: prometheus_cluster_set where
  "demo_set =
     \<lparr>set_Meta = zero_meta\<lparr>Name := ''all''\<rparr>,
      set_Spec = \<lparr>css_ClusterSelector = None, css_NamespaceSelector = None,
                  css_BackupTemplate = Some (zero_backup\<lparr>bk_Bucket := ''shared''\<rparr>)\<rparr>,
      set_Status = \<lparr>cst_Conditions = [], cst_MemberCount = 0, cst_PhaseCount = Map.empty, cst_Members = []\<rparr>\<rparr>"

definition demo_sets :: "mem process" where
  "demo_sets = \<lparr>ext = empty_mem\<lparr>m_Clusters := [demo_cluster [] None], m_ClusterSets := [demo_set]\<rparr>,
     mets = no_metrics, entries = Map.empty\<rparr>"

lemma demo_sets_store [simp]:
  "v_ClusterSets (mem_view (ext demo_sets)) ([], ''all'') = Some demo_set"
  "v_Clusters (mem_view (ext demo_sets)) demo_key = Some (demo_cluster [] None)"
  by (simp_all add: demo_sets_def mem_view_def demo_set_def set_key_def meta_key_def zero_meta_def)

lemma demo_set_get: "Get (ClusterSets (set_Client mem_set_reconciler)) ([], ''all'') (ext demo_sets) = (Inr demo_set, ext demo_sets)"
  using demo_sets_store(1) by (simp add: mem_resource_def mem_sets.lookup_view)

lemma demo_wants [simp]: "wants_template demo_set (demo_cluster fs d)"
  by (simp add: wants_template_def demo_set_def demo_cluster_def zero_value_defs)

lemma demo_set_pass:
  obtains res t where "ReconcileSet mem_set_reconciler ([], ''all'') demo_sets = (Inr res, t)"
proof -
  obtain pc' e s1 where ov: "overlayBackup mem_set_reconciler demo_set (demo_cluster [] None) demo_sets = ((e, pc'), s1)"
    by (metis prod.collapse)
  have scope: "same_except {ClusterId demo_key} (mem_view (ext demo_sets)) (mem_view (ext s1))"
    using mem_set_pass.overlay_step [OF ov] by simp
  have st1: "v_ClusterSets (mem_view (ext s1)) ([], ''all'') = Some demo_set"
    using same_exceptD(6) [OF scope] by simp
  have listed: "List (Clusters mem_client) list_all_objects (ext demo_sets) = (Inr [demo_cluster [] None], ext demo_sets)"
    by (simp add: mem_resource_def demo_sets_def cluster_kind_def)
  have report: "\<exists>y w. StatusUpdate (mem_resource cluster_set_kind)
      (demo_set\<lparr>set_Status := st\<rparr>) (ext s1) = (Inr y, w)" for st
  proof -
    obtain y w where run: "StatusUpdate (mem_resource cluster_set_kind) (demo_set\<lparr>set_Status := st\<rparr>) (ext s1) = (y, w)"
      by fastforce
    have key: "set_key (demo_set\<lparr>set_Status := st\<rparr>) = ([], ''all'')"
      by (simp add: set_key_def demo_set_def meta_key_def zero_meta_def)
    from mem_sets.status_outcome [OF run] st1 run show ?thesis by (auto simp: key set_kind_fields)
  qed
  have sel: "selectorFor mem_set_reconciler (css_ClusterSelector (set_Spec demo_set)) = Inr Everything"
    "selectorFor mem_set_reconciler (css_NamespaceSelector (set_Spec demo_set)) = Inr Everything"
    by (simp_all add: selectorFor_def demo_set_def)
  have "\<exists>res t. ReconcileSet mem_set_reconciler ([], ''all'') demo_sets = (Inr res, t)"
    using demo_set_get listed ov report [of "(set_Status demo_set)\<lparr>cst_MemberCount := 1,
        cst_Members := [member_of pc'], cst_PhaseCount := countPhase (cs_Phase (pc_Status pc')) Map.empty\<rparr>"]
    by (auto simp: ReconcileSet_def reconcileMembers_def sel allowedNamespaces_def Everything_def attempt_def call_def
        selected_def reportMembers_def Let_def split: sum.splits prod.splits)
  then show ?thesis using that by blast
qed

theorem ReconcileSet_reports_members_witness:
  "\<exists>res t new. ReconcileSet mem_set_reconciler ([], ''all'') demo_sets = (Inr res, t) \<and>
     v_ClusterSets (mem_view (ext t)) ([], ''all'') = Some new \<and>
     member_of (demo_cluster [] None) \<in> set (cst_Members (set_Status new))"
proof -
  obtain res t where run: "ReconcileSet mem_set_reconciler ([], ''all'') demo_sets = (Inr res, t)"
    by (rule demo_set_pass)
  have "is_member mem_set_reconciler demo_set (mem_view (ext demo_sets)) (demo_cluster [] None)"
    by (simp add: is_member_def selectorFor_def demo_set_def Everything_def)
  then show ?thesis
    using ReconcileSet_reports_members [OF mem_set_pass.set_env_axioms demo_set_get run] run by auto
qed

theorem ReconcileSet_overlay_scope_witness:
  "\<exists>r t. ReconcileSet mem_set_reconciler ([], ''all'') demo_sets = (r, t) \<and>
     v_StatefulSets (mem_view (ext t)) = v_StatefulSets (mem_view (ext demo_sets))"
proof -
  obtain r t where run: "ReconcileSet mem_set_reconciler ([], ''all'') demo_sets = (r, t)" by fastforce
  show ?thesis
    using ReconcileSet_overlay_scope [OF mem_set_pass.set_env_axioms demo_set_get run, THEN conjunct1] run
      same_exceptD(2) by (auto simp: fun_eq_iff)
qed

theorem overlay_is_wholesale_and_final_witness:
  "\<exists>pc' t. overlayBackup mem_set_reconciler demo_set (demo_cluster [] None) demo_sets = ((None, pc'), t) \<and>
     v_Clusters (mem_view (ext t)) demo_key = Some pc' \<and>
     v_Clusters (mem_view (ext (snd (ReconcileSet mem_set_reconciler ([], ''all'') t)))) demo_key = Some pc'"
proof -
  have template: "css_BackupTemplate (set_Spec demo_set) = Some (zero_backup\<lparr>bk_Bucket := ''shared''\<rparr>)"
    by (simp add: demo_set_def)
  let ?x = "overlaid demo_set (zero_backup\<lparr>bk_Bucket := ''shared''\<rparr>) (demo_cluster [] None)"
  have "ResourceVersion (pc_Meta ?x) = ResourceVersion (pc_Meta (demo_cluster [] None))"
    by (simp add: overlaid_def)
  moreover have "v_Clusters (mem_view (ext demo_sets)) (pc_key ?x) = Some (demo_cluster [] None)" by simp
  ultimately obtain new w where "Update (mem_resource cluster_kind) ?x (ext demo_sets) = (Inr new, w)"
    using mem_update_ok by blast
  then obtain pc' t where run: "overlayBackup mem_set_reconciler demo_set (demo_cluster [] None) demo_sets = ((None, pc'), t)"
    using demo_wants [of "[]" None] template by (auto simp: overlayBackup_def wants_template_def call_def)
  have key: "pc_key (demo_cluster [] None) = demo_key"
    using demo_sets_store(2) mem_kube.clusters.stored_key by blast
  have stored: "v_Clusters (mem_view (ext demo_sets)) (pc_key (demo_cluster [] None)) = Some (demo_cluster [] None)"
    unfolding key by (rule demo_sets_store(2))
  note final = overlay_is_wholesale_and_final [OF mem_set_pass.set_env_axioms stored template demo_wants run, unfolded key]
  then have now: "v_Clusters (mem_view (ext t)) demo_key = Some pc'" and "bk_Enabled (sp_Backup (pc_Spec pc'))"
    by (simp_all del: split_paired_All)
  then have "v_Clusters (mem_view (ext (snd (ReconcileSet mem_set_reconciler ([], ''all'') t)))) demo_key = Some pc'"
    using final [THEN conjunct2, THEN conjunct2, rule_format, OF prod.collapse [symmetric]] by blast
  with run now show ?thesis by blast
qed

theorem enqueueAllSets_complete_witness:
  "([], ''all'') \<in> set (fst (enqueueAllSets mem_set_reconciler demo_sets))"
proof -
  have list: "List (ClusterSets (set_Client mem_set_reconciler)) list_all_objects (ext demo_sets) =
      (Inr [demo_set], ext demo_sets)"
    by (simp add: mem_resource_def demo_sets_def cluster_set_kind_def)
  have key: "set_key demo_set = ([], ''all'')" "Name (set_Meta demo_set) = ''all''"
    by (simp_all add: set_key_def demo_set_def meta_key_def zero_meta_def)
  have "v_ClusterSets (mem_view (ext demo_sets)) (set_key demo_set) = Some demo_set" by (simp add: key(1))
  then have "([], Name (set_Meta demo_set)) \<in> set (fst (enqueueAllSets mem_set_reconciler demo_sets))"
    unfolding enqueueAllSets_complete [OF mem_set_pass.set_env_axioms prod.collapse [symmetric] list] by blast
  then show ?thesis unfolding key(2) .
qed

end
