(* ===== verification/Webhook.thy ===== *)
theory Webhook
  imports BackupWitnesses
begin

text \<open>
  The validating webhook (\<open>internal/webhook/prometheuscluster_webhook.go\<close>). Its errors are the
  entries of a \<open>field.ErrorList\<close>: the kind, the path, the value for an invalid field, and
  the message. Parsing a cron expression and a YAML list, and packing the errors into an
  API error, are library calls and parameters.
\<close>

section \<open>The rules\<close>

datatype bad_value = BadInt int32 | BadText string

datatype field_error =
    FieldInvalid string bad_value string
  | FieldRequired string string

record validator_lib =
  ParseStandard :: "string \<Rightarrow> go_error option"
  UnmarshalList :: "string \<Rightarrow> go_error option"
  NewInvalid :: "string \<Rightarrow> field_error list \<Rightarrow> go_error"
  ItoA :: "nat \<Rightarrow> string"

definition validateReplicas :: "cluster_spec \<Rightarrow> field_error list" where
  "validateReplicas spec =
     (if sint (sp_Replicas spec) < 1
      then [FieldInvalid ''spec.replicas'' (BadInt (sp_Replicas spec)) ''must be >= 1''] else [])"

definition validateBackup :: "validator_lib \<Rightarrow> s3_backup_spec \<Rightarrow> field_error list" where
  "validateBackup V b =
     (if bk_Enabled b then
        (if bk_Bucket b = []
         then [FieldRequired ''spec.backup.bucket'' ''bucket is required when backup is enabled''] else []) @
        (if bk_Schedule b \<noteq> []
         then (case ParseStandard V (bk_Schedule b) of
                 Some e \<Rightarrow> [FieldInvalid ''spec.backup.schedule'' (BadText (bk_Schedule b))
                              (''not a valid cron expression: '' @ err_text e)]
               | None \<Rightarrow> [])
         else [])
      else [])"

fun validateRemoteWrite :: "validator_lib \<Rightarrow> nat \<Rightarrow> remote_write_spec list \<Rightarrow> field_error list" where
  "validateRemoteWrite V i [] = []"
| "validateRemoteWrite V i (rw # rws) =
     (if rw_URL rw = []
      then [FieldRequired (''spec.remoteWrite['' @ ItoA V i @ ''].url'') ''url is required''] else []) @
     validateRemoteWrite V (Suc i) rws"

definition validateScrapeConfigs :: "validator_lib \<Rightarrow> additional_scrape_configs option \<Rightarrow> field_error list" where
  "validateScrapeConfigs V a =
     (case a of
        None \<Rightarrow> []
      | Some asc \<Rightarrow>
          (case (asc_Inline asc \<noteq> [], asc_SecretRef asc) of
             (True, Some _) \<Rightarrow>
               [FieldInvalid ''spec.additionalScrapeConfigs'' (BadText ''<elided>'')
                  ''inline and secretRef are mutually exclusive'']
           | (False, None) \<Rightarrow>
               [FieldRequired ''spec.additionalScrapeConfigs''
                  ''set inline or secretRef when additionalScrapeConfigs is present'']
           | (True, None) \<Rightarrow>
               (case UnmarshalList V (asc_Inline asc) of
                  Some e \<Rightarrow> [FieldInvalid ''spec.additionalScrapeConfigs.inline'' (BadText ''<elided>'')
                               (''must be a YAML list of scrape_config entries: '' @ err_text e)]
                | None \<Rightarrow> [])
           | (False, Some ref) \<Rightarrow>
               (if sks_Name ref = []
                then [FieldRequired ''spec.additionalScrapeConfigs.secretRef.name'' ''secretRef.name is required'']
                else []) @
               (if sks_Key ref = []
                then [FieldRequired ''spec.additionalScrapeConfigs.secretRef.key'' ''secretRef.key is required'']
                else [])))"

definition validate_errors :: "validator_lib \<Rightarrow> prometheus_cluster \<Rightarrow> field_error list" where
  "validate_errors V pc =
     validateReplicas (pc_Spec pc) @ validateBackup V (sp_Backup (pc_Spec pc)) @
     validateRemoteWrite V 0 (sp_RemoteWrite (pc_Spec pc)) @
     validateScrapeConfigs V (sp_AdditionalScrapeConfigs (pc_Spec pc))"

definition validate :: "validator_lib \<Rightarrow> prometheus_cluster \<Rightarrow> go_error option" where
  "validate V pc =
     (if validate_errors V pc = [] then None
      else Some (NewInvalid V (Name (pc_Meta pc)) (validate_errors V pc)))"

definition ValidateCreate :: "validator_lib \<Rightarrow> prometheus_cluster \<Rightarrow> go_error option" where
  "ValidateCreate V pc = validate V pc"

definition ValidateUpdate :: "validator_lib \<Rightarrow> prometheus_cluster \<Rightarrow> prometheus_cluster \<Rightarrow> go_error option" where
  "ValidateUpdate V old pc = validate V pc"

definition ValidateDelete :: "prometheus_cluster \<Rightarrow> go_error option" where
  "ValidateDelete pc = None"

section \<open>What the rules amount to\<close>

text \<open>The shape of a well-formed specification, stated without the order of the checks.\<close>

definition well_formed_spec :: "validator_lib \<Rightarrow> cluster_spec \<Rightarrow> bool" where
  "well_formed_spec V spec \<longleftrightarrow>
     1 \<le> sint (sp_Replicas spec) \<and>
     (bk_Enabled (sp_Backup spec) \<longrightarrow> bk_Bucket (sp_Backup spec) \<noteq> [] \<and>
        (bk_Schedule (sp_Backup spec) = [] \<or> ParseStandard V (bk_Schedule (sp_Backup spec)) = None)) \<and>
     (\<forall>rw \<in> set (sp_RemoteWrite spec). rw_URL rw \<noteq> []) \<and>
     (\<forall>asc. sp_AdditionalScrapeConfigs spec = Some asc \<longrightarrow>
        (asc_Inline asc \<noteq> [] \<longleftrightarrow> asc_SecretRef asc = None) \<and>
        (asc_Inline asc \<noteq> [] \<longrightarrow> UnmarshalList V (asc_Inline asc) = None) \<and>
        (\<forall>ref. asc_SecretRef asc = Some ref \<longrightarrow> sks_Name ref \<noteq> [] \<and> sks_Key ref \<noteq> []))"

lemma validateReplicas_ok: "validateReplicas spec = [] \<longleftrightarrow> 1 \<le> sint (sp_Replicas spec)"
  by (auto simp: validateReplicas_def)

lemma validateBackup_ok:
  "validateBackup V b = [] \<longleftrightarrow>
     (bk_Enabled b \<longrightarrow> bk_Bucket b \<noteq> [] \<and> (bk_Schedule b = [] \<or> ParseStandard V (bk_Schedule b) = None))"
  by (auto simp: validateBackup_def split: option.splits)

lemma validateRemoteWrite_ok: "validateRemoteWrite V i rws = [] \<longleftrightarrow> (\<forall>rw \<in> set rws. rw_URL rw \<noteq> [])"
  by (induction rws arbitrary: i) auto

lemma validateScrapeConfigs_ok:
  "validateScrapeConfigs V a = [] \<longleftrightarrow>
     (\<forall>asc. a = Some asc \<longrightarrow>
        (asc_Inline asc \<noteq> [] \<longleftrightarrow> asc_SecretRef asc = None) \<and>
        (asc_Inline asc \<noteq> [] \<longrightarrow> UnmarshalList V (asc_Inline asc) = None) \<and>
        (\<forall>ref. asc_SecretRef asc = Some ref \<longrightarrow> sks_Name ref \<noteq> [] \<and> sks_Key ref \<noteq> []))"
  by (auto simp: validateScrapeConfigs_def split: option.splits bool.splits)

lemma validate_errors_ok: "validate_errors V pc = [] \<longleftrightarrow> well_formed_spec V (pc_Spec pc)"
  by (auto simp: validate_errors_def well_formed_spec_def validateReplicas_ok validateBackup_ok
      validateRemoteWrite_ok validateScrapeConfigs_ok)

definition missing_url :: "validator_lib \<Rightarrow> nat \<Rightarrow> field_error" where
  "missing_url V i = FieldRequired (''spec.remoteWrite['' @ ItoA V i @ ''].url'') ''url is required''"

lemma validateRemoteWrite_Cons:
  "validateRemoteWrite V i (rw # rws) =
     (if rw_URL rw = [] then [missing_url V i] else []) @ validateRemoteWrite V (Suc i) rws"
  by (simp add: missing_url_def)

lemma index_set_Cons:
  "{i. i < length (x # xs) \<and> P ((x # xs) ! i)} = (if P x then {0} else {}) \<union> Suc ` {i. i < length xs \<and> P (xs ! i)}"
proof -
  have "i < length (x # xs) \<and> P ((x # xs) ! i) \<longleftrightarrow>
      (i = 0 \<and> P x) \<or> (\<exists>j. i = Suc j \<and> j < length xs \<and> P (xs ! j))" for i
    by (cases i) auto
  then show ?thesis by auto
qed

lemma validateRemoteWrite_errors:
  "set (validateRemoteWrite V n rws) =
     (\<lambda>i. missing_url V (n + i)) ` {i. i < length rws \<and> rw_URL (rws ! i) = []}"
proof (induction rws arbitrary: n)
  case (Cons rw rws)
  then show ?case
    unfolding validateRemoteWrite_Cons index_set_Cons [of rw rws "\<lambda>rw. rw_URL rw = []"]
    by (auto simp: image_Un image_image)
qed simp

section \<open>Properties\<close>

text \<open>
  C29: the webhook accepts exactly the well-formed specifications, on create and on update alike,
  whatever the old object was, and answers anything else with an error that the API
  reports as invalid; deletions are never refused.
\<close>

theorem webhook_accepts_well_formed:
  assumes "\<And>name errs. is_invalid (NewInvalid V name errs)"
  shows "(ValidateCreate V pc = None \<longleftrightarrow> well_formed_spec V (pc_Spec pc)) \<and>
    (\<forall>old. ValidateUpdate V old pc = ValidateCreate V pc) \<and>
    (\<forall>e. ValidateCreate V pc = Some e \<longrightarrow> is_invalid e) \<and> ValidateDelete pc = None"
  using assms by (auto simp: ValidateCreate_def ValidateUpdate_def ValidateDelete_def validate_def validate_errors_ok)

text \<open>
  Every remote-write target without a URL is reported under its own index, and no other
  is; a rule that is broken never hides another, since the errors of all sections are
  reported together.
\<close>

theorem webhook_reports_every_missing_url:
  "set (validateRemoteWrite V 0 (sp_RemoteWrite (pc_Spec pc))) =
     {FieldRequired (''spec.remoteWrite['' @ ItoA V i @ ''].url'') ''url is required'' | i.
        i < length (sp_RemoteWrite (pc_Spec pc)) \<and> rw_URL (sp_RemoteWrite (pc_Spec pc) ! i) = []} \<and>
   length (validateRemoteWrite V 0 (sp_RemoteWrite (pc_Spec pc))) =
     length (filter (\<lambda>rw. rw_URL rw = []) (sp_RemoteWrite (pc_Spec pc))) \<and>
   set (validate_errors V pc) =
     set (validateReplicas (pc_Spec pc)) \<union> set (validateBackup V (sp_Backup (pc_Spec pc))) \<union>
     set (validateRemoteWrite V 0 (sp_RemoteWrite (pc_Spec pc))) \<union>
     set (validateScrapeConfigs V (sp_AdditionalScrapeConfigs (pc_Spec pc)))"
proof -
  have "length (validateRemoteWrite V n rws) = length (filter (\<lambda>rw. rw_URL rw = []) rws)" for n rws
    by (induction rws arbitrary: n) auto
  then show ?thesis
    using validateRemoteWrite_errors [of V 0 "sp_RemoteWrite (pc_Spec pc)"]
    by (simp add: validate_errors_def image_Collect Un_assoc missing_url_def)
qed

text \<open>
  What the webhook accepts, the scheduler can schedule. When the scheduler's cron library
  parses schedules as the webhook does, registering an accepted cluster never fails, so the
  reconciler never stops at its registration step for it.
\<close>

theorem webhook_accepted_schedule_registers:
  assumes "cron_lib (sch_cron S) jobs lastId parses"
    and "\<And>sched. parses sched \<longleftrightarrow> ParseStandard V sched = None"
    and "BackupSchedule R = Some (Register S)" and "ValidateCreate V pc = None"
  shows "registers R pc"
proof -
  have "validate_errors V pc = []"
    using assms(4) by (simp add: ValidateCreate_def validate_def split: if_splits)
  then have wf: "well_formed_spec V (pc_Spec pc)" by (simp add: validate_errors_ok)
  have "\<exists>u t. Register S pc' s = (Inr u, t)"
    if "bk_Enabled (sp_Backup (pc_Spec pc))" "same_cluster pc pc'" for pc' s
    using backup_registrar.Register_total [OF backup_registrar.intro [OF assms(1)], of pc' s] wf that assms(2)
    by (auto simp: well_formed_spec_def same_cluster_def)
  then show ?thesis using assms(3) by (auto simp: registers_def)
qed

text \<open>The cluster with another key of the Secret that holds its scrape entries.\<close>

definition with_scrape_key :: "string \<Rightarrow> prometheus_cluster \<Rightarrow> prometheus_cluster" where
  "with_scrape_key key pc =
     pc\<lparr>pc_Spec := (pc_Spec pc)\<lparr>sp_AdditionalScrapeConfigs := map_option
       (\<lambda>asc. asc\<lparr>asc_SecretRef := map_option (\<lambda>ref. ref\<lparr>sks_Key := key\<rparr>) (asc_SecretRef asc)\<rparr>)
       (sp_AdditionalScrapeConfigs (pc_Spec pc))\<rparr>\<rparr>"

text \<open>
  C30: the webhook lets a Secret key smuggle configuration in. Take any cluster the webhook accepts
  whose scrape entries come from a Secret, and append a line break and any text at all to the key of
  that Secret: the webhook accepts the cluster still, and the \<open>prometheus.yml\<close> generated for it is the
  one of the accepted cluster with the text spliced in verbatim, as lines of its own, after the
  line that names the scrape file.
\<close>

theorem webhook_admits_config_injection:
  assumes accepted: "ValidateCreate V pc = None"
    and asc: "sp_AdditionalScrapeConfigs (pc_Spec pc) = Some asc" and ref: "asc_SecretRef asc = Some ref"
  shows "ValidateCreate V (with_scrape_key (sks_Key ref @ nl @ injected) pc) = None \<and>
    (\<exists>before after.
       renderConfig table pc =
         before @ ''  - /etc/prometheus/extra-secret/'' @ sks_Key ref @ nl @ after \<and>
       renderConfig table (with_scrape_key (sks_Key ref @ nl @ injected) pc) =
         before @ ''  - /etc/prometheus/extra-secret/'' @ sks_Key ref @ nl @ injected @ nl @ after)"
proof -
  have wf: "well_formed_spec V (pc_Spec pc)"
    using accepted by (simp add: ValidateCreate_def validate_def validate_errors_ok split: if_splits)
  then have inline: "asc_Inline asc = []" using asc ref by (auto simp: well_formed_spec_def)
  have "well_formed_spec V (pc_Spec (with_scrape_key (sks_Key ref @ nl @ injected) pc))"
    using wf asc ref by (auto simp: well_formed_spec_def with_scrape_key_def)
  then have "ValidateCreate V (with_scrape_key (sks_Key ref @ nl @ injected) pc) = None"
    by (simp add: ValidateCreate_def validate_def validate_errors_ok)
  moreover have path: "additionalScrapePath (with_scrape_key (sks_Key ref @ nl @ injected) pc) =
      additionalScrapePath pc @ nl @ injected" "additionalScrapePath pc = extraSecretMount @ ''/'' @ sks_Key ref"
    using asc ref inline by (simp_all add: additionalScrapePath_def with_scrape_key_def)
  moreover have rest: "sp_Thanos (pc_Spec (with_scrape_key key pc)) = sp_Thanos (pc_Spec pc)"
      "sp_RemoteWrite (pc_Spec (with_scrape_key key pc)) = sp_RemoteWrite (pc_Spec pc)"
      "pc_Meta (with_scrape_key key pc) = pc_Meta pc" for key
    by (simp_all add: with_scrape_key_def)
  ultimately show ?thesis
    by (intro conjI exI [of _ "''global:'' @ nl @ ''  scrape_interval: 30s'' @ nl @ ''  evaluation_interval: 30s'' @ nl @
        (if th_Enabled (sp_Thanos (pc_Spec pc))
         then ''  external_labels:'' @ nl @ ''    cluster: '' @ quote table (Name (pc_Meta pc)) @ nl @
              ''    replica: ${POD_NAME:-unknown}'' @ nl
         else []) @ scrapeConfig @ ''scrape_config_files:'' @ nl"]
      exI [of _ "if sp_RemoteWrite (pc_Spec pc) = [] then []
        else ''remote_write:'' @ nl @ concat (map (render_remote_write table) (sp_RemoteWrite (pc_Spec pc)))"])
      (simp_all add: renderConfig_def extraSecretMount_def)
qed

section \<open>Witnesses\<close>

definition strict_lib :: validator_lib where
  "strict_lib =
     \<lparr>ParseStandard = (\<lambda>s. if s = ''never'' then Some (ErrorString ''bad schedule'') else None),
      UnmarshalList = (\<lambda>_. None),
      NewInvalid = (\<lambda>name errs. StatusError Invalid name),
      ItoA = (\<lambda>n. replicate n CHR ''1'')\<rparr>"

theorem webhook_accepts_well_formed_witness:
  "\<exists>e. ValidateCreate strict_lib (backup_cluster ''never'') = Some e \<and> is_invalid e"
proof -
  have "is_invalid (NewInvalid strict_lib name errs)" for name errs
    by (simp add: strict_lib_def is_invalid_def)
  note ok = webhook_accepts_well_formed [OF this]
  have "\<not> well_formed_spec strict_lib (pc_Spec (backup_cluster ''never''))"
    by (auto simp: well_formed_spec_def strict_lib_def)
  then show ?thesis using ok by (cases "ValidateCreate strict_lib (backup_cluster ''never'')") auto
qed

text \<open>A cluster without a remote-write target that gets one by the key of its scrape Secret.\<close>

definition scraping_cluster :: prometheus_cluster where
  "scraping_cluster = zero_cluster\<lparr>pc_Spec := zero_spec
     \<lparr>sp_Replicas := 1,
      sp_AdditionalScrapeConfigs :=
        Some \<lparr>asc_Inline = [], asc_SecretRef = Some \<lparr>sks_Name = ''scrape'', sks_Key = ''jobs.yml''\<rparr>\<rparr>\<rparr>\<rparr>"

theorem webhook_admits_config_injection_witness:
  "ValidateCreate strict_lib
     (with_scrape_key (''jobs.yml'' @ nl @ ''remote_write:'' @ nl @ ''  - url: evil'') scraping_cluster) = None \<and>
   (\<exists>before after. renderConfig (\<lambda>_. False)
       (with_scrape_key (''jobs.yml'' @ nl @ ''remote_write:'' @ nl @ ''  - url: evil'') scraping_cluster) =
     before @ nl @ ''remote_write:'' @ nl @ ''  - url: evil'' @ nl @ after)"
proof -
  have "ValidateCreate strict_lib scraping_cluster = None"
    by (simp add: ValidateCreate_def validate_def validate_errors_def validateReplicas_def validateBackup_def
        validateScrapeConfigs_def scraping_cluster_def zero_value_defs)
  from webhook_admits_config_injection [OF this,
      of "\<lparr>asc_Inline = [], asc_SecretRef = Some \<lparr>sks_Name = ''scrape'', sks_Key = ''jobs.yml''\<rparr>\<rparr>"
        "\<lparr>sks_Name = ''scrape'', sks_Key = ''jobs.yml''\<rparr>" "''remote_write:'' @ nl @ ''  - url: evil''" "\<lambda>_. False"]
  obtain before after where
    "ValidateCreate strict_lib
       (with_scrape_key (''jobs.yml'' @ nl @ ''remote_write:'' @ nl @ ''  - url: evil'') scraping_cluster) = None"
    "renderConfig (\<lambda>_. False)
       (with_scrape_key (''jobs.yml'' @ nl @ ''remote_write:'' @ nl @ ''  - url: evil'') scraping_cluster) =
     (before @ ''  - /etc/prometheus/extra-secret/jobs.yml'') @ nl @ ''remote_write:'' @ nl @ ''  - url: evil'' @ nl @ after"
    by (auto simp: scraping_cluster_def)
  then show ?thesis by blast
qed

theorem webhook_accepted_schedule_registers_witness:
  "registers (mem_operator (answer_page 200 ''ok'') (demo_transfer None)) (backup_cluster ''@daily'')"
proof (rule webhook_accepted_schedule_registers [where S = "mem_scheduler (answer_page 200 ''ok'') (demo_transfer None)" and V = strict_lib])
  show "cron_lib (sch_cron (mem_scheduler (answer_page 200 ''ok'') (demo_transfer None))) mem_jobs m_LastJob (\<lambda>s. s \<noteq> ''never'')"
    using mem_crontab.cron_lib_axioms by simp
  show "(s \<noteq> ''never'') = (ParseStandard strict_lib s = None)" for s
    by (simp add: strict_lib_def)
  show "ValidateCreate strict_lib (backup_cluster ''@daily'') = None"
    by (simp add: ValidateCreate_def validate_def validate_errors_def validateReplicas_def validateBackup_def
        validateScrapeConfigs_def strict_lib_def backup_cluster_def demo_cluster_def zero_value_defs Let_def)
qed simp

end
