(* ===== verification/TsdbCtl.thy ===== *)
theory TsdbCtl
  imports GoStrings ApiTypes "HOL-Library.Char_ord" "HOL-Library.List_Lexorder" "HOL-Library.Multiset"
begin

text \<open>
  The companion command (\<open>cmd/tsdb-ctl/main.go\<close>): listing the snapshots of a bucket and
  downloading one. The AWS client, the file system and the parsing of the flags are
  parameters, and so are \<open>time.Format\<close> and the choice \<open>sort.Slice\<close> makes among equal elements;
  paths (\<open>path/filepath\<close>), the copy loop and the printed text are written out.
\<close>

section \<open>Paths and numbers\<close>

fun split_on :: "char \<Rightarrow> string \<Rightarrow> string list" where
  "split_on c [] = [[]]"
| "split_on c (x # xs) =
     (if x = c then [] # split_on c xs else (x # hd (split_on c xs)) # tl (split_on c xs))"

fun join_with :: "char \<Rightarrow> string list \<Rightarrow> string" where
  "join_with c [] = []"
| "join_with c [x] = x"
| "join_with c (x # y # ys) = x @ c # join_with c (y # ys)"

abbreviation slash :: char where
  "slash \<equiv> CHR ''/''"

text \<open>\<open>filepath.Base\<close>: trailing slashes go, then everything up to the last slash.\<close>

definition trim_slashes :: "string \<Rightarrow> string" where
  "trim_slashes p = rev (dropWhile (\<lambda>c. c = slash) (rev p))"

definition Base :: "string \<Rightarrow> string" where
  "Base p =
     (if p = [] then ''.''
      else if trim_slashes p = [] then ''/''
      else rev (takeWhile (\<lambda>c. c \<noteq> slash) (rev (trim_slashes p))))"

text \<open>\<open>filepath.Clean\<close> on the elements of a path: the stack holds the elements kept, last first.\<close>

fun clean_elems :: "bool \<Rightarrow> string list \<Rightarrow> string list \<Rightarrow> string list" where
  "clean_elems rooted stack [] = rev stack"
| "clean_elems rooted stack (e # es) =
     (if e = [] \<or> e = ''.'' then clean_elems rooted stack es
      else if e = ''..'' then
        (case stack of
           [] \<Rightarrow> clean_elems rooted (if rooted then [] else [''..'']) es
         | d # ds \<Rightarrow> if d = ''..'' then clean_elems rooted (''..'' # stack) es else clean_elems rooted ds es)
      else clean_elems rooted (e # stack) es)"

definition Clean :: "string \<Rightarrow> string" where
  "Clean p =
     (let rooted = (p \<noteq> [] \<and> hd p = slash);
          out = (if rooted then [slash] else []) @ join_with slash (clean_elems rooted [] (split_on slash p))
      in if out = [] then ''.'' else out)"

definition Join :: "string \<Rightarrow> string \<Rightarrow> string" where
  "Join dir elem = (if dir = [] \<and> elem = [] then [] else if dir = [] then Clean elem
     else if elem = [] then Clean dir else Clean (dir @ slash # elem))"

fun decimal :: "nat \<Rightarrow> string" where
  "decimal n = (if n < 10 then [char_of (48 + n)] else decimal (n div 10) @ [char_of (48 + n mod 10)])"

declare decimal.simps [simp del]

definition decimal_int :: "int \<Rightarrow> string" where
  "decimal_int i = (if i < 0 then ''-'' @ decimal (nat (- i)) else decimal (nat i))"

definition pad_left :: "nat \<Rightarrow> string \<Rightarrow> string" where
  "pad_left w s = replicate (w - length s) CHR '' '' @ s"

section \<open>The clients\<close>

record s3_object =
  so_Key :: "string option"
  so_Size :: "int64 option"
  so_LastModified :: "timestamp option"

text \<open>The body of a \<open>GetObject\<close> answer: the chunks read from it, and the error that ends it early.\<close>

record object_body =
  ob_Chunks :: "string list"
  ob_Error :: "go_error option"

record 'w s3_client =
  ListObjectsV2 :: "string \<Rightarrow> string \<Rightarrow> 'w \<Rightarrow> s3_object list result \<times> 'w"
  GetObject :: "string \<Rightarrow> string \<Rightarrow> 'w \<Rightarrow> object_body result \<times> 'w"

text \<open>
  \<open>LoadClient\<close> is the configuration and the client made from it, for an endpoint and a region.
  \<open>SortByStamp\<close> is \<open>sort.Slice\<close> with the comparison of \<open>list\<close>. \<open>CreateFile\<close> truncates,
  \<open>WriteFile\<close> appends to the open file; \<open>Stdout\<close> prints.
\<close>

record ctl_entry =
  en_key :: string
  en_size :: int64
  en_stamp :: string

record 'w ctl_lib =
  LoadClient :: "string \<Rightarrow> string \<Rightarrow> 'w \<Rightarrow> 'w s3_client result \<times> 'w"
  FormatStamp :: "timestamp \<Rightarrow> string"
  SortByStamp :: "ctl_entry list \<Rightarrow> ctl_entry list"
  MkdirAll :: "string \<Rightarrow> 'w \<Rightarrow> unit result \<times> 'w"
  CreateFile :: "string \<Rightarrow> 'w \<Rightarrow> unit result \<times> 'w"
  WriteFile :: "string \<Rightarrow> string \<Rightarrow> 'w \<Rightarrow> unit result \<times> 'w"
  Stdout :: "string \<Rightarrow> 'w \<Rightarrow> 'w"

record s3Flags =
  fl_endpoint :: string
  fl_region :: string
  fl_bucket :: string
  fl_prefix :: string

text \<open>The flags before the command line is read.\<close>

definition bind_flags :: s3Flags where
  "bind_flags = \<lparr>fl_endpoint = [], fl_region = ''us-east-1'', fl_bucket = [], fl_prefix = []\<rparr>"

definition ctl_client :: "'w ctl_lib \<Rightarrow> s3Flags \<Rightarrow> 'w \<Rightarrow> 'w s3_client result \<times> 'w" where
  "ctl_client L f w =
     (if fl_bucket f = [] then (Inl (ErrorString ''--bucket is required''), w)
      else attempt ''load aws config'' (LoadClient L (fl_endpoint f) (fl_region f)) (\<lambda>c w. (Inr c, w)) w)"

section \<open>list\<close>

definition to_string :: "string option \<Rightarrow> string" where
  "to_string x = (case x of None \<Rightarrow> [] | Some s \<Rightarrow> s)"

definition stamp_of :: "'w ctl_lib \<Rightarrow> s3_object \<Rightarrow> string" where
  "stamp_of L o1 = FormatStamp L (case so_LastModified o1 of None \<Rightarrow> 0 | Some t \<Rightarrow> t)"

definition entry_of :: "'w ctl_lib \<Rightarrow> s3_object \<Rightarrow> ctl_entry" where
  "entry_of L o1 =
     \<lparr>en_key = to_string (so_Key o1), en_size = (case so_Size o1 of None \<Rightarrow> 0 | Some n \<Rightarrow> n),
      en_stamp = stamp_of L o1\<rparr>"

definition print_entry :: "ctl_entry \<Rightarrow> string" where
  "print_entry e =
     en_stamp e @ ''  '' @ pad_left 10 (decimal_int (sint (en_size e))) @ ''  '' @ en_key e @ [newline]"

definition list_snapshots :: "'w ctl_lib \<Rightarrow> s3Flags \<Rightarrow> 'w \<Rightarrow> unit result \<times> 'w" where
  "list_snapshots L f w =
     (case ctl_client L f w of
        (Inl e, w) \<Rightarrow> (Inl e, w)
      | (Inr c, w) \<Rightarrow>
          attempt ''list objects'' (ListObjectsV2 c (fl_bucket f) (fl_prefix f)) (\<lambda>contents w.
            (Inr (), fold (\<lambda>e w. Stdout L (print_entry e) w) (SortByStamp L (map (entry_of L) contents)) w)) w)"

section \<open>restore\<close>

fun latest_loop :: "'w ctl_lib \<Rightarrow> s3_object list \<Rightarrow> string \<Rightarrow> string \<Rightarrow> string" where
  "latest_loop L [] newest newestStamp = newest"
| "latest_loop L (o1 # os) newest newestStamp =
     (if newestStamp < stamp_of L o1 then latest_loop L os (to_string (so_Key o1)) (stamp_of L o1)
      else latest_loop L os newest newestStamp)"

definition latestKey :: "'w ctl_lib \<Rightarrow> 'w s3_client \<Rightarrow> string \<Rightarrow> string \<Rightarrow> 'w \<Rightarrow> string result \<times> 'w" where
  "latestKey L c bucket prefix =
     attempt ''list objects'' (ListObjectsV2 c bucket prefix) (\<lambda>contents w. (Inr (latest_loop L contents [] []), w))"

text \<open>\<open>io.Copy\<close> from the body to the file: the number of bytes written, or the first error.\<close>

fun copy_chunks ::
    "'w ctl_lib \<Rightarrow> string \<Rightarrow> string list \<Rightarrow> go_error option \<Rightarrow> nat \<Rightarrow> 'w \<Rightarrow> nat result \<times> 'w" where
  "copy_chunks L path [] err n w = (case err of None \<Rightarrow> Inr n | Some e \<Rightarrow> Inl e, w)"
| "copy_chunks L path (ch # chs) err n w =
     (case WriteFile L path ch w of
        (Inl e, w) \<Rightarrow> (Inl e, w)
      | (Inr _, w) \<Rightarrow> copy_chunks L path chs err (n + length ch) w)"

definition next_steps :: "string \<Rightarrow> string \<Rightarrow> string list" where
  "next_steps local tarName =
     [[newline], ''Next steps:'' @ [newline],
      ''  1. kubectl cp '' @ local @ '' <ns>/<prometheus-pod>:/prometheus/'' @ [newline],
      ''  2. kubectl exec -n <ns> <prometheus-pod> -- tar -xf /prometheus/'' @ tarName @ '' -C /prometheus/'' @ [newline],
      ''  3. Delete the pod so the StatefulSet reschedules with restored data.'' @ [newline]]"

text \<open>The arrow of the first line is the three bytes of U+2192.\<close>

definition download_report :: "string \<Rightarrow> string \<Rightarrow> string \<Rightarrow> nat \<Rightarrow> string" where
  "download_report bucket key local n =
     ''downloaded s3://'' @ bucket @ ''/'' @ key @ '' '' @ map char_of (encode_rune 0x2192) @ '' '' @ local @
     '' ('' @ decimal n @ '' bytes)'' @ [newline]"

definition resolve_key ::
    "'w ctl_lib \<Rightarrow> 'w s3_client \<Rightarrow> s3Flags \<Rightarrow> string \<Rightarrow> 'w \<Rightarrow> string result \<times> 'w" where
  "resolve_key L c f key w =
     (if key \<noteq> [] then (Inr key, w)
      else (case latestKey L c (fl_bucket f) (fl_prefix f) w of
              (Inl e, w) \<Rightarrow> (Inl e, w)
            | (Inr latest, w) \<Rightarrow>
                if latest = []
                then (Inl (ErrorString (''no objects under s3://'' @ fl_bucket f @ ''/'' @ fl_prefix f)), w)
                else (Inr latest, w)))"

definition download ::
    "'w ctl_lib \<Rightarrow> 'w s3_client \<Rightarrow> s3Flags \<Rightarrow> string \<Rightarrow> string \<Rightarrow> 'w \<Rightarrow> unit result \<times> 'w" where
  "download L c f dest key =
     attempt ''mkdir dest'' (MkdirAll L dest) (\<lambda>_.
       let local = Join dest (Base key) in
       attempt ''create file'' (CreateFile L local) (\<lambda>_.
       attempt ''get object'' (GetObject c (fl_bucket f) key) (\<lambda>body.
       attempt ''write snapshot'' (copy_chunks L local (ob_Chunks body) (ob_Error body) 0) (\<lambda>n w.
         (Inr (), fold (Stdout L) (download_report (fl_bucket f) key local n # next_steps local (Base key)) w)))))"

definition restore :: "'w ctl_lib \<Rightarrow> s3Flags \<Rightarrow> string \<Rightarrow> string \<Rightarrow> 'w \<Rightarrow> unit result \<times> 'w" where
  "restore L f key dest w =
     (case ctl_client L f w of
        (Inl e, w) \<Rightarrow> (Inl e, w)
      | (Inr c, w) \<Rightarrow>
          (case resolve_key L c f key w of
             (Inl e, w) \<Rightarrow> (Inl e, w)
           | (Inr resolved, w) \<Rightarrow> download L c f dest resolved w))"

section \<open>The command line\<close>

text \<open>
  \<open>main\<close> returns the exit code. Parsing the flags of a command either exits with a code of its
  own (2 for a bad flag, 0 after printing the help) or yields the flags, the key and the
  destination.
\<close>

definition ctl_main ::
    "'w ctl_lib \<Rightarrow> (string \<Rightarrow> string list \<Rightarrow> int + s3Flags \<times> string \<times> string) \<Rightarrow>
     (string \<Rightarrow> 'w \<Rightarrow> 'w) \<Rightarrow> string \<Rightarrow> string list \<Rightarrow> 'w \<Rightarrow> int \<times> 'w" where
  "ctl_main L parse Stderr usage args w =
     (let report = (\<lambda>(r, w). case r of Inr _ \<Rightarrow> (0, w) | Inl e \<Rightarrow> (1, Stderr (''error: '' @ err_text e @ [newline]) w))
      in case args of
           prog # cmd # rest \<Rightarrow>
             if cmd = ''restore'' then
               (case parse cmd rest of
                  Inl code \<Rightarrow> (code, w)
                | Inr (f, key, dest) \<Rightarrow> report (restore L f key dest w))
             else if cmd = ''list'' then
               (case parse cmd rest of
                  Inl code \<Rightarrow> (code, w)
                | Inr (f, _) \<Rightarrow> report (list_snapshots L f w))
             else (2, Stderr usage w)
         | _ \<Rightarrow> (2, Stderr usage w))"

section \<open>Which snapshot is chosen\<close>

lemma latest_loop_max:
  "\<exists>stamp. (latest_loop L os newest newestStamp, stamp) \<in> set ((newest, newestStamp) #
       map (\<lambda>o1. (to_string (so_Key o1), stamp_of L o1)) os) \<and>
     newestStamp \<le> stamp \<and> (\<forall>o1 \<in> set os. stamp_of L o1 \<le> stamp)"
proof (induction os arbitrary: newest newestStamp)
  case (Cons o1 os)
  show ?case
  proof (cases "newestStamp < stamp_of L o1")
    case True
    obtain stamp where "(latest_loop L os (to_string (so_Key o1)) (stamp_of L o1), stamp) \<in>
        set ((to_string (so_Key o1), stamp_of L o1) # map (\<lambda>o1. (to_string (so_Key o1), stamp_of L o1)) os)"
      and "stamp_of L o1 \<le> stamp" "\<forall>o1 \<in> set os. stamp_of L o1 \<le> stamp"
      using Cons.IH by blast
    moreover from this(2) True have "newestStamp \<le> stamp" by simp
    ultimately show ?thesis using True by (intro exI [of _ stamp]) simp
  next
    case False
    obtain stamp where "(latest_loop L os newest newestStamp, stamp) \<in>
        set ((newest, newestStamp) # map (\<lambda>o1. (to_string (so_Key o1), stamp_of L o1)) os)"
      and "newestStamp \<le> stamp" "\<forall>o1 \<in> set os. stamp_of L o1 \<le> stamp"
      using Cons.IH by blast
    moreover from this(2) False have "stamp_of L o1 \<le> stamp" by simp
    ultimately show ?thesis using False by (intro exI [of _ stamp]) auto
  qed
qed simp

lemma latest_loop_key:
  assumes "\<And>t. FormatStamp L t \<noteq> []" and "os \<noteq> []"
  obtains o1 where "o1 \<in> set os" "latest_loop L os [] [] = to_string (so_Key o1)"
    "\<And>o'. o' \<in> set os \<Longrightarrow> stamp_of L o' \<le> stamp_of L o1"
proof -
  obtain stamp where stamp: "(latest_loop L os [] [], stamp) \<in> set (([], []) #
       map (\<lambda>o1. (to_string (so_Key o1), stamp_of L o1)) os)"
    and max: "\<And>o1. o1 \<in> set os \<Longrightarrow> stamp_of L o1 \<le> stamp"
    using latest_loop_max [of L os "[]" "[]"] by blast
  have "stamp_of L (hd os) \<le> stamp" and "stamp_of L (hd os) \<noteq> []"
    using assms max by (simp_all add: stamp_of_def)
  then have "stamp \<noteq> []" by auto
  with stamp max show ?thesis by (auto intro: that)
qed

lemma latest_loop_ascending:
  assumes "sorted_wrt (\<lambda>a b. stamp_of L a < stamp_of L b) (o1 # os)" and "newestStamp < stamp_of L o1"
  shows "latest_loop L (o1 # os) newest newestStamp = to_string (so_Key (last (o1 # os)))"
  using assms
proof (induction os arbitrary: o1 newest newestStamp)
  case (Cons o2 os)
  have "latest_loop L (o1 # o2 # os) newest newestStamp =
      latest_loop L (o2 # os) (to_string (so_Key o1)) (stamp_of L o1)"
    using Cons.prems(2) by (simp only: latest_loop.simps if_True)
  also have "\<dots> = to_string (so_Key (last (o2 # os)))"
    using Cons.prems(1) by (intro Cons.IH) auto
  finally show ?case by simp
qed simp

section \<open>What a download does\<close>

text \<open>
  The key that is downloaded: the given one, or the newest of the page that is listed; then the
  directory is made and the file created; then the object's answer decides what the file holds.
\<close>

definition picked ::
    "'w ctl_lib \<Rightarrow> 'w s3_client \<Rightarrow> s3Flags \<Rightarrow> string \<Rightarrow> 'w \<Rightarrow> string \<Rightarrow> 'w \<Rightarrow> bool" where
  "picked L c f key w resolved w' \<longleftrightarrow> resolved \<noteq> [] \<and>
     (if key \<noteq> [] then resolved = key \<and> w' = w
      else latestKey L c (fl_bucket f) (fl_prefix f) w = (Inr resolved, w'))"

definition opened :: "'w ctl_lib \<Rightarrow> string \<Rightarrow> string \<Rightarrow> 'w \<Rightarrow> 'w \<Rightarrow> bool" where
  "opened L dest key w w' \<longleftrightarrow>
     (\<exists>u. MkdirAll L dest w = (Inr (), u) \<and> CreateFile L (Join dest (Base key)) u = (Inr (), w'))"

definition downloaded ::
    "('w \<Rightarrow> string \<rightharpoonup> string) \<Rightarrow> string \<Rightarrow> object_body result \<Rightarrow> unit result \<Rightarrow> (string \<rightharpoonup> string) \<Rightarrow> 'w \<Rightarrow> bool" where
  "downloaded files path answer r old w' \<longleftrightarrow>
     (case answer of
        Inl e \<Rightarrow> r = Inl (Wrapped ''get object'' e) \<and> files w' = old(path \<mapsto> [])
      | Inr body \<Rightarrow>
          (case r of
             Inr _ \<Rightarrow> ob_Error body = None \<and> files w' = old(path \<mapsto> concat (ob_Chunks body))
           | Inl _ \<Rightarrow> (\<exists>k. files w' = old(path \<mapsto> take k (concat (ob_Chunks body))))))"

section \<open>The file system\<close>

text \<open>
  What the download relies on: making the directory, asking the object store and printing touch
  no file, creating a file truncates it, and a write appends its bytes, or some first part of
  them when it fails.
\<close>

locale ctl_files =
  fixes L :: "'w ctl_lib" and c :: "'w s3_client" and files :: "'w \<Rightarrow> string \<rightharpoonup> string"
  assumes mkdir_files: "MkdirAll L dir w = (done1, w') \<Longrightarrow> files w' = files w"
    and create_ok: "CreateFile L path w = (Inr u, w') \<Longrightarrow> files w' = (files w)(path \<mapsto> [])"
    and create_error: "CreateFile L path w = (Inl e, w') \<Longrightarrow> files w' = files w"
    and write_ok: "WriteFile L path bytes w = (Inr u, w') \<Longrightarrow> files w path = Some old \<Longrightarrow>
      files w' = (files w)(path \<mapsto> old @ bytes)"
    and write_error: "WriteFile L path bytes w = (Inl e, w') \<Longrightarrow> files w path = Some old \<Longrightarrow>
      \<exists>k. files w' = (files w)(path \<mapsto> old @ take k bytes)"
    and print_files: "files (Stdout L line w) = files w"
    and list_files: "ListObjectsV2 c bucket prefix w = (page, w') \<Longrightarrow> files w' = files w"
    and get_files: "GetObject c bucket key w = (got, w') \<Longrightarrow> files w' = files w"
begin

lemma print_all_files: "files (fold (Stdout L) lines w) = files w"
  by (induction lines arbitrary: w) (simp_all add: print_files)

lemma copy_chunks_files:
  assumes "copy_chunks L path chs err n w = (r, w')" and "files w path = Some old"
  shows "\<exists>k. files w' = (files w)(path \<mapsto> old @ take k (concat chs))"
    and "r = Inr m \<Longrightarrow> files w' = (files w)(path \<mapsto> old @ concat chs) \<and> m = n + length (concat chs) \<and> err = None"
proof -
  have "(\<exists>k. files w' = (files w)(path \<mapsto> old @ take k (concat chs))) \<and>
    (r = Inr m \<longrightarrow> files w' = (files w)(path \<mapsto> old @ concat chs) \<and> m = n + length (concat chs) \<and> err = None)"
    using assms
  proof (induction chs arbitrary: n w old)
    case Nil
    then have "(files w)(path \<mapsto> old) = files w" by auto
    with Nil show ?case by (auto split: option.splits)
  next
    case (Cons ch chs)
    obtain x w1 where wr: "WriteFile L path ch w = (x, w1)" by fastforce
    show ?case
    proof (cases x)
      case (Inl e)
      with wr write_error [of path ch w e w1 old] Cons.prems obtain k where
        k: "files w1 = (files w)(path \<mapsto> old @ take k ch)" by auto
      have "take k ch = take (min k (length ch)) (concat (ch # chs))" by (simp add: min_def)
      moreover have "r = Inl e" "w' = w1" using Cons.prems(1) wr Inl by simp_all
      ultimately show ?thesis using k by (intro conjI exI [of _ "min k (length ch)"]) simp_all
    next
      case (Inr u)
      with wr write_ok Cons.prems have w1: "files w1 = (files w)(path \<mapsto> old @ ch)" by auto
      have run: "copy_chunks L path chs err (n + length ch) w1 = (r, w')" using Cons.prems(1) wr Inr by simp
      have upd: "(files w1)(path \<mapsto> x) = (files w)(path \<mapsto> x)" for x by (simp add: w1)
      have "files w1 path = Some (old @ ch)" by (simp add: w1)
      from Cons.IH [OF run this, unfolded upd append_assoc] obtain k where
        k: "files w' = (files w)(path \<mapsto> old @ ch @ take k (concat chs))"
        and rest: "r = Inr m \<longrightarrow> files w' = (files w)(path \<mapsto> old @ ch @ concat chs) \<and>
          m = n + length ch + length (concat chs) \<and> err = None"
        by blast
      show ?thesis
        by (intro conjI exI [of _ "length ch + k"]) (use k rest in \<open>simp_all add: add.assoc\<close>)
    qed
  qed
  then show "\<exists>k. files w' = (files w)(path \<mapsto> old @ take k (concat chs))"
    and "r = Inr m \<Longrightarrow> files w' = (files w)(path \<mapsto> old @ concat chs) \<and> m = n + length (concat chs) \<and> err = None"
    by auto
qed

lemma download_files:
  assumes "download L c f dest key w = (r, w')"
  shows "if \<exists>w2. opened L dest key w w2
    then \<exists>w2. opened L dest key w w2 \<and>
      downloaded files (Join dest (Base key)) (fst (GetObject c (fl_bucket f) key w2)) r (files w) w'
    else (\<exists>e. r = Inl e) \<and> files w' = files w"
proof -
  let ?local = "Join dest (Base key)"
  obtain r1 w1 where mk: "MkdirAll L dest w = (r1, w1)" by fastforce
  obtain r2 w2 where cr: "CreateFile L ?local w1 = (r2, w2)" by fastforce
  obtain r3 w3 where gt: "GetObject c (fl_bucket f) key w2 = (r3, w3)" by fastforce
  note steps = mkdir_files [OF mk] get_files [OF gt]
  have opened: "opened L dest key w u \<longleftrightarrow> r1 = Inr () \<and> r2 = Inr () \<and> u = w2" for u
    using mk cr by (auto simp: opened_def)
  show ?thesis
  proof (cases "r1 = Inr () \<and> r2 = Inr ()")
    case False
    with assms mk cr steps create_error show ?thesis
      by (cases r1; cases r2) (auto simp: opened download_def Let_def)
  next
    case True
    have w2: "files w2 = (files w)(?local \<mapsto> [])" using create_ok cr True steps by simp
    have "downloaded files ?local r3 r (files w) w'"
    proof (cases r3)
      case (Inl e)
      with assms mk cr gt True steps w2 show ?thesis by (auto simp: download_def Let_def downloaded_def)
    next
      case r3: (Inr body)
      obtain r4 w4 where cp: "copy_chunks L ?local (ob_Chunks body) (ob_Error body) 0 w3 = (r4, w4)" by fastforce
      have start: "files w3 ?local = Some []" using w2 steps by simp
      have upd: "(files w3)(?local \<mapsto> x) = (files w)(?local \<mapsto> x)" for x using w2 steps by simp
      note copied = copy_chunks_files [OF cp start, unfolded upd append_Nil]
      show ?thesis
      proof (cases r4)
        case (Inl e)
        with assms mk cr gt cp True r3 have "r = Inl (Wrapped ''write snapshot'' e)" "w' = w4"
          by (auto simp: download_def Let_def)
        with copied(1) r3 show ?thesis by (auto simp: downloaded_def)
      next
        case (Inr m)
        with assms mk cr gt cp True r3 have "r = Inr ()" "files w' = files w4"
          by (auto simp: download_def Let_def print_all_files print_files)
        with copied(2) [OF Inr] r3 show ?thesis by (auto simp: downloaded_def)
      qed
    qed
    then show ?thesis using True gt by (auto simp: opened)
  qed
qed

lemma resolve_key_files: "resolve_key L c f key w = (r, w') \<Longrightarrow> files w' = files w"
  by (auto simp: resolve_key_def latestKey_def attempt_def split: if_splits prod.splits sum.splits dest: list_files)

end

section \<open>Properties\<close>

text \<open>
  Without a key, \<open>restore\<close> picks what \<open>list\<close> shows first: the object it downloads has the
  time stamp of the first line of the listing of the same page, and that is the newest stamp of
  the page. On an empty page it picks nothing and reports that there is no object.
\<close>

theorem restore_picks_what_list_shows:
  assumes "ListObjectsV2 c (fl_bucket f) (fl_prefix f) w = (Inr page, w')"
    and "mset (SortByStamp L (map (entry_of L) page)) = mset (map (entry_of L) page)"
    and "sorted_wrt (\<lambda>a b. en_stamp b \<le> en_stamp a) (SortByStamp L (map (entry_of L) page))"
    and "\<And>t. FormatStamp L t \<noteq> []"
  shows "latestKey L c (fl_bucket f) (fl_prefix f) w = (Inr (latest_loop L page [] []), w') \<and>
    (if page = [] then latest_loop L page [] [] = []
     else \<exists>e \<in> set (SortByStamp L (map (entry_of L) page)). latest_loop L page [] [] = en_key e \<and>
       en_stamp e = en_stamp (hd (SortByStamp L (map (entry_of L) page))) \<and>
       (\<forall>e' \<in> set (SortByStamp L (map (entry_of L) page)). en_stamp e' \<le> en_stamp e))"
proof -
  let ?shown = "SortByStamp L (map (entry_of L) page)"
  have shown: "set ?shown = entry_of L ` set page" using mset_eq_setD [OF assms(2)] by simp
  have entry: "en_key (entry_of L o1) = to_string (so_Key o1)" "en_stamp (entry_of L o1) = stamp_of L o1" for o1
    by (simp_all add: entry_of_def)
  have "\<exists>e \<in> set ?shown. latest_loop L page [] [] = en_key e \<and> en_stamp e = en_stamp (hd ?shown) \<and>
      (\<forall>e' \<in> set ?shown. en_stamp e' \<le> en_stamp e)" if "page \<noteq> []"
  proof -
    obtain o1 where o1: "o1 \<in> set page" "latest_loop L page [] [] = to_string (so_Key o1)"
      and max: "\<And>o'. o' \<in> set page \<Longrightarrow> stamp_of L o' \<le> stamp_of L o1"
      using latest_loop_key [OF assms(4) \<open>page \<noteq> []\<close>] by metis
    have "?shown \<noteq> []" using shown that by auto
    then obtain x xs where xs: "?shown = x # xs" by (cases ?shown) auto
    have "en_stamp (entry_of L o1) \<le> en_stamp x"
      using assms(3) shown o1(1) unfolding xs by auto
    moreover have "en_stamp x \<le> stamp_of L o1"
      using max shown xs entry(2) by (metis imageE list.set_intros(1))
    ultimately have "en_stamp (entry_of L o1) = en_stamp x" by (simp add: entry(2))
    with o1 max shown xs show ?thesis by (intro bexI [of _ "entry_of L o1"]) (auto simp: entry)
  qed
  then show ?thesis using assms(1) by (simp add: latestKey_def)
qed

text \<open>
  \<open>restore\<close> reads one page of the listing only. The object store answers with the first 1000
  keys, and the keys of a cluster's backups ascend with their time stamps: with more than 1000
  backups under the prefix the key it picks is that of the 1000th oldest, not of the newest.
\<close>

theorem latestKey_reads_one_page:
  assumes "ListObjectsV2 c bucket prefix w = (Inr (take 1000 stored), w')"
    and "1000 < length stored" and "distinct (map so_Key stored)" and "\<forall>o1 \<in> set stored. so_Key o1 \<noteq> None"
    and "sorted_wrt (\<lambda>a b. stamp_of L a < stamp_of L b) stored" and "\<And>t. FormatStamp L t \<noteq> []"
  shows "latestKey L c bucket prefix w = (Inr (to_string (so_Key (stored ! 999))), w') \<and>
    to_string (so_Key (stored ! 999)) \<noteq> to_string (so_Key (last stored))"
proof -
  have "take 1000 stored \<noteq> []" and len: "length (take 1000 stored) = 1000" using assms(2) by auto
  then obtain o1 os where page: "take 1000 stored = o1 # os" by (cases "take 1000 stored") auto
  have "sorted_wrt (\<lambda>a b. stamp_of L a < stamp_of L b) (o1 # os)"
    using sorted_wrt_take [OF assms(5), of 1000] by (simp only: page)
  moreover have "[] < stamp_of L o1" using assms(6) by (cases "stamp_of L o1") (auto simp: stamp_of_def)
  ultimately have "latest_loop L (take 1000 stored) [] [] = to_string (so_Key (last (take 1000 stored)))"
    unfolding page by (rule latest_loop_ascending)
  also have "last (take 1000 stored) = take 1000 stored ! (length (take 1000 stored) - 1)"
    by (rule last_conv_nth) fact
  also have "\<dots> = stored ! 999" using assms(2) by simp
  finally have "latest_loop L (take 1000 stored) [] [] = to_string (so_Key (stored ! 999))" .
  moreover have "so_Key (stored ! 999) \<noteq> so_Key (last stored)"
  proof -
    have "stored \<noteq> []" using assms(2) by auto
    then have "so_Key (last stored) = map so_Key stored ! (length stored - 1)" by (simp add: last_conv_nth)
    moreover have "so_Key (stored ! 999) = map so_Key stored ! 999" using assms(2) by simp
    ultimately show ?thesis using nth_eq_iff_index_eq [OF assms(3), of 999 "length stored - 1"] assms(2) by simp
  qed
  moreover have "stored ! 999 \<in> set stored" "last stored \<in> set stored" using assms(2) by (auto intro: last_in_set)
  ultimately show ?thesis using assms(1,4) by (auto simp: latestKey_def to_string_def split: option.splits)
qed


text \<open>
  A failed download destroys the local copy. The file is created, and so emptied, before the
  object is requested: when the request fails, for a key that does not exist or for lack of
  permission, a snapshot downloaded earlier under the same name is gone.
\<close>

theorem restore_truncates_before_request:
  assumes "ctl_files L c files" and "ctl_client L f w = (Inr c, w1)" and "files w1 = files w" and "key \<noteq> []"
    and "MkdirAll L dest w1 = (Inr u, w2)" and "CreateFile L (Join dest (Base key)) w2 = (Inr v, w3)"
    and "GetObject c (fl_bucket f) key w3 = (Inl e, w4)"
  shows "restore L f key dest w = (Inl (Wrapped ''get object'' e), w4) \<and>
    files w4 = (files w)(Join dest (Base key) \<mapsto> [])"
  using assms(2-7) ctl_files.mkdir_files [OF assms(1,5)] ctl_files.create_ok [OF assms(1,6)]
    ctl_files.get_files [OF assms(1,7)]
  by (simp add: restore_def resolve_key_def download_def Let_def)

end
