(* ===== verification/CtlWitnesses.thy ===== *)
theory CtlWitnesses
  imports TsdbCtl
begin

text \<open>
  The command on a reference object store and file system: a bucket is a list of objects, of
  which a listing returns the first 1000; the files are an association list. The laws of
  \<open>ctl_files\<close> hold there, and the properties of \<open>TsdbCtl\<close> are witnessed.
\<close>

record disk =
  dk_Files :: "(string \<times> string) list"
  dk_Printed :: "string list"

definition dk_file :: "disk \<Rightarrow> string \<rightharpoonup> string" where
  "dk_file w = map_of (dk_Files w)"

definition dk_append :: "string \<Rightarrow> string \<Rightarrow> disk \<Rightarrow> unit result \<times> disk" where
  "dk_append path bytes w =
     (case dk_file w path of
        None \<Rightarrow> (Inl (ErrorString ''file already closed''), w)
      | Some old \<Rightarrow> (Inr (), w\<lparr>dk_Files := (path, old @ bytes) # dk_Files w\<rparr>))"

definition dk_client :: "s3_object list \<Rightarrow> (string \<Rightarrow> object_body result) \<Rightarrow> disk s3_client" where
  "dk_client objects answer =
     \<lparr>ListObjectsV2 = (\<lambda>_ _ w. (Inr (take 1000 objects), w)), GetObject = (\<lambda>_ key w. (answer key, w))\<rparr>"

definition dk_stamp :: "timestamp \<Rightarrow> string" where
  "dk_stamp t = replicate (Suc (nat t)) CHR ''x''"

definition dk_lib :: "disk s3_client \<Rightarrow> disk ctl_lib" where
  "dk_lib c =
     \<lparr>LoadClient = (\<lambda>_ _ w. (Inr c, w)), FormatStamp = dk_stamp,
      SortByStamp = (\<lambda>es. rev (sort_key en_stamp es)), MkdirAll = (\<lambda>_ w. (Inr (), w)),
      CreateFile = (\<lambda>path w. (Inr (), w\<lparr>dk_Files := (path, []) # dk_Files w\<rparr>)),
      WriteFile = dk_append, Stdout = (\<lambda>line w. w\<lparr>dk_Printed := dk_Printed w @ [line]\<rparr>)\<rparr>"

lemma dk_lib_fields [simp]:
  "LoadClient (dk_lib c) e r w = (Inr c, w)" "FormatStamp (dk_lib c) = dk_stamp"
  "SortByStamp (dk_lib c) es = rev (sort_key en_stamp es)" "MkdirAll (dk_lib c) d w = (Inr (), w)"
  "CreateFile (dk_lib c) p w = (Inr (), w\<lparr>dk_Files := (p, []) # dk_Files w\<rparr>)"
  "WriteFile (dk_lib c) = dk_append" "Stdout (dk_lib c) line w = w\<lparr>dk_Printed := dk_Printed w @ [line]\<rparr>"
  by (simp_all add: dk_lib_def)

lemma dk_client_fields [simp]:
  "ListObjectsV2 (dk_client os answer) b p w = (Inr (take 1000 os), w)"
  "GetObject (dk_client os answer) b key w = (answer key, w)"
  by (simp_all add: dk_client_def)

interpretation disk_files: ctl_files "dk_lib (dk_client os answer)" "dk_client os answer" dk_file
  for os answer
  by unfold_locales (auto simp: dk_file_def dk_append_def split: option.splits)

section \<open>Witnesses\<close>

definition numbered :: "nat \<Rightarrow> s3_object" where
  "numbered i = \<lparr>so_Key = Some (replicate i CHR ''k''), so_Size = Some 1, so_LastModified = Some (int i)\<rparr>"

lemma stamp_numbered [simp]: "stamp_of (dk_lib c) (numbered i) = replicate (Suc i) CHR ''x''"
  by (simp add: stamp_of_def numbered_def dk_stamp_def)

lemma replicate_less: "replicate i (x :: char) < replicate j x \<longleftrightarrow> i < j"
proof (induction i arbitrary: j)
  case 0
  then show ?case by (cases j) auto
next
  case (Suc i)
  then show ?case by (cases j) auto
qed

definition many :: "s3_object list" where
  "many = map numbered [0..<1001]"

definition ctl_flags :: s3Flags where
  "ctl_flags = bind_flags\<lparr>fl_bucket := ''backups''\<rparr>"

lemma ctl_client_disk [simp]: "ctl_client (dk_lib c) ctl_flags w = (Inr c, w)"
  by (simp add: ctl_client_def ctl_flags_def bind_flags_def attempt_def)

definition one_body :: "string \<Rightarrow> object_body result" where
  "one_body key = (if key = ''gone'' then Inl (ErrorString ''NoSuchKey'')
     else Inr \<lparr>ob_Chunks = [''ab'', ''c''], ob_Error = None\<rparr>)"

definition old_disk :: disk where
  "old_disk = \<lparr>dk_Files = [(''r/gone'', ''precious'')], dk_Printed = []\<rparr>"

theorem latestKey_reads_one_page_witness:
  "fst (latestKey (dk_lib (dk_client many one_body)) (dk_client many one_body) [] [] old_disk) =
     Inr (replicate 999 CHR ''k'')"
proof -
  let ?c = "dk_client many one_body"
  have "ListObjectsV2 ?c [] [] old_disk = (Inr (take 1000 many), old_disk)" "1000 < length many"
    by (simp_all add: many_def)
  moreover have "distinct (map so_Key many)" "\<forall>o1 \<in> set many. so_Key o1 \<noteq> None"
    by (auto simp: many_def numbered_def distinct_map inj_on_def)
  moreover have "sorted_wrt (\<lambda>a b. stamp_of (dk_lib ?c) a < stamp_of (dk_lib ?c) b) many"
    by (simp add: many_def sorted_wrt_map replicate_less del: replicate_Suc)
  moreover have "FormatStamp (dk_lib ?c) t \<noteq> []" for t by (simp add: dk_stamp_def)
  ultimately have "latestKey (dk_lib ?c) ?c [] [] old_disk = (Inr (to_string (so_Key (many ! 999))), old_disk)"
    by (blast dest: latestKey_reads_one_page)
  then show ?thesis by (simp add: many_def numbered_def to_string_def)
qed

theorem restore_picks_what_list_shows_witness:
  "\<exists>e :: ctl_entry. latest_loop (dk_lib (dk_client many one_body)) (take 1000 many) [] [] = en_key e \<and>
     en_stamp e = en_stamp (hd (SortByStamp (dk_lib (dk_client many one_body))
       (map (entry_of (dk_lib (dk_client many one_body))) (take 1000 many))))"
proof -
  let ?c = "dk_client many one_body"
  let ?L = "dk_lib ?c"
  let ?shown = "SortByStamp ?L (map (entry_of ?L) (take 1000 many))"
  have page: "ListObjectsV2 ?c (fl_bucket ctl_flags) (fl_prefix ctl_flags) old_disk = (Inr (take 1000 many), old_disk)"
    by simp
  have perm: "mset ?shown = mset (map (entry_of ?L) (take 1000 many))" by simp
  have "sorted (map en_stamp (sort_key en_stamp (map (entry_of ?L) (take 1000 many))))" by simp
  then have order: "sorted_wrt (\<lambda>a b. en_stamp b \<le> en_stamp a) ?shown" by (simp add: sorted_map sorted_wrt_rev)
  have "FormatStamp ?L t \<noteq> []" for t by (simp add: dk_stamp_def)
  note chosen = restore_picks_what_list_shows [OF page perm order this, THEN conjunct2]
  have "take 1000 many \<noteq> []" by (simp add: many_def)
  from chosen [unfolded if_not_P [OF this]] show ?thesis by blast
qed


theorem restore_truncates_before_request_witness:
  "dk_file old_disk ''r/gone'' = Some ''precious'' \<and>
   dk_file (snd (restore (dk_lib (dk_client [] one_body)) ctl_flags ''gone'' ''r'' old_disk)) ''r/gone'' = Some []"
proof -
  let ?c = "dk_client [] one_body"
  have "Join ''r'' (Base ''gone'') = ''r/gone''"
    by (simp add: Join_def Base_def trim_slashes_def Clean_def Let_def)
  moreover have "GetObject ?c (fl_bucket ctl_flags) ''gone'' w = (Inl (ErrorString ''NoSuchKey''), w)" for w
    by (simp add: one_body_def)
  ultimately show ?thesis
    using restore_truncates_before_request [OF disk_files.ctl_files_axioms ctl_client_disk refl,
        where key = "''gone''" and dest = "''r''" and w = old_disk]
    by (simp add: old_disk_def dk_file_def)
qed

end
