(* ===== verification/Interference.thy ===== *)
theory Interference
  imports KubeClient
begin

text \<open>
  Other actors in the middle of a pass. The guarantees of \<open>ClusterGuarantees\<close> speak of passes
  during which nobody else writes. Here the API server moves between any two calls of the
  operator, and reads may come from a cache that lags behind: users edit objects, other
  controllers and other goroutines of the operator write. What protects their changes is
  \<open>resourceVersion\<close>: a write that carries an old one is refused.

  \<open>contend\<close> wraps a call of the client: before it the others move, and the state of the server
  just before and just after the call goes into a journal. The handlers run unchanged on a
  client of wrapped calls. Which objects another actor may see and write is not restricted
  beyond the laws of the server.

  The laws are those of a versioned store, weaker than those of \<open>KubeClient\<close>: what a read
  returns was stored at some time before (\<open>get_seen\<close>), a version is never used for two objects
  of one key (\<open>same_version\<close>), and a write with a version that is not the stored one fails and
  changes nothing (\<open>update_stale\<close>, \<open>status_stale\<close>).
\<close>

section \<open>A contested server\<close>

record 'w contested =
  server :: 'w
  turn :: nat
  moves :: "nat \<Rightarrow> 'w \<Rightarrow> 'w"
  journal :: "('w \<times> 'w) list"

definition contend :: "('w \<Rightarrow> 'a \<times> 'w) \<Rightarrow> 'w contested \<Rightarrow> 'a \<times> 'w contested" where
  "contend f c =
     (let w = moves c (turn c) (server c)
      in case f w of (r, w') \<Rightarrow>
           (r, c\<lparr>server := w', turn := Suc (turn c), journal := journal c @ [(w, w')]\<rparr>))"

definition contend_resource :: "('w, 'o) resource \<Rightarrow> ('w contested, 'o) resource" where
  "contend_resource R =
     \<lparr>Get = (\<lambda>k. contend (Get R k)), List = (\<lambda>opts. contend (List R opts)),
      Create = (\<lambda>x. contend (Create R x)), Update = (\<lambda>x. contend (Update R x)),
      StatusUpdate = (\<lambda>x. contend (StatusUpdate R x)), Delete = (\<lambda>k. contend (Delete R k))\<rparr>"

definition contend_client :: "'w client \<Rightarrow> 'w contested client" where
  "contend_client cl =
     \<lparr>Clusters = contend_resource (Clusters cl), ClusterSets = contend_resource (ClusterSets cl),
      StatefulSets = contend_resource (StatefulSets cl), Pods = contend_resource (Pods cl),
      Namespaces = contend_resource (Namespaces cl),
      CreateOrUpdateConfigMap = (\<lambda>x f. contend (CreateOrUpdateConfigMap cl x f)),
      CreateOrUpdateService = (\<lambda>x f. contend (CreateOrUpdateService cl x f))\<rparr>"

lemma contend_resource_simps [simp]:
  "Get (contend_resource R) k = contend (Get R k)" "List (contend_resource R) opts = contend (List R opts)"
  "Create (contend_resource R) x = contend (Create R x)" "Update (contend_resource R) x = contend (Update R x)"
  "StatusUpdate (contend_resource R) x = contend (StatusUpdate R x)"
  "Delete (contend_resource R) k = contend (Delete R k)"
  by (simp_all add: contend_resource_def)

lemma contend_client_simps [simp]:
  "Clusters (contend_client cl) = contend_resource (Clusters cl)"
  "ClusterSets (contend_client cl) = contend_resource (ClusterSets cl)"
  "StatefulSets (contend_client cl) = contend_resource (StatefulSets cl)"
  "Pods (contend_client cl) = contend_resource (Pods cl)"
  "Namespaces (contend_client cl) = contend_resource (Namespaces cl)"
  "CreateOrUpdateConfigMap (contend_client cl) x f = contend (CreateOrUpdateConfigMap cl x f)"
  "CreateOrUpdateService (contend_client cl) y g = contend (CreateOrUpdateService cl y g)"
  by (simp_all add: contend_client_def)

section \<open>The laws of a versioned store\<close>

text \<open>
  \<open>evolves w w'\<close>: the server may come from \<open>w\<close> to \<open>w'\<close>, by whoever's calls; \<open>sound\<close> holds in every
  state it can be in.
\<close>

locale versioned_world =
  fixes sound :: "'w \<Rightarrow> bool" and evolves :: "'w \<Rightarrow> 'w \<Rightarrow> bool"
  assumes evolves_refl [simp]: "evolves w w"
    and evolves_trans: "evolves w w' \<Longrightarrow> evolves w' w'' \<Longrightarrow> evolves w w''"
    and evolves_sound: "sound w \<Longrightarrow> evolves w w' \<Longrightarrow> sound w'"

locale versioned_resource = versioned_world sound evolves
  for sound :: "'w \<Rightarrow> bool" and evolves :: "'w \<Rightarrow> 'w \<Rightarrow> bool" +
  fixes R :: "('w, 'o) resource" and view :: "'w \<Rightarrow> store"
    and lookup :: "store \<Rightarrow> namespaced_name \<Rightarrow> 'o option"
    and ident :: "namespaced_name \<Rightarrow> object_id" and key :: "'o \<Rightarrow> namespaced_name"
    and meta :: "'o \<Rightarrow> object_meta"
  assumes get_call: "sound w \<Longrightarrow> Get R k w = (r, w') \<Longrightarrow> evolves w w' \<and> view w' = view w"
    and get_seen: "sound w \<Longrightarrow> Get R k w = (Inr x, w') \<Longrightarrow>
      \<exists>w0. sound w0 \<and> evolves w0 w \<and> lookup (view w0) k = Some x"
    and list_call: "sound w \<Longrightarrow> List R opts w = (rs, w') \<Longrightarrow> evolves w w' \<and> view w' = view w"
    and list_seen: "sound w \<Longrightarrow> List R opts w = (Inr xs, w') \<Longrightarrow> x \<in> set xs \<Longrightarrow>
      \<exists>w0. sound w0 \<and> evolves w0 w \<and> lookup (view w0) (key x) = Some x"
    and stored_key: "lookup (view w) k = Some x \<Longrightarrow> key x = k"
    and create_call: "sound w \<Longrightarrow> Create R x w = (r, w') \<Longrightarrow>
      evolves w w' \<and> same_except {ident (key x)} (view w) (view w')"
    and update_call: "sound w \<Longrightarrow> Update R x w = (r, w') \<Longrightarrow>
      evolves w w' \<and> same_except {ident (key x)} (view w) (view w')"
    and status_call: "sound w \<Longrightarrow> StatusUpdate R x w = (r, w') \<Longrightarrow>
      evolves w w' \<and> same_except {ident (key x)} (view w) (view w')"
    and delete_call: "sound w \<Longrightarrow> Delete R k w = (u, w') \<Longrightarrow>
      evolves w w' \<and> same_except {ident k} (view w) (view w')"
    and version_set: "sound w \<Longrightarrow> lookup (view w) k = Some x \<Longrightarrow> ResourceVersion (meta x) \<noteq> []"
    and same_version: "sound w \<Longrightarrow> evolves w w' \<Longrightarrow> lookup (view w) k = Some x \<Longrightarrow>
      lookup (view w') k = Some y \<Longrightarrow> ResourceVersion (meta x) = ResourceVersion (meta y) \<Longrightarrow> x = y"
    and update_stale: "sound w \<Longrightarrow> Update R x w = (r, w') \<Longrightarrow> ResourceVersion (meta x) \<noteq> [] \<Longrightarrow>
      (\<And>old. lookup (view w) (key x) = Some old \<Longrightarrow> ResourceVersion (meta old) \<noteq> ResourceVersion (meta x)) \<Longrightarrow>
      (\<exists>e. r = Inl e) \<and> view w' = view w"
    and status_stale: "sound w \<Longrightarrow> StatusUpdate R x w = (r, w') \<Longrightarrow> ResourceVersion (meta x) \<noteq> [] \<Longrightarrow>
      (\<And>old. lookup (view w) (key x) = Some old \<Longrightarrow> ResourceVersion (meta old) \<noteq> ResourceVersion (meta x)) \<Longrightarrow>
      (\<exists>e. r = Inl e) \<and> view w' = view w"
begin

text \<open>What was read at some time, possibly before others wrote.\<close>

definition seen :: "'o \<Rightarrow> 'w \<Rightarrow> bool" where
  "seen x w \<longleftrightarrow> (\<exists>w0. sound w0 \<and> evolves w0 w \<and> lookup (view w0) (key x) = Some x)"

lemma seen_evolves: "seen x w \<Longrightarrow> evolves w w' \<Longrightarrow> seen x w'"
  by (auto simp: seen_def intro: evolves_trans)

lemma get_seen_key:
  assumes "sound w" "Get R k w = (Inr x, w')"
  shows "key x = k" "seen x w"
proof -
  from get_seen [OF assms] obtain w0 where w0: "sound w0" "evolves w0 w" "lookup (view w0) k = Some x" by blast
  show key: "key x = k" using stored_key w0(3) .
  show "seen x w" using w0 key by (auto simp: seen_def)
qed

text \<open>
  The heart of the matter: a write of a changed copy either is refused, or finds the object
  exactly as it was when it was read.
\<close>

lemma current:
  assumes "seen x w" "sound w" "lookup (view w) (key x) = Some old"
    "ResourceVersion (meta old) = ResourceVersion (meta x)"
  shows "old = x"
proof -
  from assms(1) obtain w0 where "sound w0" "evolves w0 w" "lookup (view w0) (key x) = Some x"
    by (auto simp: seen_def)
  from same_version [OF this(1,2,3) assms(3)] assms(4) show ?thesis by simp
qed

lemma seen_version: "seen x w \<Longrightarrow> ResourceVersion (meta x) \<noteq> []"
  by (auto simp: seen_def dest: version_set)

lemma update_current:
  assumes "sound w" "seen x w" "Update R y w = (r, w')" "key y = key x"
    "ResourceVersion (meta y) = ResourceVersion (meta x)"
  shows "(\<exists>e. r = Inl e) \<and> view w' = view w \<or> lookup (view w) (key x) = Some x"
proof (cases "\<exists>old. lookup (view w) (key x) = Some old \<and> ResourceVersion (meta old) = ResourceVersion (meta x)")
  case True
  then show ?thesis using current [OF assms(2,1)] by blast
next
  case False
  then show ?thesis
    using update_stale [OF assms(1,3)] seen_version [OF assms(2)] assms(4,5) by auto
qed

lemma status_current:
  assumes "sound w" "seen x w" "StatusUpdate R y w = (r, w')" "key y = key x"
    "ResourceVersion (meta y) = ResourceVersion (meta x)"
  shows "(\<exists>e. r = Inl e) \<and> view w' = view w \<or> lookup (view w) (key x) = Some x"
proof (cases "\<exists>old. lookup (view w) (key x) = Some old \<and> ResourceVersion (meta old) = ResourceVersion (meta x)")
  case True
  then show ?thesis using current [OF assms(2,1)] by blast
next
  case False
  then show ?thesis
    using status_stale [OF assms(1,3)] seen_version [OF assms(2)] assms(4,5) by auto
qed

end

section \<open>What a component does between the moves of the others\<close>

text \<open>
  \<open>acts K G\<close>: from a state where the server is sound, the others obey its laws and \<open>K\<close> holds of
  the server, every own call in the journal has the effect \<open>G\<close>.
\<close>

context versioned_world
begin

definition fair :: "'w contested process \<Rightarrow> bool" where
  "fair s \<longleftrightarrow> sound (server (ext s)) \<and> (\<forall>n w. sound w \<longrightarrow> evolves w (moves (ext s) n w))"

definition acts :: "('w \<Rightarrow> bool) \<Rightarrow> ('w \<Rightarrow> 'w \<Rightarrow> bool) \<Rightarrow> 'w contested process \<Rightarrow> 'w contested process \<Rightarrow> bool" where
  "acts K G s t \<longleftrightarrow>
     (fair s \<and> K (server (ext s)) \<longrightarrow>
        fair t \<and> evolves (server (ext s)) (server (ext t)) \<and> moves (ext t) = moves (ext s) \<and>
        (\<exists>es. journal (ext t) = journal (ext s) @ es \<and> (\<forall>(a, b) \<in> set es. G a b)))"

definition stable :: "('w \<Rightarrow> bool) \<Rightarrow> bool" where
  "stable K \<longleftrightarrow> (\<forall>w w'. K w \<longrightarrow> evolves w w' \<longrightarrow> K w')"

lemma stable_True [simp]: "stable (\<lambda>_. True)"
  by (simp add: stable_def)

lemma acts_refl: "reflp (acts K G)"
  by (auto simp: reflp_def acts_def)

lemma acts_trans: "stable K \<Longrightarrow> transp (acts K G)"
  unfolding transp_def acts_def stable_def by (fastforce intro: evolves_trans)

lemma acts_weaken:
  "acts K G s t \<Longrightarrow> (\<And>w. K' w \<Longrightarrow> K w) \<Longrightarrow> (\<And>a b. G a b \<Longrightarrow> G' a b) \<Longrightarrow> acts K' G' s t"
  unfolding acts_def by (fastforce split: prod.splits)

lemma keeps_acts_contend:
  assumes "stable K"
    and "\<And>w r w'. sound w \<Longrightarrow> K w \<Longrightarrow> f w = (r, w') \<Longrightarrow> evolves w w' \<and> G w w'"
  shows "keeps (acts K G) (call (contend f))"
proof (rule keepsI)
  fix s r t
  assume "call (contend f) s = (r, t)"
  then obtain c' where c': "contend f (ext s) = (r, c')" and t: "t = s\<lparr>ext := c'\<rparr>" by (rule callE)
  let ?c = "ext s" and ?w = "moves (ext s) (turn (ext s)) (server (ext s))"
  obtain w' where f: "f ?w = (r, w')" and
    cont: "c' = ?c\<lparr>server := w', turn := Suc (turn ?c), journal := journal ?c @ [(?w, w')]\<rparr>"
    using c' by (auto simp: contend_def Let_def split: prod.splits)
  show "acts K G s t"
    unfolding acts_def
  proof (intro impI)
    assume pre: "fair s \<and> K (server ?c)"
    then have moved: "evolves (server ?c) ?w" by (simp add: fair_def)
    then have "sound ?w" "K ?w" using pre assms(1) by (auto simp: fair_def stable_def intro: evolves_sound)
    with assms(2) f have step: "evolves ?w w'" "G ?w w'" by blast+
    have "sound w'" using \<open>sound ?w\<close> step(1) by (rule evolves_sound)
    then have "fair t" using pre by (simp add: fair_def t cont)
    moreover have "evolves (server ?c) w'" using moved step(1) by (rule evolves_trans)
    ultimately show "fair t \<and> evolves (server (ext s)) (server (ext t)) \<and> moves (ext t) = moves (ext s) \<and>
        (\<exists>es. journal (ext t) = journal (ext s) @ es \<and> (\<forall>(a, b) \<in> set es. G a b))"
      using step(2) by (simp add: t cont)
  qed
qed

end


text \<open>What contested reads return has been seen, and stays so.\<close>

context versioned_resource
begin

lemma contended:
  assumes "call (contend f) s = (r, t)" "fair s"
  obtains w w' where "sound w" "f w = (r, w')" "server (ext t) = w'" "moves (ext t) = moves (ext s)"
proof -
  let ?w = "moves (ext s) (turn (ext s)) (server (ext s))"
  have "sound ?w" using assms(2) by (auto simp: fair_def intro: evolves_sound)
  moreover obtain w' where "f ?w = (r, w')" "server (ext t) = w'" "moves (ext t) = moves (ext s)"
    using assms(1) by (auto simp: contend_def Let_def elim!: callE split: prod.splits)
  ultimately show thesis by (rule that)
qed

lemma contended_get:
  assumes "call (Get (contend_resource R) k) s = (Inr x, t)" "fair s"
  shows "key x = k" "seen x (server (ext t))" "fair t"
proof -
  obtain w w' where w: "sound w" "Get R k w = (Inr x, w')" "server (ext t) = w'" "moves (ext t) = moves (ext s)"
    using contended [OF _ assms(2)] assms(1) by (metis contend_resource_simps(1))
  have step: "evolves w w'" using get_call [OF w(1,2)] by blast
  show "key x = k" by (rule get_seen_key [OF w(1,2)])
  show "seen x (server (ext t))" using seen_evolves [OF get_seen_key(2) [OF w(1,2)] step] w(3) by simp
  show "fair t" using assms(2) w(3,4) evolves_sound [OF w(1) step] by (simp add: fair_def)
qed

lemma contended_list:
  assumes "call (List (contend_resource R) opts) s = (Inr xs, t)" "fair s" "x \<in> set xs"
  shows "seen x (server (ext t))"
proof -
  obtain w w' where w: "sound w" "List R opts w = (Inr xs, w')" "server (ext t) = w'"
    using contended [OF _ assms(2)] assms(1) by (metis contend_resource_simps(2))
  obtain w0 where "sound w0" "evolves w0 w" "lookup (view w0) (key x) = Some x"
    using list_seen [OF w(1,2) assms(3)] by blast
  moreover have "evolves w w'" using list_call [OF w(1,2)] by blast
  ultimately show ?thesis using w(3) by (auto simp: seen_def intro: evolves_trans)
qed

end

locale stale_kube =
  versioned_world sound evolves +
  clusters: versioned_resource sound evolves "Clusters cl" view v_Clusters ClusterId pc_key pc_Meta +
  sets: versioned_resource sound evolves "ClusterSets cl" view v_ClusterSets ClusterSetId set_key set_Meta +
  stss: versioned_resource sound evolves "StatefulSets cl" view v_StatefulSets StatefulSetId sts_key sts_Meta +
  pods: versioned_resource sound evolves "Pods cl" view v_Pods PodId pod_key pod_Meta +
  nss: versioned_resource sound evolves "Namespaces cl" view v_Namespaces NamespaceId nso_key nso_Meta
  for sound :: "'w \<Rightarrow> bool" and evolves :: "'w \<Rightarrow> 'w \<Rightarrow> bool" and cl :: "'w client" and view :: "'w \<Rightarrow> store" +
  assumes cm_call: "sound w \<Longrightarrow> CreateOrUpdateConfigMap cl cm f w = (rc, w') \<Longrightarrow>
      evolves w w' \<and> same_except {ConfigMapId (meta_key (cm_Meta cm))} (view w) (view w')"
    and svc_call: "sound w \<Longrightarrow> CreateOrUpdateService cl svc g w = (rc, w') \<Longrightarrow>
      evolves w w' \<and> same_except {ServiceId (meta_key (svc_Meta svc))} (view w) (view w')"
    and update_atomic: "Update (Clusters cl) x w = (rx, w') \<Longrightarrow>
      v_Clusters (view w) (pc_key x) = Some pc \<Longrightarrow> same_identity (pc_Meta x) (pc_Meta pc) \<Longrightarrow>
      same_but_backup (pc_Spec x) (pc_Spec pc) \<Longrightarrow>
      v_Clusters (view w') (pc_key x) \<in> {Some pc, None} \<or>
      (\<exists>v. v_Clusters (view w') (pc_key x) =
         Some (x\<lparr>pc_Meta := with_version (pc_Meta x) v, pc_Status := pc_Status pc\<rparr>))"
    and update_kept: "Update (Clusters cl) x w = (rx, w') \<Longrightarrow>
      v_Clusters (view w) (pc_key x) = Some pc \<Longrightarrow>
      DeletionTimestamp (pc_Meta pc) = None \<or> Finalizers (pc_Meta x) = Finalizers (pc_Meta pc) \<Longrightarrow>
      v_Clusters (view w') (pc_key x) \<noteq> None"
    and status_atomic: "StatusUpdate (Clusters cl) x w = (rx, w') \<Longrightarrow>
      v_Clusters (view w') (pc_key x) = v_Clusters (view w) (pc_key x) \<or>
      (\<exists>pc v. v_Clusters (view w) (pc_key x) = Some pc \<and>
         v_Clusters (view w') (pc_key x) =
           Some (pc\<lparr>pc_Meta := with_version (pc_Meta pc) v, pc_Status := pc_Status x\<rparr>))"
    and status_stored: "StatusUpdate (Clusters cl) x w = (Inr y, w') \<Longrightarrow>
      v_Clusters (view w') (pc_key x) = Some y \<and> pc_key y = pc_key x"
begin

text \<open>
  A write of a changed copy of a cluster that was read at some time: nothing changes, or the
  cluster is still as it was read and gets what the copy says.
\<close>

lemma status_effect:
  assumes "sound w" "clusters.seen pc w" "StatusUpdate (Clusters cl) (pc\<lparr>pc_Status := st\<rparr>) w = (r, w')"
  shows "evolves w w' \<and> same_except {ClusterId (pc_key pc)} (view w) (view w') \<and>
    (v_Clusters (view w') (pc_key pc) = v_Clusters (view w) (pc_key pc) \<or>
     v_Clusters (view w) (pc_key pc) = Some pc \<and>
     (\<exists>v. v_Clusters (view w') (pc_key pc) = Some (pc\<lparr>pc_Meta := with_version (pc_Meta pc) v, pc_Status := st\<rparr>)))"
proof -
  let ?x = "pc\<lparr>pc_Status := st\<rparr>"
  have key: "pc_key ?x = pc_key pc" by (simp add: pc_key_def)
  note call = clusters.status_call [OF assms(1,3), unfolded key]
  show ?thesis
  proof (cases "view w' = view w")
    case False
    then have "v_Clusters (view w) (pc_key pc) = Some pc"
      using clusters.status_current [OF assms] key by auto
    with status_atomic [OF assms(3), unfolded key] call show ?thesis by auto
  qed (use call in simp)
qed

lemma update_effect:
  assumes "sound w" "clusters.seen pc w" "Update (Clusters cl) x w = (r, w')"
    and "same_identity (pc_Meta x) (pc_Meta pc)" "same_but_backup (pc_Spec x) (pc_Spec pc)"
    and "ResourceVersion (pc_Meta x) = ResourceVersion (pc_Meta pc)"
  shows "evolves w w' \<and> same_except {ClusterId (pc_key pc)} (view w) (view w') \<and>
    (v_Clusters (view w') (pc_key pc) = v_Clusters (view w) (pc_key pc) \<or>
     v_Clusters (view w) (pc_key pc) = Some pc \<and>
     (v_Clusters (view w') (pc_key pc) = None \<and> DeletionTimestamp (pc_Meta pc) \<noteq> None \<and>
        Finalizers (pc_Meta x) \<noteq> Finalizers (pc_Meta pc) \<or>
      (\<exists>v. v_Clusters (view w') (pc_key pc) = Some (x\<lparr>pc_Meta := with_version (pc_Meta x) v, pc_Status := pc_Status pc\<rparr>))))"
proof -
  have key: "pc_key x = pc_key pc" using assms(4) by (simp add: pc_key_def same_identity_def)
  note call = clusters.update_call [OF assms(1,3), unfolded key]
  show ?thesis
  proof (cases "view w' = view w")
    case False
    then have stored: "v_Clusters (view w) (pc_key pc) = Some pc"
      using clusters.update_current [OF assms(1-3) key assms(6)] by auto
    from update_atomic [OF assms(3), unfolded key, OF stored assms(4,5)]
      update_kept [OF assms(3), unfolded key, OF stored] call stored show ?thesis by auto
  qed (use call in simp)
qed

lemma stable_seen [simp]: "stable (clusters.seen pc)" "stable (sets.seen cset)"
  by (auto simp: stable_def intro: clusters.seen_evolves sets.seen_evolves)

end

end
