(* ===== verification/ContestedPasses.thy ===== *)
theory ContestedPasses
  imports Interference ClusterReconciler ClusterSetReconciler RestApi HealthChecker
begin

text \<open>
  The components on a contested server (\<open>Interference\<close>): which effects their writes have when
  others write in the middle of a pass and reads lag behind. Every handler is the one of its
  component's theory, run on a client of contested calls.
\<close>

section \<open>Reconcile among others\<close>

text \<open>What a single write of a pass may do to its cluster, whatever it finds there.\<close>

definition restamped :: "prometheus_cluster \<Rightarrow> prometheus_cluster \<Rightarrow> bool" where
  "restamped pc pc' \<longleftrightarrow> (\<exists>v. pc' = pc\<lparr>pc_Meta := with_version (pc_Meta pc) v\<rparr>)"

definition finalizer_added :: "reconcile_lib \<Rightarrow> prometheus_cluster \<Rightarrow> prometheus_cluster \<Rightarrow> bool" where
  "finalizer_added L pc pc' \<longleftrightarrow>
     DeletionTimestamp (pc_Meta pc) = None \<and> \<not> ContainsFinalizer L pc finalizerName \<and>
     restamped (AddFinalizer L pc finalizerName) pc'"

definition finalizer_removed :: "reconcile_lib \<Rightarrow> prometheus_cluster \<Rightarrow> prometheus_cluster option \<Rightarrow> bool" where
  "finalizer_removed L pc stored \<longleftrightarrow>
     DeletionTimestamp (pc_Meta pc) \<noteq> None \<and> ContainsFinalizer L pc finalizerName \<and>
     (case stored of None \<Rightarrow> True | Some pc' \<Rightarrow> restamped (RemoveFinalizer L pc finalizerName) pc')"

definition phase_reported :: "prometheus_cluster \<Rightarrow> prometheus_cluster \<Rightarrow> bool" where
  "phase_reported pc pc' \<longleftrightarrow>
     (\<exists>phase ready. restamped (pc\<lparr>pc_Status := (pc_Status pc)\<lparr>cs_Phase := phase, cs_ReadyReplicas := ready\<rparr>\<rparr>) pc')"

definition reconcile_write :: "reconcile_lib \<Rightarrow> namespaced_name \<Rightarrow> store \<Rightarrow> store \<Rightarrow> bool" where
  "reconcile_write L k a b \<longleftrightarrow>
     same_except (own_objects k) a b \<and>
     (v_Clusters b k = v_Clusters a k \<or>
      (\<exists>pc. v_Clusters a k = Some pc \<and>
         (finalizer_removed L pc (v_Clusters b k) \<or>
          (\<exists>pc'. v_Clusters b k = Some pc' \<and> (finalizer_added L pc pc' \<or> phase_reported pc pc')))))"

lemma phase_reportedI:
  "phase_reported pc (pc\<lparr>pc_Meta := with_version (pc_Meta pc) v,
     pc_Status := (pc_Status pc)\<lparr>cs_Phase := phase, cs_ReadyReplicas := ready\<rparr>\<rparr>)"
  unfolding phase_reported_def restamped_def by (intro exI [of _ phase] exI [of _ ready] exI [of _ v]) simp

lemma reconcile_write_phase:
  "same_except {ClusterId k} a b \<Longrightarrow> v_Clusters a k = Some pc \<Longrightarrow> v_Clusters b k = Some pc' \<Longrightarrow>
     phase_reported pc pc' \<Longrightarrow> reconcile_write L k a b"
  unfolding reconcile_write_def by (auto intro: same_except_mono)

lemma reconcile_write_kept:
  "same_except {ClusterId k} a b \<Longrightarrow> v_Clusters b k = v_Clusters a k \<Longrightarrow> reconcile_write L k a b"
  by (auto simp: reconcile_write_def intro: same_except_mono)

lemma reconcile_write_same: "a = b \<Longrightarrow> reconcile_write L k a b"
  by (simp add: reconcile_write_def)

lemma reconcile_write_other:
  "same_except {i} a b \<Longrightarrow> i \<in> own_objects k \<Longrightarrow> i \<noteq> ClusterId k \<Longrightarrow> reconcile_write L k a b"
  by (auto simp: reconcile_write_def same_exceptD(1) intro: same_except_mono)

locale contested_pass =
  stale_kube sound evolves cl view + controller_util L
  for sound :: "'w \<Rightarrow> bool" and evolves :: "'w \<Rightarrow> 'w \<Rightarrow> bool" and cl :: "'w client" and view :: "'w \<Rightarrow> store"
    and L :: reconcile_lib +
  fixes R :: "'w contested cluster_reconciler"
  assumes client: "Client R = contend_client cl"
    and registrar: "BackupSchedule R = Some reg \<Longrightarrow> keeps (acts (\<lambda>_. True) (\<lambda>_ _. False)) (reg pc)"
begin

definition does :: "prometheus_cluster \<Rightarrow> namespaced_name \<Rightarrow> 'w contested process \<Rightarrow> 'w contested process \<Rightarrow> bool" where
  "does pc k = acts (clusters.seen pc) (\<lambda>w w'. reconcile_write L k (view w) (view w'))"

lemma does_refl [simp]: "reflp (does pc k)" and does_trans [simp]: "transp (does pc k)"
  by (simp_all add: does_def acts_refl acts_trans)

lemma does_metrics: "keeps (does pc k) (\<lambda>s. (r, s\<lparr>mets := f (mets s)\<rparr>))"
  by (rule keepsI) (auto simp: does_def acts_def fair_def)

lemma does_status:
  assumes "pc_key pc = k"
  shows "keeps (does pc k) (call (StatusUpdate (Clusters (Client R))
    (pc\<lparr>pc_Status := (pc_Status pc)\<lparr>cs_Phase := phase, cs_ReadyReplicas := ready\<rparr>\<rparr>)))"
  unfolding client does_def contend_client_simps contend_resource_simps
proof (rule keeps_acts_contend)
  fix w r w'
  assume "sound w" "clusters.seen pc w" "StatusUpdate (Clusters cl)
    (pc\<lparr>pc_Status := (pc_Status pc)\<lparr>cs_Phase := phase, cs_ReadyReplicas := ready\<rparr>\<rparr>) w = (r, w')"
  from status_effect [OF this, unfolded assms] show "evolves w w' \<and> reconcile_write L k (view w) (view w')"
    using phase_reportedI by (auto intro: reconcile_write_phase reconcile_write_kept)
qed simp

lemma does_add:
  assumes "pc_key pc = k" "DeletionTimestamp (pc_Meta pc) = None" "\<not> ContainsFinalizer L pc finalizerName"
  shows "keeps (does pc k) (call (Update (Clusters (Client R)) (AddFinalizer L pc finalizerName)))"
  unfolding client does_def contend_client_simps contend_resource_simps
proof (rule keeps_acts_contend)
  obtain fs where x: "AddFinalizer L pc finalizerName = pc\<lparr>pc_Meta := (pc_Meta pc)\<lparr>Finalizers := fs\<rparr>\<rparr>"
    using add_only by blast
  fix w r w'
  assume "sound w" "clusters.seen pc w" "Update (Clusters cl) (AddFinalizer L pc finalizerName) w = (r, w')"
  from update_effect [OF this] have "evolves w w' \<and> same_except {ClusterId k} (view w) (view w') \<and>
      (v_Clusters (view w') k = v_Clusters (view w) k \<or> v_Clusters (view w) k = Some pc \<and>
       (\<exists>pc'. v_Clusters (view w') k = Some pc' \<and> finalizer_added L pc pc'))"
    using assms(2,3) by (auto simp: x assms(1) same_identity_def meta_key_def finalizer_added_def restamped_def)
  then show "evolves w w' \<and> reconcile_write L k (view w) (view w')"
    by (auto simp: reconcile_write_def intro: same_except_mono)
qed simp

lemma does_remove:
  assumes "pc_key pc = k" "DeletionTimestamp (pc_Meta pc) \<noteq> None" "ContainsFinalizer L pc finalizerName"
  shows "keeps (does pc k) (call (Update (Clusters (Client R)) (RemoveFinalizer L pc finalizerName)))"
  unfolding client does_def contend_client_simps contend_resource_simps
proof (rule keeps_acts_contend)
  obtain fs where x: "RemoveFinalizer L pc finalizerName = pc\<lparr>pc_Meta := (pc_Meta pc)\<lparr>Finalizers := fs\<rparr>\<rparr>"
    using remove_only by blast
  fix w r w'
  assume "sound w" "clusters.seen pc w" "Update (Clusters cl) (RemoveFinalizer L pc finalizerName) w = (r, w')"
  from update_effect [OF this] have "evolves w w' \<and> same_except {ClusterId k} (view w) (view w') \<and>
      (v_Clusters (view w') k = v_Clusters (view w) k \<or>
       v_Clusters (view w) k = Some pc \<and> finalizer_removed L pc (v_Clusters (view w') k))"
    using assms(2,3) by (auto simp: x assms(1) same_identity_def meta_key_def finalizer_removed_def restamped_def)
  then show "evolves w w' \<and> reconcile_write L k (view w) (view w')"
    by (auto simp: reconcile_write_def intro: same_except_mono)
qed simp

lemma does_updatePhase: "pc_key pc = k \<Longrightarrow> keeps (does pc k) (updatePhase R pc phase ready)"
  unfolding updatePhase_def Let_def by (intro keeps_attempt does_status does_metrics) simp_all

lemma does_finalize:
  "pc_key pc = k \<Longrightarrow> DeletionTimestamp (pc_Meta pc) \<noteq> None \<Longrightarrow> keeps (does pc k) (finalize L R pc)"
  unfolding finalize_def by (intro keeps_if keeps_return keeps_attempt does_remove does_metrics) simp_all

lemma does_other:
  assumes "\<And>w r w'. sound w \<Longrightarrow> f w = (r, w') \<Longrightarrow> evolves w w' \<and> same_except {i} (view w) (view w')"
    and "i \<in> own_objects k" "i \<noteq> ClusterId k"
  shows "keeps (does pc k) (call (contend f))"
  unfolding does_def by (rule keeps_acts_contend) (auto dest!: assms(1) intro: reconcile_write_other [OF _ assms(2,3)])

lemma does_read:
  assumes "\<And>w r w'. sound w \<Longrightarrow> f w = (r, w') \<Longrightarrow> evolves w w' \<and> view w' = view w"
  shows "keeps (does pc k) (call (contend f))"
  unfolding does_def by (rule keeps_acts_contend) (auto dest!: assms intro: reconcile_write_same)

lemma does_config_map: "pc_key pc = k \<Longrightarrow> keeps (does pc k) (reconcileConfigMap L R pc)"
proof -
  assume key: "pc_key pc = k"
  have "keeps (does pc k) (call (CreateOrUpdateConfigMap (Client R) (new_config_map pc) (mutateConfigMap L pc)))"
    unfolding client contend_client_simps
    by (rule does_other [OF cm_call, unfolded new_children_keys]) (auto simp: key [symmetric])
  then show ?thesis
    unfolding reconcileConfigMap_def by (intro keepsI) (auto split: prod.splits sum.splits dest: keepsD)
qed

lemma does_service: "pc_key pc = k \<Longrightarrow> keeps (does pc k) (reconcileHeadlessService L R pc)"
  unfolding reconcileHeadlessService_def client contend_client_simps
  by (rule does_other [where i = "ServiceId k"]) (auto dest!: svc_call)

lemma does_stateful_set:
  assumes key: "pc_key pc = k"
  shows "keeps (does pc k) (reconcileStatefulSet L R pc)"
proof -
  let ?desired = "buildStatefulSet (Quantities L) pc"
  have get: "keeps (does pc k) (call (Get (StatefulSets (Client R)) j))" for j
    unfolding client contend_client_simps contend_resource_simps by (rule does_read [OF stss.get_call])
  have got: "sts_key sts = k" if "call (Get (StatefulSets (Client R)) k) s = (Inr sts, t)" "fair s" for s sts t
    using stss.contended_get(1) [OF _ that(2)] that(1) unfolding client by simp
  have upd: "keeps (does pc k) (call (Update (StatefulSets (Client R)) x))" if "sts_key x = k" for x
    unfolding client contend_client_simps contend_resource_simps
    by (rule does_other [where i = "StatefulSetId k"]) (use that in \<open>auto dest!: stss.update_call\<close>)
  have create: "keeps (does pc k) (createStatefulSet L R pc ?desired)"
  proof (cases "SetControllerReference L pc (sts_Meta ?desired)")
    case (Inr m)
    then have "sts_key (?desired\<lparr>sts_Meta := m\<rparr>) = k"
      using owner_key [OF Inr] key sts_key_build [of "Quantities L" pc] by (simp add: sts_key_def)
    then have "keeps (does pc k) (call (Create (StatefulSets (Client R)) (?desired\<lparr>sts_Meta := m\<rparr>)))"
      unfolding client contend_client_simps contend_resource_simps
      by (intro does_other [OF stss.create_call]) (assumption, simp_all)
    then show ?thesis unfolding createStatefulSet_def Inr sum.case
      by (intro keeps_attempt does_updatePhase key) simp_all
  qed (simp add: createStatefulSet_def keeps_return)
  have update: "keeps (does pc k) (updateStatefulSet L R pc ?desired sts)" if "sts_key sts = k" for sts
  proof (cases "sts_Replicas sts")
    case (Some n)
    have "sts_key (sts\<lparr>sts_Replicas := a, sts_Template := b\<rparr>) = k" for a b using that by (simp add: sts_key_def)
    then show ?thesis unfolding updateStatefulSet_def Some option.case Let_def
      by (intro keeps_if keeps_attempt upd does_updatePhase key) simp_all
  qed (simp add: updateStatefulSet_def keeps_return)
  show ?thesis
  proof (rule keepsI)
    fix s r t
    assume run: "reconcileStatefulSet L R pc s = (r, t)"
    have dk: "sts_key ?desired = k" using key by simp
    obtain x u where g: "call (Get (StatefulSets (Client R)) k) s = (x, u)" by fastforce
    have first: "does pc k s u" using keepsD [OF get g] .
    show "does pc k s t"
    proof (cases "fair s")
      case True
      have "does pc k u t"
        using run g keepsD [OF create] keepsD [OF update [OF got [OF _ True]]] reflpD [OF does_refl]
        by (auto simp: reconcileStatefulSet_def Let_def key split: sum.splits if_splits)
      with first show ?thesis by (rule transpD [OF does_trans])
    qed (simp add: does_def acts_def)
  qed
qed

lemma does_children:
  assumes key: "pc_key pc = k"
  shows "keeps (does pc k) (reconcileChildren L R pc)"
proof -
  have "keeps (does pc k) (registerBackup R pc)"
  proof (cases "BackupSchedule R")
    case (Some reg)
    have "keeps (does pc k) (reg pc)"
      by (rule keepsI) (auto simp: does_def intro: acts_weaken [OF keepsD [OF registrar [OF Some]]])
    then show ?thesis by (simp add: registerBackup_def Some keeps_return)
  qed (simp add: registerBackup_def keeps_return)
  then show ?thesis
    unfolding reconcileChildren_def
    by (intro keeps_attempt does_trans does_config_map does_service does_stateful_set key)
qed

lemma Reconcile_acts:
  "keeps (acts (\<lambda>_. True) (\<lambda>w w'. reconcile_write L k (view w) (view w'))) (Reconcile L R k)"
proof (rule keepsI)
  let ?P = "acts (\<lambda>_. True) (\<lambda>w w'. reconcile_write L k (view w) (view w'))"
  fix s r t
  assume run: "Reconcile L R k s = (r, t)"
  obtain x u where g: "call (Get (Clusters (Client R)) k) s = (x, u)" by fastforce
  have get: "keeps ?P (call (Get (Clusters (Client R)) k))"
    unfolding client contend_client_simps contend_resource_simps
    by (rule keeps_acts_contend) (auto dest!: clusters.get_call intro: reconcile_write_same)
  have first: "?P s u" using keepsD [OF get g] .
  show "?P s t"
  proof (cases x)
    case (Inl e)
    then show ?thesis using run g first by (auto simp: Reconcile_def split: if_splits)
  next
    case (Inr pc)
    show ?thesis
    proof (cases "fair s")
      case True
      have key: "pc_key pc = k" and seen: "clusters.seen pc (server (ext u))"
        using clusters.contended_get [OF _ True] g unfolding client Inr by simp_all
      have "does pc k u t"
        using run g Inr keepsD [OF does_finalize [OF key]] keepsD [OF does_children [OF key]]
          keepsD [OF keeps_attempt [OF does_trans does_add [OF key] keeps_return [OF does_refl]]]
        by (auto simp: Reconcile_def split: if_splits)
      then have "?P u t" using seen unfolding does_def acts_def by simp
      with first show ?thesis by (rule transpD [OF acts_trans [OF stable_True]])
    qed (simp add: acts_def)
  qed
qed

end

section \<open>A set pass among others\<close>

definition set_write :: "prometheus_cluster_set \<Rightarrow> store \<Rightarrow> store \<Rightarrow> bool" where
  "set_write cset a b \<longleftrightarrow>
     same_except (insert (ClusterSetId (set_key cset)) (range ClusterId)) a b \<and>
     (\<forall>k. v_Clusters b k = v_Clusters a k \<or>
        (\<exists>pc. v_Clusters a k = Some pc \<and> wants_template cset pc \<and> after_overlay cset pc (v_Clusters b k))) \<and>
     (v_ClusterSets b (set_key cset) = v_ClusterSets a (set_key cset) \<or>
      (\<exists>old. v_ClusterSets a (set_key cset) = Some old \<and> set_restated old (v_ClusterSets b (set_key cset))))"

lemma set_write_same: "a = b \<Longrightarrow> set_write cset a b"
  by (simp add: set_write_def)

locale contested_set_pass =
  stale_kube sound evolves cl view
  for sound :: "'w \<Rightarrow> bool" and evolves :: "'w \<Rightarrow> 'w \<Rightarrow> bool" and cl :: "'w client" and view :: "'w \<Rightarrow> store" +
  fixes R :: "'w contested set_reconciler"
  assumes client: "set_Client R = contend_client cl"
    and set_status_atomic: "StatusUpdate (ClusterSets cl) x w = (rx, w') \<Longrightarrow>
      v_ClusterSets (view w') (set_key x) = v_ClusterSets (view w) (set_key x) \<or>
      (\<exists>old v. v_ClusterSets (view w) (set_key x) = Some old \<and>
        v_ClusterSets (view w') (set_key x) =
          Some (old\<lparr>set_Meta := with_version (set_Meta old) v, set_Status := set_Status x\<rparr>))"
begin

definition overlays :: "prometheus_cluster_set \<Rightarrow> prometheus_cluster list \<Rightarrow> 'w contested process \<Rightarrow> 'w contested process \<Rightarrow> bool" where
  "overlays cset pcs = acts (\<lambda>w. \<forall>pc \<in> set pcs. clusters.seen pc w) (\<lambda>w w'. set_write cset (view w) (view w'))"

lemma overlays_refl [simp]: "reflp (overlays cset pcs)" and overlays_trans [simp]: "transp (overlays cset pcs)"
proof -
  have "stable (\<lambda>w. \<forall>pc \<in> set pcs. clusters.seen pc w)"
    using stable_seen(1) unfolding stable_def by blast
  then show "transp (overlays cset pcs)" by (simp add: overlays_def acts_trans)
qed (simp add: overlays_def acts_refl)

lemma overlay_effect:
  assumes "sound w" "clusters.seen pc w" "wants_template cset pc" "css_BackupTemplate (set_Spec cset) = Some template"
    "Update (Clusters cl) (overlaid cset template pc) w = (r, w')"
  shows "evolves w w' \<and> set_write cset (view w) (view w')"
proof -
  let ?x = "overlaid cset template pc"
  have version: "ResourceVersion (pc_Meta ?x) = ResourceVersion (pc_Meta pc)" by (simp add: overlaid_def)
  note eff = update_effect [OF assms(1,2,5) overlaid_fields(3,4) version]
  have "v_Clusters (view w') k = v_Clusters (view w) k \<or>
      (\<exists>pc. v_Clusters (view w) k = Some pc \<and> wants_template cset pc \<and> after_overlay cset pc (v_Clusters (view w') k))" for k
  proof (cases "k = pc_key pc")
    case True
    then show ?thesis using eff assms(3,4) by (auto simp: after_overlay_def overlaid_status_again)
  next
    case False
    then show ?thesis using eff same_exceptD(1) [of "{ClusterId (pc_key pc)}" "view w" "view w'" k] by simp
  qed
  moreover have "v_ClusterSets (view w') k = v_ClusterSets (view w) k" for k
    using eff same_exceptD(6) [of "{ClusterId (pc_key pc)}" "view w" "view w'" k] by simp
  ultimately show ?thesis using eff unfolding set_write_def by (auto intro: same_except_mono)
qed

lemma overlays_overlay:
  assumes "pc \<in> set pcs"
  shows "keeps (overlays cset pcs) (overlayBackup R cset pc)"
proof (cases "wants_template cset pc")
  case False
  then show ?thesis
    by (intro keepsI) (auto simp: overlayBackup_def wants_template_def reflpD [OF overlays_refl] split: option.splits if_splits)
next
  case True
  then obtain template where t: "css_BackupTemplate (set_Spec cset) = Some template" by (auto simp: wants_template_def)
  have "keeps (overlays cset pcs) (call (Update (Clusters (set_Client R)) (overlaid cset template pc)))"
    unfolding client contend_client_simps contend_resource_simps overlays_def
  proof (rule keeps_acts_contend)
    show "stable (\<lambda>w. \<forall>pc \<in> set pcs. clusters.seen pc w)" using stable_seen(1) unfolding stable_def by blast
  qed (use overlay_effect [OF _ _ True t] assms in blast)
  with True t show ?thesis
    by (intro keepsI) (auto simp: overlayBackup_def wants_template_def split: prod.splits sum.splits dest: keepsD)
qed

lemma overlays_collect:
  "set pcs \<subseteq> set all \<Longrightarrow> keeps (overlays cset all) (collect_members R cset allowed sel pcs members counts)"
proof (induction pcs arbitrary: members counts)
  case Nil
  then show ?case by (simp add: keeps_def reflpD [OF overlays_refl])
next
  case (Cons pc pcs)
  note IH = Cons.IH [of _ _, THEN keepsD, rotated]
  show ?case
  proof (rule keepsI)
    fix s r t
    assume run: "collect_members R cset allowed sel (pc # pcs) members counts s = (r, t)"
    show "overlays cset all s t"
    proof (cases "selected allowed sel pc")
      case False
      with run Cons.prems show ?thesis by (auto intro: IH)
    next
      case True
      obtain e pc' u where o: "overlayBackup R cset pc s = ((e, pc'), u)" by (metis prod.exhaust)
      have "overlays cset all s u" using Cons.prems by (intro keepsD [OF overlays_overlay o]) simp
      moreover have "overlays cset all u t" using run True o Cons.prems by (auto intro: IH)
      ultimately show ?thesis by (rule transpD [OF overlays_trans])
    qed
  qed
qed

lemma overlays_read:
  assumes "\<And>w r w'. sound w \<Longrightarrow> f w = (r, w') \<Longrightarrow> evolves w w' \<and> view w' = view w"
  shows "keeps (overlays cset []) (call (contend f))"
  unfolding overlays_def by (rule keeps_acts_contend) (auto dest!: assms intro: set_write_same)

lemma overlays_report: "keeps (overlays cset []) (reportMembers R cset members counts)"
proof -
  have "keeps (overlays cset []) (call (StatusUpdate (ClusterSets (set_Client R)) x))" if "set_key x = set_key cset" for x
    unfolding client contend_client_simps contend_resource_simps overlays_def
  proof (rule keeps_acts_contend)
    fix w r w'
    assume "sound w" "StatusUpdate (ClusterSets cl) x w = (r, w')"
    from sets.status_call [OF this] have "evolves w w'" "same_except {ClusterSetId (set_key cset)} (view w) (view w')"
      using that by simp_all
    moreover have "v_ClusterSets (view w') (set_key cset) = v_ClusterSets (view w) (set_key cset) \<or>
        (\<exists>old. v_ClusterSets (view w) (set_key cset) = Some old \<and> set_restated old (v_ClusterSets (view w') (set_key cset)))"
      using set_status_atomic [OF \<open>StatusUpdate (ClusterSets cl) x w = (r, w')\<close>] that by (auto simp: set_restated_def)
    ultimately show "evolves w w' \<and> set_write cset (view w) (view w')"
      by (auto simp: set_write_def same_exceptD(1) intro: same_except_mono)
  qed simp
  then show ?thesis unfolding reportMembers_def Let_def
    by (intro keeps_attempt keeps_return) (simp_all add: set_key_def)
qed

lemma overlays_less: "overlays cset pcs s t \<Longrightarrow> \<forall>pc \<in> set pcs. clusters.seen pc (server (ext s)) \<Longrightarrow> overlays cset [] s t"
  unfolding overlays_def acts_def by simp

lemma overlays_more: "overlays cset [] s t \<Longrightarrow> overlays cset pcs s t"
  unfolding overlays_def by (erule acts_weaken) simp_all

lemma overlays_members: "keeps (overlays cset []) (reconcileMembers R cset)"
proof -
  have namespaces: "keeps (overlays cset []) (allowedNamespaces R sel)" for sel
    unfolding allowedNamespaces_def client contend_client_simps contend_resource_simps
    by (intro keeps_if keeps_attempt overlays_read keeps_return overlays_refl overlays_trans) (rule nss.list_call)
  have rest: "keeps (overlays cset []) (attempt ''list prometheusclusters''
      (call (List (Clusters (set_Client R)) list_all_objects))
      (\<lambda>pcs s. case collect_members R cset allowed sel pcs [] Map.empty s of
         ((members, counts), s) \<Rightarrow> reportMembers R cset members counts s))" for allowed sel
  proof (rule keepsI)
    let ?k = "\<lambda>pcs s. case collect_members R cset allowed sel pcs [] Map.empty s of
         ((members, counts), s) \<Rightarrow> reportMembers R cset members counts s"
    fix s r t
    assume run: "attempt ''list prometheusclusters'' (call (List (Clusters (set_Client R)) list_all_objects)) ?k s = (r, t)"
    obtain x u where l: "call (List (Clusters (set_Client R)) list_all_objects) s = (x, u)" by fastforce
    have "keeps (overlays cset []) (call (List (Clusters (set_Client R)) list_all_objects))"
      unfolding client contend_client_simps contend_resource_simps by (rule overlays_read) (rule clusters.list_call)
    then have first: "overlays cset [] s u" using l by (rule keepsD)
    show "overlays cset [] s t"
    proof (cases "\<exists>pcs. x = Inr pcs \<and> fair s")
      case True
      then obtain pcs where x: "x = Inr pcs" and fair: "fair s" by blast
      obtain m c v where col: "collect_members R cset allowed sel pcs [] Map.empty u = ((m, c), v)" by (metis prod.exhaust)
      have "overlays cset pcs u v" using keepsD [OF overlays_collect [OF subset_refl] col] .
      then have "overlays cset [] u v" by (rule overlays_less) (use clusters.contended_list [OF _ fair] l in \<open>simp add: client x\<close>)
      moreover have "overlays cset [] v t" using run l x col keepsD [OF overlays_report] by simp
      ultimately show ?thesis using first by (blast intro: transpD [OF overlays_trans])
    next
      case False
      then show ?thesis using run l first by (cases x) (auto simp: overlays_def acts_def)
    qed
  qed
  show ?thesis
  proof (rule keepsI)
    fix s r t
    assume "reconcileMembers R cset s = (r, t)"
    then show "overlays cset [] s t"
      using reflpD [OF overlays_refl] transpD [OF overlays_trans keepsD [OF namespaces] keepsD [OF rest]]
        keepsD [OF namespaces]
      by (auto simp: reconcileMembers_def split: sum.splits prod.splits)
  qed
qed

lemma ReconcileSet_acts:
  assumes run: "ReconcileSet R k s = (r, t)" and fair: "fair s"
  shows "acts (\<lambda>_. True) (\<lambda>w w'. view w' = view w) s t \<or>
    (\<exists>cset. set_key cset = k \<and> sets.seen cset (server (ext t)) \<and> overlays cset [] s t)"
proof -
  obtain x u where g: "call (Get (ClusterSets (set_Client R)) k) s = (x, u)" by fastforce
  have "keeps (acts (\<lambda>_. True) (\<lambda>w w'. view w' = view w)) (call (Get (ClusterSets (set_Client R)) k))"
    unfolding client contend_client_simps contend_resource_simps
    by (rule keeps_acts_contend) (auto dest: sets.get_call)
  then have first: "acts (\<lambda>_. True) (\<lambda>w w'. view w' = view w) s u" using g by (rule keepsD)
  show ?thesis
  proof (cases x)
    case (Inl e)
    then show ?thesis using run g first by (auto simp: ReconcileSet_def split: if_splits)
  next
    case (Inr cset)
    have key: "set_key cset = k" and seen: "sets.seen cset (server (ext u))"
      using sets.contended_get [OF _ fair] g unfolding client Inr by simp_all
    have su: "overlays cset [] s u"
      using first unfolding overlays_def by (rule acts_weaken) (auto intro: set_write_same)
    have ut: "overlays cset [] u t"
      using run g Inr keepsD [OF overlays_members] by (simp add: ReconcileSet_def)
    have "fair u" using first fair by (simp add: acts_def)
    then have "evolves (server (ext u)) (server (ext t))" using ut by (simp add: overlays_def acts_def)
    with seen key transpD [OF overlays_trans su ut] show ?thesis using sets.seen_evolves by blast
  qed
qed

end

section \<open>A backup among others\<close>

definition backup_write :: "namespaced_name \<Rightarrow> store \<Rightarrow> store \<Rightarrow> bool" where
  "backup_write k a b \<longleftrightarrow>
     same_except {ClusterId k} a b \<and>
     (v_Clusters b k = v_Clusters a k \<or>
      (\<exists>pc pc' now. v_Clusters a k = Some pc \<and> v_Clusters b k = Some pc' \<and>
         restamped (pc\<lparr>pc_Status := (pc_Status pc)\<lparr>cs_LastBackupTime := Some now\<rparr>\<rparr>) pc'))"

locale contested_backup =
  stale_kube sound evolves cl view
  for sound :: "'w \<Rightarrow> bool" and evolves :: "'w \<Rightarrow> 'w \<Rightarrow> bool" and cl :: "'w client" and view :: "'w \<Rightarrow> store" +
  fixes S :: "'w contested scheduler"
  assumes client: "sch_Client S = contend_client cl"
    and put_apart: "keeps (acts (\<lambda>_. True) (\<lambda>_ _. False)) (call (PutObject S po body))"
    and http_apart: "keeps (acts (\<lambda>_. True) (\<lambda>_ _. False)) (call (HTTP_Do S meth url))"
    and now_apart: "keeps (acts (\<lambda>_. True) (\<lambda>_ _. False)) (call (Now S))"
    and exec_apart: "sch_Exec S = Some E \<Longrightarrow> keeps (acts (\<lambda>_. True) (\<lambda>_ _. False)) (call (Exec E ex))"
    and exec_into_apart: "sch_Exec S = Some E \<Longrightarrow> keeps (acts (\<lambda>_. True) (\<lambda>_ _. False)) (call (ExecInto E ex po))"
begin

definition stamps :: "prometheus_cluster \<Rightarrow> namespaced_name \<Rightarrow> 'w contested process \<Rightarrow> 'w contested process \<Rightarrow> bool" where
  "stamps pc k = acts (clusters.seen pc) (\<lambda>w w'. backup_write k (view w) (view w'))"

lemma stamps_refl [simp]: "reflp (stamps pc k)" and stamps_trans [simp]: "transp (stamps pc k)"
  by (simp_all add: stamps_def acts_refl acts_trans)

lemma silent: "keeps (acts (\<lambda>_. True) (\<lambda>_ _. False)) f \<Longrightarrow> keeps (stamps pc k) f"
  by (rule keepsI, drule (1) keepsD, unfold stamps_def, erule acts_weaken) simp_all

lemma stamps_status:
  "keeps (stamps pc (pc_key pc)) (call (StatusUpdate (Clusters (sch_Client S))
     (pc\<lparr>pc_Status := (pc_Status pc)\<lparr>cs_LastBackupTime := Some now\<rparr>\<rparr>)))"
  unfolding client stamps_def contend_client_simps contend_resource_simps
proof (rule keeps_acts_contend)
  fix w r w'
  assume "sound w" "clusters.seen pc w" "StatusUpdate (Clusters cl)
    (pc\<lparr>pc_Status := (pc_Status pc)\<lparr>cs_LastBackupTime := Some now\<rparr>\<rparr>) w = (r, w')"
  note eff = status_effect [OF this]
  have "restamped (pc\<lparr>pc_Status := st\<rparr>) (pc\<lparr>pc_Meta := with_version (pc_Meta pc) v, pc_Status := st\<rparr>)" for st v
    unfolding restamped_def by (intro exI [of _ v]) simp
  with eff show "evolves w w' \<and> backup_write (pc_key pc) (view w) (view w')"
    unfolding backup_write_def by blast
qed simp

lemma stamps_upload: "keeps (stamps pc k) (upload S pc n raw key)"
proof (cases "if n = [] then None else sch_Exec S")
  case None
  then show ?thesis unfolding upload_def None option.case
    by (intro keeps_attempt keeps_return silent put_apart) simp_all
next
  case (Some E)
  then have E: "sch_Exec S = Some E" by (auto split: if_splits)
  have "keeps (stamps pc k) (tarStreamToS3 E pc n key)"
    by (rule keepsI) (auto simp: tarStreamToS3_def split: prod.splits dest: keepsD [OF silent [OF exec_into_apart [OF E]]])
  moreover have "keeps (stamps pc k) (\<lambda>s. (Inr (), snd (cleanupSnapshot E pc n s)))"
    unfolding cleanupSnapshot_def using silent [OF exec_apart [OF E]] by (simp add: keeps_def)
  ultimately show ?thesis unfolding upload_def Some option.case by (intro keeps_attempt) simp_all
qed

lemma stamps_stamp: "keeps (stamps pc (pc_key pc)) (stampBackup S pc)"
proof (rule keepsI)
  fix s r t
  assume run: "stampBackup S pc s = (r, t)"
  obtain now u where n: "call (Now S) s = (now, u)" by fastforce
  have "stamps pc (pc_key pc) s u" by (rule keepsD [OF silent [OF now_apart] n])
  moreover have "stamps pc (pc_key pc) u t"
    using run n keepsD [OF keeps_attempt [OF stamps_trans stamps_status keeps_return [OF stamps_refl]]]
    by (auto simp: stampBackup_def)
  ultimately show "stamps pc (pc_key pc) s t" by (rule transpD [OF stamps_trans])
qed

lemma stamps_snapshot: "keeps (stamps pc k) (snapshot S pc)"
  unfolding snapshot_def Let_def
  by (intro keeps_attempt stamps_trans silent http_apart keepsI)
    (auto simp: reflpD [OF stamps_refl] split: sum.splits option.splits if_splits)

lemma stamps_rest:
  "keeps (stamps pc (pc_key pc)) (attempt ''snapshot'' (snapshot S pc) (\<lambda>(n, raw) s.
     case call (Now S) s of (now, s) \<Rightarrow>
       (case upload S pc n raw (backup_object_key S pc now) s of
          (Inl e, s) \<Rightarrow> (Inl e, s) | (Inr _, s) \<Rightarrow> stampBackup S pc s)))"
proof (intro keeps_attempt stamps_trans stamps_snapshot)
  show "keeps (stamps pc (pc_key pc)) (case nr of (n, raw) \<Rightarrow> \<lambda>s. case call (Now S) s of (now, s) \<Rightarrow>
       (case upload S pc n raw (backup_object_key S pc now) s of
          (Inl e, s) \<Rightarrow> (Inl e, s) | (Inr _, s) \<Rightarrow> stampBackup S pc s))" for nr
    by (rule keepsI) (auto split: prod.splits sum.splits
      dest!: keepsD [OF silent [OF now_apart]] keepsD [OF stamps_upload] keepsD [OF stamps_stamp]
      intro: transpD [OF stamps_trans])
qed

lemma RunOnce_acts:
  "keeps (acts (\<lambda>_. True) (\<lambda>w w'. backup_write (ns, name) (view w) (view w'))) (RunOnce S ns name)"
proof (rule keepsI)
  let ?P = "acts (\<lambda>_. True) (\<lambda>w w'. backup_write (ns, name) (view w) (view w'))"
  fix s r t
  assume "RunOnce S ns name s = (r, t)"
  then obtain v where run: "runBackup S ns name s = (r, v)" and t: "ext t = ext v"
    by (auto simp: RunOnce_def split: prod.splits)
  obtain x u where g: "call (Get (Clusters (sch_Client S)) (ns, name)) s = (x, u)" by fastforce
  have "keeps ?P (call (Get (Clusters (sch_Client S)) (ns, name)))"
    unfolding client contend_client_simps contend_resource_simps
    by (rule keeps_acts_contend) (auto dest!: clusters.get_call simp: backup_write_def)
  then have first: "?P s u" using g by (rule keepsD)
  have "?P s v"
  proof (cases "\<exists>pc. x = Inr pc \<and> fair s")
    case True
    then obtain pc where x: "x = Inr pc" and fair: "fair s" by blast
    have key: "pc_key pc = (ns, name)" and seen: "clusters.seen pc (server (ext u))"
      using clusters.contended_get [OF _ fair] g unfolding client x by simp_all
    have "stamps pc (pc_key pc) u v"
      by (rule keepsD [OF stamps_rest]) (use run g x in \<open>simp add: runBackup_def\<close>)
    then have "?P u v" using seen unfolding stamps_def acts_def key by simp
    with first show ?thesis by (rule transpD [OF acts_trans [OF stable_True]])
  next
    case False
    then show ?thesis using run g first by (cases x) (auto simp: runBackup_def acts_def)
  qed
  then show "?P s t" by (simp add: acts_def fair_def t)
qed

text \<open>The stamp comes last, with the copy that was read first: whatever happened to the cluster in between.\<close>

lemma stamp_conflict:
  assumes "call (Now S) s = (now, u)" and "clusters.seen pc (server (ext u))" "fair u"
    and "\<And>old. v_Clusters (view (moves (ext u) (turn (ext u)) (server (ext u)))) (pc_key pc) = Some old \<Longrightarrow>
      ResourceVersion (pc_Meta old) \<noteq> ResourceVersion (pc_Meta pc)"
  shows "\<exists>e t. stampBackup S pc s = (Inl (Wrapped ''update status'' e), t)"
proof -
  let ?w = "moves (ext u) (turn (ext u)) (server (ext u))" and ?x = "pc\<lparr>pc_Status := (pc_Status pc)\<lparr>cs_LastBackupTime := Some now\<rparr>\<rparr>"
  have "sound ?w" using assms(3) by (auto simp: fair_def intro: evolves_sound)
  moreover have "ResourceVersion (pc_Meta ?x) \<noteq> []" using clusters.seen_version assms(2) by simp
  moreover obtain r w' where run: "StatusUpdate (Clusters cl) ?x ?w = (r, w')" by fastforce
  moreover have "pc_key ?x = pc_key pc" by (simp add: pc_key_def)
  ultimately obtain e where "r = Inl e" using clusters.status_stale [OF _ run] assms(4) by auto
  then have "\<exists>t. call (StatusUpdate (Clusters (sch_Client S)) ?x) u = (Inl e, t)"
    unfolding client using run by (simp add: call_def contend_def)
  with assms(1) show ?thesis by (auto simp: stampBackup_def)
qed

lemma stamps_seen: "stamps pc k s t \<Longrightarrow> clusters.seen pc (server (ext s)) \<Longrightarrow> fair s \<Longrightarrow>
    clusters.seen pc (server (ext t)) \<and> fair t"
  by (auto simp: stamps_def acts_def intro: clusters.seen_evolves)

lemma RunOnce_conflict:
  assumes get: "call (Get (Clusters (sch_Client S)) (ns, name)) s = (Inr pc, s1)"
    and snap: "snapshot S pc s1 = (Inr (snapName, raw), s2)" and now: "call (Now S) s2 = (now, s3)"
    and up: "upload S pc snapName raw (backup_object_key S pc now) s3 = (Inr (), s4)"
    and now': "call (Now S) s4 = (now', s5)" and fair: "fair s"
    and changed: "\<And>old. v_Clusters (view (moves (ext s5) (turn (ext s5)) (server (ext s5)))) (ns, name) = Some old \<Longrightarrow>
      ResourceVersion (pc_Meta old) \<noteq> ResourceVersion (pc_Meta pc)"
  shows "\<exists>e t. RunOnce S ns name s = (Inl (Wrapped ''update status'' e), t) \<and>
    mets t = (mets s)\<lparr>BackupTotal := inc (BackupTotal (mets s)) (ns, name, ''error'')\<rparr>"
proof -
  have key: "pc_key pc = (ns, name)" and at_s1: "clusters.seen pc (server (ext s1))" "fair s1"
    using clusters.contended_get [OF _ fair] get unfolding client by simp_all
  have "stamps pc (pc_key pc) s1 s5"
    using keepsD [OF stamps_snapshot snap] keepsD [OF silent [OF now_apart] now] keepsD [OF stamps_upload up]
      keepsD [OF silent [OF now_apart] now'] by (blast intro: transpD [OF stamps_trans])
  with at_s1 stamps_seen have at_s5: "clusters.seen pc (server (ext s5))" "fair s5" by blast+
  obtain e u where "stampBackup S pc s4 = (Inl (Wrapped ''update status'' e), u)"
    using stamp_conflict [OF now' at_s5] changed unfolding key by blast
  then have run: "runBackup S ns name s = (Inl (Wrapped ''update status'' e), u)"
    using get snap now up by (simp add: runBackup_def)
  have "keeps (\<lambda>s t. mets t = mets s) (runBackup S ns name)"
    by (intro runBackup_keeps) (auto simp: reflp_def transp_def scheduler_calls_def keeps_def call_def split: prod.splits)
  then have "mets u = mets s" using run by (rule keepsD)
  with run show ?thesis by (simp add: RunOnce_def)
qed

end

section \<open>Properties\<close>

text \<open>
  C2: a reconcile pass never undoes what others write meanwhile. Users and other controllers may
  write between any two calls of the pass, and its reads may lag behind: each of its own writes,
  at the moment it takes effect, changes the cluster as it then stands only by adding the
  finalizer to one that is not being deleted, removing it from one that is, or setting phase and
  ready replicas. So a concurrent edit of the specification, a backup or failover stamp and other
  finalizers survive, and nothing but the cluster's own objects is touched.
\<close>

theorem Reconcile_respects_concurrent_writers:
  assumes "contested_pass sound evolves cl view L R"
    and "Reconcile L R k s = (r, t)"
    and "sound (server (ext s))" and "\<And>n w. sound w \<Longrightarrow> evolves w (moves (ext s) n w)"
  shows "\<exists>es. journal (ext t) = journal (ext s) @ es \<and>
    (\<forall>(a, b) \<in> set es. reconcile_write L k (view a) (view b))"
  using keepsD [OF contested_pass.Reconcile_acts [OF assms(1)] assms(2)] assms(3,4)
  by (simp add: versioned_world.acts_def versioned_world.fair_def
      stale_kube.axioms(1) [OF contested_pass.axioms(1) [OF assms(1)]])

text \<open>
  C9: the template never overrides a concurrent opt-out. In a set pass with writers in between and
  reads that lag behind, each own write changes a cluster only if, at the moment it takes effect,
  the cluster has not opted out and has no backup of its own, and then by the template as the
  pass read it and the annotation; the cluster stays stored and everything else of it is as others
  left it. Besides, the pass changes only the status of its set, as the set then stands.
\<close>

theorem ReconcileSet_respects_concurrent_writers:
  assumes "contested_set_pass sound evolves cl view R"
    and "ReconcileSet R k s = (r, t)"
    and "sound (server (ext s))" and "\<And>n w. sound w \<Longrightarrow> evolves w (moves (ext s) n w)"
  shows "\<exists>es. journal (ext t) = journal (ext s) @ es \<and>
    ((\<forall>(a, b) \<in> set es. view b = view a) \<or>
     (\<exists>cset w0. set_key cset = k \<and> evolves w0 (server (ext t)) \<and> v_ClusterSets (view w0) k = Some cset \<and>
        (\<forall>(a, b) \<in> set es. set_write cset (view a) (view b))))"
proof -
  note kube = contested_set_pass.axioms(1) [OF assms(1)]
  note world = stale_kube.axioms(1) [OF kube]
  have fair: "versioned_world.fair sound evolves s"
    using assms(3,4) by (simp add: versioned_world.fair_def [OF world])
  show ?thesis
    using contested_set_pass.ReconcileSet_acts [OF assms(1,2) fair] fair
      contested_set_pass.overlays_def [OF assms(1)] versioned_resource.seen_def [OF stale_kube.axioms(3) [OF kube]]
    by (fastforce simp: versioned_world.acts_def [OF world])
qed

text \<open>
  A backup run writes nothing but the time of the backup, and that only onto the cluster it
  read: with writers in between, every own write of \<open>RunOnce\<close> changes \<open>LastBackupTime\<close> of its
  cluster at most, as the cluster stands at that moment.
\<close>

theorem RunOnce_respects_concurrent_writers:
  assumes "contested_backup sound evolves cl view S"
    and "RunOnce S ns name s = (r, t)"
    and "sound (server (ext s))" and "\<And>n w. sound w \<Longrightarrow> evolves w (moves (ext s) n w)"
  shows "\<exists>es. journal (ext t) = journal (ext s) @ es \<and>
    (\<forall>(a, b) \<in> set es. backup_write (ns, name) (view a) (view b))"
  using keepsD [OF contested_backup.RunOnce_acts [OF assms(1)] assms(2)] assms(3,4)
  by (simp add: versioned_world.acts_def versioned_world.fair_def
      stale_kube.axioms(1) [OF contested_backup.axioms(1) [OF assms(1)]])

text \<open>
  C19: a finished backup is reported as failed when anybody changed the cluster meanwhile. The
  status is updated with the copy that was read before the snapshot, so if at the end of a
  successful upload the stored cluster has another version, or is gone, \<open>RunOnce\<close> returns the error
  of the status update and counts the backup as failed, though the archive is in the bucket.
\<close>

theorem RunOnce_fails_after_concurrent_change:
  assumes "contested_backup sound evolves cl view S"
    and "call (Get (Clusters (sch_Client S)) (ns, name)) s = (Inr pc, s1)"
    and "snapshot S pc s1 = (Inr (snapName, raw), s2)" and "call (Now S) s2 = (now, s3)"
    and "upload S pc snapName raw (backup_object_key S pc now) s3 = (Inr (), s4)"
    and "call (Now S) s4 = (now', s5)"
    and "sound (server (ext s))" and "\<And>n w. sound w \<Longrightarrow> evolves w (moves (ext s) n w)"
    and "\<And>old. v_Clusters (view (moves (ext s5) (turn (ext s5)) (server (ext s5)))) (ns, name) = Some old \<Longrightarrow>
      ResourceVersion (pc_Meta old) \<noteq> ResourceVersion (pc_Meta pc)"
  shows "\<exists>e t. RunOnce S ns name s = (Inl (Wrapped ''update status'' e), t) \<and>
    mets t = (mets s)\<lparr>BackupTotal := inc (BackupTotal (mets s)) (ns, name, ''error'')\<rparr>"
proof -
  note world = stale_kube.axioms(1) [OF contested_backup.axioms(1) [OF assms(1)]]
  have "versioned_world.fair sound evolves s"
    using assms(7,8) by (simp add: versioned_world.fair_def [OF world])
  from contested_backup.RunOnce_conflict [OF assms(1-6) this assms(9)] show ?thesis .
qed

text \<open>
  C27: a failover deletes whatever bears the pod's name by then. The pod is deleted by its key and
  without a precondition on its UID, while the StatefulSet gives a replacement the same name. When
  the probe of a pod fails, by an error or a status of at least 500, and meanwhile another pod, of
  any UID and address, stands under its name, then the deletion takes effect in that state: if the
  server grants it, which is all that is assumed to leave a pod gone or terminating, the
  replacement is, though it was never probed. A refused deletion is the last call.
\<close>

theorem failover_deletes_replacement:
  assumes "hc_Client H = contend_client cl"
    and "\<And>k w w'. Delete (Pods cl) k w = (Inr (), w') \<Longrightarrow> doomed (view w') k"
    and "\<And>now s u. call (hc_Now H) s = (now, u) \<Longrightarrow> journal (ext u) = journal (ext s)"
    and "pod_PodIP pod \<noteq> []" and "call (hc_Get H (ready_url pod)) s = (answer, s1)" and "down answer"
    and "Eventf H pc ''Warning'' ''FailoverTriggered''
      (failover_message pod (case answer of Inl e \<Rightarrow> Some e | Inr _ \<Rightarrow> None)) (ext s1) = c"
    and "v_Pods (view (moves c (turn c) (server c))) (pod_key pod) = Some replacement"
    and "pod_key replacement = pod_key pod"
  shows "\<exists>d b rest. Delete (Pods cl) (pod_key pod) (moves c (turn c) (server c)) = (d, b) \<and>
    journal (ext (snd (checkPod H pod (pc, s)))) = journal c @ (moves c (turn c) (server c), b) # rest \<and>
    (case d of
       Inl _ \<Rightarrow> rest = []
     | Inr _ \<Rightarrow> length rest = 1 \<and>
         (v_Pods (view b) (pod_key replacement) = None \<or>
          (\<exists>p. v_Pods (view b) (pod_key replacement) = Some p \<and> DeletionTimestamp (pod_Meta p) \<noteq> None)))"
proof -
  let ?w = "moves c (turn c) (server c)"
  obtain d b where d: "Delete (Pods cl) (pod_key pod) ?w = (d, b)" by fastforce
  let ?cause = "case answer of Inl e \<Rightarrow> Some e | Inr _ \<Rightarrow> None"
  let ?m = "(mets s1)\<lparr>FailoverTotal := inc (FailoverTotal (mets s1)) (Namespace (pc_Meta pc), Name (pc_Meta pc))\<rparr>"
  let ?s2 = "s1\<lparr>mets := ?m, ext := c\<lparr>server := b, turn := Suc (turn c), journal := journal c @ [(?w, b)]\<rparr>\<rparr>"
  have del: "call (Delete (Pods (hc_Client H)) (pod_key pod)) (s1\<lparr>mets := ?m, ext := c\<rparr>) = (d, ?s2)"
    unfolding assms(1) using d by (simp add: call_def contend_def)
  have failover: "checkPod H pod (pc, s) = triggerFailover H pc pod ?cause s1"
    using assms(4-6) by (auto simp: checkPod_def down_def split: sum.splits)
  show ?thesis
  proof (cases d)
    case (Inl e)
    then have "journal (ext (snd (checkPod H pod (pc, s)))) = journal c @ [(?w, b)]"
      unfolding failover triggerFailover_def Let_def using assms(7) del by simp
    then show ?thesis using d Inl by auto
  next
    case (Inr u)
    obtain now s3 where n: "call (hc_Now H) ?s2 = (now, s3)" by fastforce
    let ?pc = "pc\<lparr>pc_Status := (pc_Status pc)\<lparr>cs_LastFailoverTime := Some now\<rparr>\<rparr>"
    obtain q s4 where q: "call (StatusUpdate (Clusters (hc_Client H)) ?pc) s3 = (q, s4)" by fastforce
    then obtain x where "journal (ext s4) = journal (ext s3) @ [x]"
      unfolding assms(1) by (auto simp: contend_def Let_def elim!: callE split: prod.splits)
    moreover have "ext (snd (checkPod H pod (pc, s))) = ext s4"
      unfolding failover triggerFailover_def Let_def using assms(7) del Inr n q by (simp split: sum.splits)
    ultimately have "journal (ext (snd (checkPod H pod (pc, s)))) = journal c @ (?w, b) # [x]"
      using assms(3) [OF n] by simp
    moreover have "doomed (view b) (pod_key pod)" using assms(2) d Inr by simp
    ultimately show ?thesis
      using d Inr assms(9) by (intro exI [of _ d] exI [of _ b] exI [of _ "[x]"]) (auto simp: doomed_def split: option.splits)
  qed
qed

end
