(* ===== verification/ContestedWitnesses.thy ===== *)
theory ContestedWitnesses
  imports ContestedPasses SetWitnesses BackupWitnesses HealthWitnesses
begin

text \<open>
  The reference server as a versioned store: its clock numbers the versions it hands out, so an
  object written later has a longer version than every object stored before. The components'
  properties on a contested server are witnessed with a user who writes in the middle of a pass.
\<close>

section \<open>Versions on the reference server\<close>

datatype stored_object =
    StoredCluster prometheus_cluster
  | StoredSet prometheus_cluster_set
  | StoredStatefulSet stateful_set
  | StoredService service
  | StoredConfigMap config_map
  | StoredPod pod
  | StoredNamespace namespace_object

primrec stored :: "store \<Rightarrow> object_id \<Rightarrow> stored_object option" where
  "stored st (ClusterId k) = map_option StoredCluster (v_Clusters st k)"
| "stored st (ClusterSetId k) = map_option StoredSet (v_ClusterSets st k)"
| "stored st (StatefulSetId k) = map_option StoredStatefulSet (v_StatefulSets st k)"
| "stored st (ServiceId k) = map_option StoredService (v_Services st k)"
| "stored st (ConfigMapId k) = map_option StoredConfigMap (v_ConfigMaps st k)"
| "stored st (PodId k) = map_option StoredPod (v_Pods st k)"
| "stored st (NamespaceId k) = map_option StoredNamespace (v_Namespaces st k)"

primrec stored_meta :: "stored_object \<Rightarrow> object_meta" where
  "stored_meta (StoredCluster x) = pc_Meta x"
| "stored_meta (StoredSet x) = set_Meta x"
| "stored_meta (StoredStatefulSet x) = sts_Meta x"
| "stored_meta (StoredService x) = svc_Meta x"
| "stored_meta (StoredConfigMap x) = cm_Meta x"
| "stored_meta (StoredPod x) = pod_Meta x"
| "stored_meta (StoredNamespace x) = nso_Meta x"

lemma stored_same: "same_except X a b \<Longrightarrow> i \<notin> X \<Longrightarrow> stored b i = stored a i"
  by (cases i) (auto simp: same_exceptD)

definition version_of :: "stored_object \<Rightarrow> string" where
  "version_of x = ResourceVersion (stored_meta x)"

definition mem_sound :: "mem \<Rightarrow> bool" where
  "mem_sound w \<longleftrightarrow> (\<forall>i x. stored (mem_view w) i = Some x \<longrightarrow>
     version_of x \<noteq> [] \<and> length (version_of x) \<le> m_Clock w)"

definition mem_evolves :: "mem \<Rightarrow> mem \<Rightarrow> bool" where
  "mem_evolves w w' \<longleftrightarrow> (mem_sound w \<longrightarrow> mem_sound w') \<and> m_Clock w \<le> m_Clock w' \<and>
     (\<forall>i y. stored (mem_view w') i = Some y \<longrightarrow>
        stored (mem_view w) i = Some y \<or> m_Clock w < length (version_of y))"

interpretation mem_versions: versioned_world mem_sound mem_evolves
proof
  show "mem_evolves w w'' " if "mem_evolves w w'" "mem_evolves w' w''" for w w' w''
    using that unfolding mem_evolves_def by (meson le_less_trans le_trans)
qed (auto simp: mem_evolves_def)

lemma mem_same_version:
  assumes "mem_sound w" "mem_evolves w w'" "stored (mem_view w) i = Some x" "stored (mem_view w') i = Some y"
    and "version_of x = version_of y"
  shows "x = y"
proof -
  have "length (version_of y) \<le> m_Clock w" using assms(1,3) unfolding mem_sound_def assms(5) [symmetric] by blast
  then have "stored (mem_view w) i = Some y" using assms(2,4) unfolding mem_evolves_def by (metis leD)
  with assms(3) show ?thesis by simp
qed

lemma mem_write_evolves:
  assumes "same_except {i} (mem_view w) (mem_view w')" and "m_Clock w' = Suc (m_Clock w)"
    and "stored (mem_view w') i = Some x" and "version_of x = version_at (m_Clock w)"
  shows "mem_evolves w w'"
proof -
  have at: "stored (mem_view w') j = (if j = i then Some x else stored (mem_view w) j)" for j
    using stored_same [OF assms(1), of j] assms(3) by simp
  have "mem_sound w'" if "mem_sound w"
    using that assms(2,4) unfolding mem_sound_def at by (auto simp: version_at_def intro: le_SucI)
  moreover have "length (version_of x) = Suc (m_Clock w)" by (simp add: assms(4) version_at_def)
  ultimately show ?thesis using assms(2) unfolding mem_evolves_def at by auto
qed

lemma mem_remove_evolves:
  assumes "same_except {i} (mem_view w) (mem_view w')" and "m_Clock w' = m_Clock w"
    and "stored (mem_view w') i = None"
  shows "mem_evolves w w'"
proof -
  have at: "stored (mem_view w') j = (if j = i then None else stored (mem_view w) j)" for j
    using stored_same [OF assms(1), of j] assms(3) by simp
  then show ?thesis using assms(2) unfolding mem_evolves_def mem_sound_def by auto
qed

locale mem_kind_versions = mem_kind_laws K lookup ident
  for K :: "'o mem_kind" and lookup :: "store \<Rightarrow> namespaced_name \<Rightarrow> 'o option" and ident :: "namespaced_name \<Rightarrow> object_id" +
  fixes wrap :: "'o \<Rightarrow> stored_object"
  assumes wrapped: "stored st (ident k) = map_option wrap (lookup st k)"
    and wrapped_meta: "stored_meta (wrap x) = meta_of K x"
    and wrap_inj: "wrap x = wrap y \<Longrightarrow> x = y"
    and set_clock: "m_Clock (set_objects K xs w) = m_Clock w"
begin

lemma store_evolves: "mem_evolves w (store_object K (stamp K w x) w)"
proof (rule mem_write_evolves [OF store_scope])
  show "m_Clock (store_object K (stamp K w x) w) = Suc (m_Clock w)" by (simp add: store_object_def set_clock)
  show "stored (mem_view (store_object K (stamp K w x) w)) (ident (key_of K (stamp K w x))) = Some (wrap (stamp K w x))"
    by (simp add: wrapped stored_lookup)
  show "version_of (wrap (stamp K w x)) = version_at (m_Clock w)"
    by (simp add: version_of_def wrapped_meta stamp_def meta_written)
qed

lemma remove_evolves: "mem_evolves w (remove_object K k w)"
  by (rule mem_remove_evolves [OF remove_scope]) (simp_all add: remove_object_def set_clock wrapped removed_lookup [unfolded remove_object_def])

lemma create_or_update_evolves: "mem_create_or_update K x f w = (r, w') \<Longrightarrow> mem_evolves w w'"
  by (auto simp: mem_create_or_update_def Let_def store_evolves split: sum.splits if_splits)

lemma versioned: "versioned_resource mem_sound mem_evolves (mem_resource K) mem_view lookup ident (key_of K) (meta_of K)"
proof -
  note scope = resource_scope
  have "versioned_resource_axioms mem_sound mem_evolves (mem_resource K) mem_view lookup ident (key_of K) (meta_of K)"
  proof
    fix w k r w' assume "Get (mem_resource K) k w = (r, w')"
    then show "mem_evolves w w' \<and> mem_view w' = mem_view w" by (auto simp: mem_resource_def)
  next
    fix w k x w' assume "mem_sound w" "Get (mem_resource K) k w = (Inr x, w')"
    then show "\<exists>w0. mem_sound w0 \<and> mem_evolves w0 w \<and> lookup (mem_view w0) k = Some x"
      using resource_scope.get_stored [OF scope] mem_versions.evolves_refl by blast
  next
    fix w opts rs w' assume "List (mem_resource K) opts w = (rs, w')"
    then show "mem_evolves w w' \<and> mem_view w' = mem_view w" by (auto simp: mem_resource_def)
  next
    fix w opts xs w' x assume "mem_sound w" "List (mem_resource K) opts w = (Inr xs, w')" "x \<in> set xs"
    then show "\<exists>w0. mem_sound w0 \<and> mem_evolves w0 w \<and> lookup (mem_view w0) (key_of K x) = Some x"
      using first_by_found [of x "key_of K" "[]" "objects K w"]
      by (intro exI [of _ w]) (auto simp: mem_resource_def lookup_view)
  next
    show "lookup (mem_view w) k = Some x \<Longrightarrow> key_of K x = k" for w k x
      by (rule resource_scope.stored_key [OF scope])
  next
    fix w x r w' assume run: "Create (mem_resource K) x w = (r, w')"
    moreover have "mem_evolves w w'"
      using run store_evolves by (auto simp: mem_resource_def Let_def split: option.splits)
    ultimately show "mem_evolves w w' \<and> same_except {ident (key_of K x)} (mem_view w) (mem_view w')"
      using resource_scope.create_scope [OF scope] by blast
  next
    fix w x r w' assume run: "Update (mem_resource K) x w = (r, w')"
    moreover have "mem_evolves w w'"
      using run store_evolves remove_evolves [of w "key_of K x"]
      by (auto simp: mem_resource_def Let_def split: option.splits if_splits)
    ultimately show "mem_evolves w w' \<and> same_except {ident (key_of K x)} (mem_view w) (mem_view w')"
      using resource_scope.update_scope [OF scope] by blast
  next
    fix w x r w' assume run: "StatusUpdate (mem_resource K) x w = (r, w')"
    moreover have "mem_evolves w w'"
      using run store_evolves by (auto simp: mem_resource_def Let_def split: option.splits if_splits)
    ultimately show "mem_evolves w w' \<and> same_except {ident (key_of K x)} (mem_view w) (mem_view w')"
      using resource_scope.status_scope [OF scope] by blast
  next
    fix w k u w' assume run: "Delete (mem_resource K) k w = (u, w')"
    moreover have "mem_evolves w w'"
      using run store_evolves remove_evolves [of w k]
      by (auto simp: mem_resource_def Let_def split: option.splits if_splits)
    ultimately show "mem_evolves w w' \<and> same_except {ident k} (mem_view w) (mem_view w')"
      using resource_scope.delete_scope [OF scope] by blast
  next
    fix w k x assume "mem_sound w" "lookup (mem_view w) k = Some x"
    then show "ResourceVersion (meta_of K x) \<noteq> []"
      using wrapped [of "mem_view w" k] unfolding mem_sound_def version_of_def
      by (metis option.simps(9) wrapped_meta)
  next
    fix w w' k x y
    assume "mem_sound w" "mem_evolves w w'" "lookup (mem_view w) k = Some x" "lookup (mem_view w') k = Some y"
      "ResourceVersion (meta_of K x) = ResourceVersion (meta_of K y)"
    then have "wrap x = wrap y"
      by (intro mem_same_version [of w w' "ident k"]) (simp_all add: wrapped version_of_def wrapped_meta)
    then show "x = y" by (rule wrap_inj)
  next
    fix w x r w' assume "Update (mem_resource K) x w = (r, w')"
      "\<And>old. lookup (mem_view w) (key_of K x) = Some old \<Longrightarrow> ResourceVersion (meta_of K old) \<noteq> ResourceVersion (meta_of K x)"
    then show "(\<exists>e. r = Inl e) \<and> mem_view w' = mem_view w"
      by (auto simp: mem_resource_def lookup_view split: option.splits if_splits)
  next
    fix w x r w' assume "StatusUpdate (mem_resource K) x w = (r, w')"
      "\<And>old. lookup (mem_view w) (key_of K x) = Some old \<Longrightarrow> ResourceVersion (meta_of K old) \<noteq> ResourceVersion (meta_of K x)"
    then show "(\<exists>e. r = Inl e) \<and> mem_view w' = mem_view w"
      by (auto simp: mem_resource_def lookup_view split: option.splits if_splits)
  qed
  then show ?thesis unfolding versioned_resource_def using mem_versions.versioned_world_axioms by simp
qed

end

interpretation mem_v_clusters: mem_kind_versions cluster_kind v_Clusters ClusterId StoredCluster
  by unfold_locales (simp_all add: cluster_kind_def)

interpretation mem_v_sets: mem_kind_versions cluster_set_kind v_ClusterSets ClusterSetId StoredSet
  by unfold_locales (simp_all add: cluster_set_kind_def)

interpretation mem_v_stss: mem_kind_versions sts_kind v_StatefulSets StatefulSetId StoredStatefulSet
  by unfold_locales (simp_all add: sts_kind_def)

interpretation mem_v_pods: mem_kind_versions pod_kind v_Pods PodId StoredPod
  by unfold_locales (simp_all add: pod_kind_def)

interpretation mem_v_namespaces: mem_kind_versions namespace_kind v_Namespaces NamespaceId StoredNamespace
  by unfold_locales (simp_all add: namespace_kind_def)

interpretation mem_v_config_maps: mem_kind_versions config_map_kind v_ConfigMaps ConfigMapId StoredConfigMap
  by unfold_locales (simp_all add: config_map_kind_def)

interpretation mem_v_services: mem_kind_versions service_kind v_Services ServiceId StoredService
  by unfold_locales (simp_all add: service_kind_def)

lemma more_kind_metas:
  "meta_of cluster_set_kind = set_Meta" "meta_of pod_kind = pod_Meta" "meta_of namespace_kind = nso_Meta"
  by (simp_all add: kind_defs)

interpretation mem_stale: stale_kube mem_sound mem_evolves mem_client mem_view
proof -
  have "stale_kube_axioms mem_sound mem_evolves mem_client mem_view"
    apply (unfold_locales)
    subgoal using mem_v_config_maps.create_or_update_evolves mem_config_maps.create_or_update_scope by fastforce
    subgoal using mem_v_services.create_or_update_evolves mem_services.create_or_update_scope by fastforce
    subgoal by (rule mem_kube.cluster_update_atomic)
    subgoal by (rule mem_kube.cluster_update_kept)
    subgoal by (rule mem_kube.cluster_status_atomic)
    subgoal for x w y w'
      using mem_cluster_status [of x w "Inr y" w'] mem_kube.clusters.stored_key by fastforce
    done
  then show "stale_kube mem_sound mem_evolves mem_client mem_view"
    using mem_v_clusters.versioned mem_v_sets.versioned mem_v_stss.versioned mem_v_pods.versioned mem_v_namespaces.versioned
    by (simp add: stale_kube_def mem_versions.versioned_world_axioms more_kind_metas)
qed


section \<open>A user in the middle\<close>

text \<open>A user who changes the cluster just before the call of turn \<open>n\<close>.\<close>

definition user_edits :: "nat \<Rightarrow> (prometheus_cluster \<Rightarrow> prometheus_cluster) \<Rightarrow> nat \<Rightarrow> mem \<Rightarrow> mem" where
  "user_edits n f t w =
     (if t = n then (case v_Clusters (mem_view w) demo_key of
          Some pc \<Rightarrow> snd (Update (mem_resource cluster_kind) (f pc) w) | None \<Rightarrow> w)
      else w)"

lemma user_edits_evolves: "mem_sound w \<Longrightarrow> mem_evolves w (user_edits n f t w)"
  using mem_stale.clusters.update_call
  by (auto simp: user_edits_def split: option.splits) (metis mem_client_fields(1) prod.collapse)

definition versioned :: "prometheus_cluster \<Rightarrow> prometheus_cluster" where
  "versioned pc = pc\<lparr>pc_Meta := with_version (pc_Meta pc) ''v''\<rparr>"

definition contested_demo :: "prometheus_cluster \<Rightarrow> (nat \<Rightarrow> mem \<Rightarrow> mem) \<Rightarrow> mem contested process" where
  "contested_demo pc mv =
     \<lparr>ext = \<lparr>server = empty_mem\<lparr>m_Clusters := [versioned pc], m_Clock := 1\<rparr>, turn = 0, moves = mv, journal = []\<rparr>,
      mets = no_metrics, entries = Map.empty\<rparr>"

lemma contested_demo_sound [simp]: "mem_sound (server (ext (contested_demo pc mv)))"
  unfolding mem_sound_def
proof (intro allI impI)
  fix i x
  assume "stored (mem_view (server (ext (contested_demo pc mv)))) i = Some x"
  then show "version_of x \<noteq> [] \<and> length (version_of x) \<le> m_Clock (server (ext (contested_demo pc mv)))"
    by (cases i) (auto simp: contested_demo_def mem_view_def empty_mem_def versioned_def version_of_def split: if_splits)
qed

definition contested_reconciler :: "mem contested cluster_reconciler" where
  "contested_reconciler = \<lparr>Client = contend_client mem_client, BackupSchedule = None\<rparr>"

interpretation contested_reconcile: contested_pass mem_sound mem_evolves mem_client mem_view ref_lib contested_reconciler
proof -
  have "contested_pass_axioms mem_sound mem_evolves mem_client contested_reconciler"
    by unfold_locales (simp_all add: contested_reconciler_def)
  then show "contested_pass mem_sound mem_evolves mem_client mem_view ref_lib contested_reconciler"
    unfolding contested_pass_def using mem_stale.stale_kube_axioms ref_util.controller_util_axioms by simp
qed

text \<open>
  The user shortens the retention between the read and the update that adds the finalizer: the
  update is refused, and the stored cluster is the user's.
\<close>

definition short_retention :: "prometheus_cluster \<Rightarrow> prometheus_cluster" where
  "short_retention pc = pc\<lparr>pc_Spec := (pc_Spec pc)\<lparr>sp_Retention := ''7d''\<rparr>\<rparr>"

lemma contested_pass_refused:
  "fst (Reconcile ref_lib contested_reconciler demo_key (contested_demo (demo_cluster [] None) (user_edits 1 short_retention))) =
     Inl (Wrapped ''add finalizer'' (StatusError Conflict ''conflict''))"
  by (simp add: Reconcile_def contested_reconciler_def contested_demo_def call_def contend_def user_edits_def versioned_def
      mem_view_def empty_mem_def demo_cluster_def zero_value_defs demo_key_def pc_key_def meta_key_def short_retention_def
      mem_resource_def attempt_def Let_def stamp_def store_object_def drop_key_def with_finalizers_def
      ref_lib_def with_version_def version_at_def
      cluster_kind_def key_of_def)


theorem Reconcile_respects_concurrent_writers_witness:
  "list_all (\<lambda>(a, b). reconcile_write ref_lib demo_key (mem_view a) (mem_view b))
     (journal (ext (snd (Reconcile ref_lib contested_reconciler demo_key
        (contested_demo (demo_cluster [] None) (user_edits 1 short_retention))))))"
proof -
  let ?s = "contested_demo (demo_cluster [] None) (user_edits 1 short_retention)"
  have "moves (ext ?s) = user_edits 1 short_retention" "journal (ext ?s) = []" by (simp_all add: contested_demo_def)
  then show ?thesis
    using Reconcile_respects_concurrent_writers [OF contested_reconcile.contested_pass_axioms prod.collapse [symmetric],
        of ?s demo_key] user_edits_evolves by (auto simp: list_all_iff)
qed

text \<open>The user opts out between the list of the clusters and the overlay.\<close>

definition opt_out :: "prometheus_cluster \<Rightarrow> prometheus_cluster" where
  "opt_out pc = pc\<lparr>pc_Meta := (pc_Meta pc)\<lparr>Annotations := (Annotations (pc_Meta pc))(OptOutAnnotation \<mapsto> ''true'')\<rparr>\<rparr>"

definition contested_set_reconciler :: "mem contested set_reconciler" where
  "contested_set_reconciler =
     \<lparr>set_Client = contend_client mem_client, LabelSelectorAsSelector = LabelSelectorAsSelector mem_set_reconciler\<rparr>"

interpretation contested_sets: contested_set_pass mem_sound mem_evolves mem_client mem_view contested_set_reconciler
proof -
  have "contested_set_pass_axioms mem_client mem_view contested_set_reconciler"
    by unfold_locales (simp add: contested_set_reconciler_def, simp only: mem_client_fields, erule mem_set_status_atomic)
  then show "contested_set_pass mem_sound mem_evolves mem_client mem_view contested_set_reconciler"
    unfolding contested_set_pass_def using mem_stale.stale_kube_axioms by simp
qed

definition contested_set_demo :: "(nat \<Rightarrow> mem \<Rightarrow> mem) \<Rightarrow> mem contested process" where
  "contested_set_demo mv =
     (let s = contested_demo (demo_cluster [] None) mv; c = ext s
      in s\<lparr>ext := c\<lparr>server := (server c)\<lparr>m_ClusterSets :=
           [demo_set\<lparr>set_Meta := with_version (set_Meta demo_set) ''v''\<rparr>]\<rparr>\<rparr>\<rparr>)"

lemma contested_set_demo_sound [simp]: "mem_sound (server (ext (contested_set_demo mv)))"
  unfolding mem_sound_def
proof (intro allI impI)
  fix i x
  assume "stored (mem_view (server (ext (contested_set_demo mv)))) i = Some x"
  then show "version_of x \<noteq> [] \<and> length (version_of x) \<le> m_Clock (server (ext (contested_set_demo mv)))"
    by (cases i) (auto simp: contested_set_demo_def Let_def contested_demo_def mem_view_def empty_mem_def versioned_def
        version_of_def demo_set_def split: if_splits)
qed

theorem ReconcileSet_respects_concurrent_writers_witness:
  "\<exists>es. journal (ext (snd (ReconcileSet contested_set_reconciler ([], ''all'') (contested_set_demo (user_edits 2 opt_out))))) = es \<and>
     (list_all (\<lambda>(a, b). mem_view b = mem_view a) es \<or>
      (\<exists>cset. set_key cset = ([], ''all'') \<and> list_all (\<lambda>(a, b). set_write cset (mem_view a) (mem_view b)) es))"
proof -
  let ?s = "contested_set_demo (user_edits 2 opt_out)"
  have "moves (ext ?s) = user_edits 2 opt_out" "journal (ext ?s) = []"
    by (simp_all add: contested_set_demo_def Let_def contested_demo_def)
  then show ?thesis
    using ReconcileSet_respects_concurrent_writers [OF contested_sets.contested_set_pass_axioms prod.collapse [symmetric],
        of ?s "([], ''all'')"] user_edits_evolves by (auto simp: list_all_iff)
qed

text \<open>
  A backup that uploads the answer of the admin API, while the user changes the retention
  before the status is updated. Calls that do not go to the API server are not contested.
\<close>

definition uncontested :: "('w \<Rightarrow> 'a \<times> 'w) \<Rightarrow> 'w contested \<Rightarrow> 'a \<times> 'w contested" where
  "uncontested f c = (case f (server c) of (r, w) \<Rightarrow> (r, c\<lparr>server := w\<rparr>))"

definition contested_scheduler :: "http_response \<Rightarrow> mem contested scheduler" where
  "contested_scheduler answer =
     (let S = mem_scheduler answer (demo_transfer None)
      in \<lparr>sch_Client = contend_client mem_client, PutObject = (\<lambda>po body. uncontested (PutObject S po body)),
          sch_Exec = None, HTTP_Do = (\<lambda>meth url. uncontested (HTTP_Do S meth url)),
          sch_cron = \<lparr>AddFunc = (\<lambda>sched job. uncontested (AddFunc (sch_cron S) sched job)),
                      RemoveEntry = (\<lambda>i c. c\<lparr>server := RemoveEntry (sch_cron S) i (server c)\<rparr>)\<rparr>,
          Unmarshal = Unmarshal S, Now = uncontested (Now S), FormatTime = FormatTime S\<rparr>)"

lemma uncontested_apart:
  assumes "\<And>w r w'. f w = (r, w') \<Longrightarrow> mem_view w' = mem_view w \<and> m_Clock w' = m_Clock w"
  shows "keeps (mem_versions.acts (\<lambda>_. True) (\<lambda>_ _. False)) (call (uncontested f))"
proof (rule keepsI)
  fix s r t
  assume "call (uncontested f) s = (r, t)"
  then obtain w' where f: "f (server (ext s)) = (r, w')" and t: "t = s\<lparr>ext := (ext s)\<lparr>server := w'\<rparr>\<rparr>"
    by (auto simp: uncontested_def elim!: callE split: prod.splits)
  have evolves: "mem_evolves (server (ext s)) w'" using assms [OF f] by (simp add: mem_evolves_def mem_sound_def)
  with t show "mem_versions.acts (\<lambda>_. True) (\<lambda>_ _. False) s t"
    using mem_versions.evolves_sound [OF _ evolves] by (simp add: mem_versions.acts_def mem_versions.fair_def)
qed

interpretation contested_runs: contested_backup mem_sound mem_evolves mem_client mem_view "contested_scheduler answer"
proof -
  have "contested_backup_axioms mem_sound mem_evolves mem_client (contested_scheduler answer)"
    unfolding contested_backup_axioms_def
    by (auto simp: contested_scheduler_def Let_def mem_scheduler_def intro!: uncontested_apart)
  then show "contested_backup mem_sound mem_evolves mem_client mem_view (contested_scheduler answer)"
    unfolding contested_backup_def using mem_stale.stale_kube_axioms by simp
qed

abbreviation contested_run :: "mem contested process" where
  "contested_run \<equiv> contested_demo (backup_cluster ''@daily'') (user_edits 1 short_retention)"

theorem RunOnce_respects_concurrent_writers_witness:
  "list_all (\<lambda>(a, b). backup_write (''monitoring'', ''demo'') (mem_view a) (mem_view b))
     (journal (ext (snd (RunOnce (contested_scheduler (answer_page 403 ''forbidden'')) ''monitoring'' ''demo'' contested_run))))"
proof -
  have "moves (ext contested_run) = user_edits 1 short_retention" "journal (ext contested_run) = []"
    by (simp_all add: contested_demo_def)
  then show ?thesis
    using RunOnce_respects_concurrent_writers [OF contested_runs.contested_backup_axioms prod.collapse [symmetric],
        of contested_run "answer_page 403 ''forbidden''" "''monitoring''" "''demo''"] user_edits_evolves by (auto simp: list_all_iff)
qed

theorem RunOnce_fails_after_concurrent_change_witness:
  "\<exists>e t. RunOnce (contested_scheduler (answer_page 403 ''forbidden'')) ''monitoring'' ''demo'' contested_run =
       (Inl (Wrapped ''update status'' e), t) \<and> counter (BackupTotal (mets t)) (''monitoring'', ''demo'', ''error'') = 1"
proof -
  let ?S = "contested_scheduler (answer_page 403 ''forbidden'')" and ?pc = "versioned (backup_cluster ''@daily'')"
  have key: "v_Clusters (mem_view w) (''monitoring'', ''demo'') = Some ?pc"
    if "m_Clusters w = [?pc]" for w
    using that by (simp add: mem_view_def versioned_def backup_cluster_def Let_def demo_cluster_def zero_value_defs
        pc_key_def meta_key_def)
  obtain s1 where get: "call (Get (Clusters (sch_Client ?S)) (''monitoring'', ''demo'')) contested_run = (Inr ?pc, s1)"
    and s1: "moves (ext s1) = user_edits 1 short_retention" "turn (ext s1) = 1" "m_Clusters (server (ext s1)) = [?pc]"
      "mets s1 = no_metrics" "m_Clock (server (ext s1)) = 1"
    by (simp add: contested_scheduler_def Let_def call_def contend_def contested_demo_def user_edits_def key)
  have snap: "snapshot ?S ?pc s1 = (Inr ([], ''forbidden''), s1)"
    by (simp add: snapshot_def Let_def attempt_def call_def contested_scheduler_def mem_scheduler_def uncontested_def
        answer_page_def)
  have now: "call (Now ?S) s = (int (m_Clock (server (ext s))), s)" for s
    by (simp add: call_def contested_scheduler_def Let_def mem_scheduler_def uncontested_def)
  obtain s4 where up: "upload ?S ?pc [] ''forbidden'' (backup_object_key ?S ?pc (int (m_Clock (server (ext s1))))) s1 = (Inr (), s4)"
    and s4: "moves (ext s4) = moves (ext s1)" "turn (ext s4) = turn (ext s1)"
      "m_Clusters (server (ext s4)) = m_Clusters (server (ext s1))" "m_Clock (server (ext s4)) = m_Clock (server (ext s1))"
    by (simp add: upload_def attempt_def call_def contested_scheduler_def Let_def mem_scheduler_def uncontested_def)
  have "ResourceVersion (pc_Meta old) \<noteq> ResourceVersion (pc_Meta ?pc)"
    if "v_Clusters (mem_view (moves (ext s4) (turn (ext s4)) (server (ext s4)))) (''monitoring'', ''demo'') = Some old" for old
    using that by (simp add: s1 s4 user_edits_def key demo_key_def)
      (auto simp: s1 s4 mem_resource_def store_object_def stamp_def short_retention_def versioned_def cluster_kind_def key_of_def
        Let_def mem_view_def pc_key_def meta_key_def backup_cluster_def demo_cluster_def zero_value_defs version_at_def)
  moreover have "moves (ext contested_run) = user_edits 1 short_retention" by (simp add: contested_demo_def)
  ultimately have "\<exists>e t. RunOnce ?S ''monitoring'' ''demo'' contested_run = (Inl (Wrapped ''update status'' e), t) \<and>
      mets t = (mets contested_run)\<lparr>BackupTotal := inc (BackupTotal (mets contested_run)) (''monitoring'', ''demo'', ''error'')\<rparr>"
    using user_edits_evolves
    by (intro RunOnce_fails_after_concurrent_change [OF contested_runs.contested_backup_axioms get snap now up now]) simp_all
  then show ?thesis by (auto simp: contested_demo_def no_metrics_def counter_def inc_def)
qed

text \<open>The replica that failed its probe is replaced before the checker deletes it.\<close>

definition contested_checker :: "mem contested health_checker" where
  "contested_checker =
     \<lparr>hc_Client = contend_client mem_client, hc_Get = (\<lambda>url. uncontested (hc_Get (mem_checker url) url)),
      Eventf = (\<lambda>pc ty re msg c. c\<lparr>server := Eventf (mem_checker []) pc ty re msg (server c)\<rparr>),
      hc_Now = uncontested (hc_Now (mem_checker []))\<rparr>"

definition replace_pod :: "nat \<Rightarrow> mem \<Rightarrow> mem" where
  "replace_pod t w = w\<lparr>m_Pods := [(demo_pod ''demo-0'' ''10.0.0.9'')\<lparr>pod_Meta :=
     (pod_Meta (demo_pod ''demo-0'' ''10.0.0.9''))\<lparr>UID := ''new''\<rparr>\<rparr>]\<rparr>"

theorem failover_deletes_replacement_witness:
  "\<exists>a b. (a, b) \<in> set (journal (ext (snd (checkPod contested_checker (demo_pod ''demo-0'' ''10.0.0.1'')
       (demo_cluster [] None, contested_demo (demo_cluster [] None) replace_pod))))) \<and>
     map_option (\<lambda>p. (UID (pod_Meta p), pod_PodIP p)) (v_Pods (mem_view a) (''monitoring'', ''demo-0'')) =
       Some (''new'', ''10.0.0.9'') \<and> doomed (mem_view b) (''monitoring'', ''demo-0'')"
proof -
  let ?s = "contested_demo (demo_cluster [] None) replace_pod" and ?old = "demo_pod ''demo-0'' ''10.0.0.1''"
  let ?new = "(demo_pod ''demo-0'' ''10.0.0.9'')\<lparr>pod_Meta := (pod_Meta (demo_pod ''demo-0'' ''10.0.0.9''))\<lparr>UID := ''new''\<rparr>\<rparr>"
  let ?pc = "demo_cluster [] None" and ?e = "ErrorString ''connection refused''"
  let ?c = "Eventf contested_checker ?pc ''Warning'' ''FailoverTriggered'' (failover_message ?old (Some ?e)) (ext ?s)"
  let ?at = "moves ?c (turn ?c) (server ?c)"
  have get: "call (hc_Get contested_checker (ready_url ?old)) ?s = (Inl ?e, ?s)"
    by (simp add: contested_checker_def mem_checker_def call_def uncontested_def)
  have key: "pod_key ?old = (''monitoring'', ''demo-0'')" "pod_key ?new = (''monitoring'', ''demo-0'')"
    by (simp_all add: demo_pod_def pod_key_def meta_key_def)
  have clock: "journal (ext u) = journal (ext v)" if "call (hc_Now contested_checker) v = (n, u)" for n u v
    using that by (auto simp: contested_checker_def mem_checker_def uncontested_def elim!: callE)
  have moved: "v_Pods (mem_view ?at) (pod_key ?old) = Some ?new"
    by (simp add: contested_checker_def contested_demo_def replace_pod_def mem_view_def demo_pod_def pod_key_def meta_key_def)
  have client: "hc_Client contested_checker = contend_client mem_client" by (simp add: contested_checker_def)
  have granted: "doomed (mem_view w') k" if "Delete (Pods mem_client) k w = (Inr (), w')" for k w w'
    using mem_health.deleted_pod that by simp
  have ip: "pod_PodIP ?old \<noteq> []" by (simp add: demo_pod_def)
  let ?answer = "Inl ?e :: http_response result"
  have down: "down ?answer" by (simp add: down_def)
  have event: "Eventf contested_checker ?pc ''Warning'' ''FailoverTriggered''
      (failover_message ?old (case ?answer of Inl e \<Rightarrow> Some e | Inr _ \<Rightarrow> None)) (ext ?s) = ?c" by simp
  have same_key: "pod_key ?new = pod_key ?old" using key by simp
  note refine = failover_deletes_replacement [where view = mem_view and pc = ?pc, OF client _ _ ip get down event moved same_key]
  obtain d b rest where d: "Delete (Pods mem_client) (pod_key ?old) ?at = (d, b)"
    and j: "journal (ext (snd (checkPod contested_checker ?old (?pc, ?s)))) = journal ?c @ (?at, b) # rest"
    by (insert refine, drule meta_mp, erule granted, drule meta_mp, erule clock, elim exE conjE, rule that)
  have "\<exists>w'. Delete (mem_resource pod_kind) (pod_key ?old) ?at = (Inr (), w')"
    by (rule mem_pod_delete_ok) (simp only: moved option.distinct not_False_eq_True)
  then have "d = Inr ()" using d by auto
  then have "doomed (mem_view b) (''monitoring'', ''demo-0'')" using granted d unfolding key by blast
  moreover have "(?at, b) \<in> set (journal (ext (snd (checkPod contested_checker ?old (?pc, ?s)))))" unfolding j by simp
  moreover have "map_option (\<lambda>p. (UID (pod_Meta p), pod_PodIP p)) (v_Pods (mem_view ?at) (''monitoring'', ''demo-0'')) =
      Some (''new'', ''10.0.0.9'')"
    using moved unfolding key by (simp add: demo_pod_def)
  ultimately show ?thesis by blast
qed

end
