(* ===== verification/GoMemory.thy ===== *)
theory GoMemory
  imports Main "HOL-Library.Monad_Syntax"
begin

text \<open>
  Go's memory as far as deep copies need it. Elsewhere in the development a struct is its value;
  here a pointer, a slice and a map are addresses of cells, so that two structs can share one.

  A memory maps addresses to cells, and everything from \<open>limit\<close> on is free. A type of cell is
  given by how its values go into cells and come out (\<open>cell_kind\<close>); taking a value out of a cell
  of another type is \<open>None\<close>, which a memory-safe program never meets. A copy action takes a value
  and returns the copied one in the next memory. A reader follows the pointers of a value and
  returns what it stands for, with the set of addresses it went through.

  \<open>copied\<close> is the contract of a deep copy: it succeeds on every value that can be read, the copy
  reads as the same, lives in memory that was free before, and nothing that was there changes.
  It is proved here for pointers and slices of values that satisfy it.
\<close>

section \<open>Cells\<close>

type_synonym addr = nat

record 'c memory =
  cells :: "addr \<rightharpoonup> 'c"
  limit :: addr

record ('c, 'x) cell_kind =
  into_cell :: "'x \<Rightarrow> 'c"
  from_cell :: "'c \<Rightarrow> 'x option"

definition wf_memory :: "'c memory \<Rightarrow> bool" where
  "wf_memory m \<longleftrightarrow> (\<forall>a \<ge> limit m. cells m a = None)"

definition extends :: "'c memory \<Rightarrow> 'c memory \<Rightarrow> bool" where
  "extends m m' \<longleftrightarrow> cells m \<subseteq>\<^sub>m cells m'"

definition load :: "('c, 'x) cell_kind \<Rightarrow> addr \<Rightarrow> 'c memory \<Rightarrow> 'x option" where
  "load K a m = Option.bind (cells m a) (from_cell K)"

definition alloc :: "('c, 'x) cell_kind \<Rightarrow> 'x \<Rightarrow> 'c memory \<Rightarrow> addr \<times> 'c memory" where
  "alloc K x m = (limit m, m\<lparr>cells := (cells m)(limit m \<mapsto> into_cell K x), limit := Suc (limit m)\<rparr>)"

definition kind_ok :: "('c, 'x) cell_kind \<Rightarrow> bool" where
  "kind_ok K \<longleftrightarrow> (\<forall>x. from_cell K (into_cell K x) = Some x)"

lemma extends_refl [simp]: "extends m m"
  by (simp add: extends_def)

lemma extends_trans [trans]: "extends m m' \<Longrightarrow> extends m' m'' \<Longrightarrow> extends m m''"
  unfolding extends_def by (rule map_le_trans)

lemma extends_cell: "extends m m' \<Longrightarrow> a \<in> dom (cells m) \<Longrightarrow> cells m' a = cells m a"
  by (simp add: extends_def map_le_def)

lemma extends_dom: "extends m m' \<Longrightarrow> dom (cells m) \<subseteq> dom (cells m')"
  unfolding extends_def by (rule map_le_implies_dom_le)

lemma alloc_props:
  assumes "wf_memory m" "kind_ok K" "alloc K x m = (a, m')"
  shows "wf_memory m'" "extends m m'" "a \<notin> dom (cells m)" "load K a m' = Some x" "a \<in> dom (cells m')"
  using assms by (auto simp: alloc_def wf_memory_def extends_def map_le_def load_def kind_ok_def)

section \<open>Copies and readers\<close>

type_synonym ('c, 'x) copier = "'x \<Rightarrow> 'c memory \<Rightarrow> ('x \<times> 'c memory) option"
type_synonym ('c, 'x, 'v) reader = "'c memory \<Rightarrow> 'x \<Rightarrow> ('v \<times> addr set) option"

text \<open>A value without pointers: \<open>*out = *in\<close>.\<close>

definition copy_flat :: "('c, 'x) copier" where
  "copy_flat x m = Some (x, m)"

text \<open>
  \<open>if p != nil { out = new(T); p.DeepCopyInto(out) }\<close>, where the copy into the new cell is given.
\<close>

definition copy_pointer :: "('c, 'x) cell_kind \<Rightarrow> ('c, 'x) copier \<Rightarrow> ('c, addr option) copier" where
  "copy_pointer K copyInto p m =
     (case p of
        None \<Rightarrow> Some (None, m)
      | Some a \<Rightarrow>
          do { x \<leftarrow> load K a m;
               (y, m) \<leftarrow> copyInto x m;
               (case alloc K y m of (b, m) \<Rightarrow> Some (Some b, m)) })"

text \<open>The same where the library's method allocates the copy itself.\<close>

definition copy_through :: "('c, addr) copier \<Rightarrow> ('c, addr option) copier" where
  "copy_through copy p m =
     (case p of
        None \<Rightarrow> Some (None, m)
      | Some a \<Rightarrow> do { (b, m) \<leftarrow> copy a m; Some (Some b, m) })"

fun copy_all :: "('c, 'x) copier \<Rightarrow> ('c, 'x list) copier" where
  "copy_all copyInto [] m = Some ([], m)"
| "copy_all copyInto (x # xs) m =
     do { (y, m) \<leftarrow> copyInto x m;
          (ys, m) \<leftarrow> copy_all copyInto xs m;
          Some (y # ys, m) }"

definition read_flat :: "('c, 'x, 'x) reader" where
  "read_flat m x = Some (x, {})"

definition read_pointer :: "('c, 'x) cell_kind \<Rightarrow> ('c, 'x, 'v) reader \<Rightarrow> ('c, addr option, 'v option) reader" where
  "read_pointer K rd m p =
     (case p of
        None \<Rightarrow> Some (None, {})
      | Some a \<Rightarrow> do { x \<leftarrow> load K a m; (v, A) \<leftarrow> rd m x; Some (Some v, insert a A) })"

definition read_through :: "('c, addr, 'v) reader \<Rightarrow> ('c, addr option, 'v option) reader" where
  "read_through rd m p =
     (case p of None \<Rightarrow> Some (None, {}) | Some a \<Rightarrow> do { (v, A) \<leftarrow> rd m a; Some (Some v, A) })"

fun read_all :: "('c, 'x, 'v) reader \<Rightarrow> ('c, 'x list, 'v list) reader" where
  "read_all rd m [] = Some ([], {})"
| "read_all rd m (x # xs) =
     do { (v, A) \<leftarrow> rd m x; (vs, B) \<leftarrow> read_all rd m xs; Some (v # vs, A \<union> B) }"

section \<open>The contract of a deep copy\<close>

locale copied =
  fixes rd :: "('c, 'x, 'v) reader" and copy :: "('c, 'x) copier"
  assumes read_dom: "rd m x = Some (v, A) \<Longrightarrow> A \<subseteq> dom (cells m)"
    and read_local: "rd m x = Some (v, A) \<Longrightarrow> (\<And>a. a \<in> A \<Longrightarrow> cells m' a = cells m a) \<Longrightarrow> rd m' x = Some (v, A)"
    and copies: "wf_memory m \<Longrightarrow> rd m x = Some (v, A) \<Longrightarrow>
      \<exists>y m' B. copy x m = Some (y, m') \<and> wf_memory m' \<and> extends m m' \<and> rd m' y = Some (v, B) \<and>
        B \<inter> dom (cells m) = {}"
begin

lemma persists:
  assumes "rd m x = Some (v, A)" "extends m m'"
  shows "rd m' x = Some (v, A)"
  using assms(1) by (rule read_local) (use read_dom [OF assms(1)] extends_cell [OF assms(2)] in blast)

text \<open>One copy in a sequence of copies: \<open>m0\<close> is the memory before the first of them.\<close>

lemma step:
  assumes "wf_memory m" "extends m0 m" "rd m0 x = Some (v, A)"
  obtains y m' B where "copy x m = Some (y, m')" "wf_memory m'" "extends m m'" "extends m0 m'"
    "rd m' y = Some (v, B)" "B \<inter> dom (cells m0) = {}"
proof -
  from copies [OF assms(1) persists [OF assms(3,2)]] obtain y m' B where
    "copy x m = Some (y, m')" "wf_memory m'" "extends m m'" "rd m' y = Some (v, B)" "B \<inter> dom (cells m) = {}" by blast
  moreover from this(3) assms(2) have "extends m0 m'" by (blast intro: extends_trans)
  moreover have "dom (cells m0) \<subseteq> dom (cells m)" by (rule extends_dom [OF assms(2)])
  ultimately show thesis by (intro that [of y m' B]) blast+
qed

end

lemma copied_flat: "copied read_flat copy_flat"
  by unfold_locales (auto simp: read_flat_def copy_flat_def)

lemma copied_pointer:
  assumes "copied rd copy" "kind_ok K"
  shows "copied (read_pointer K rd) (copy_pointer K copy)"
proof
  fix m p v A
  assume "read_pointer K rd m p = Some (v, A)"
  then show "A \<subseteq> dom (cells m)"
    using copied.read_dom [OF assms(1)] by (fastforce simp: read_pointer_def load_def bind_eq_Some_conv split: option.splits)
next
  fix m m' :: "'a memory" and p v A
  assume rd: "read_pointer K rd m p = Some (v, A)" and same: "\<And>a. a \<in> A \<Longrightarrow> cells m' a = cells m a"
  show "read_pointer K rd m' p = Some (v, A)"
  proof (cases p)
    case None
    then show ?thesis using rd by (simp add: read_pointer_def)
  next
    case (Some a)
    then obtain x w B where x: "load K a m = Some x" "rd m x = Some (w, B)" "v = Some w" "A = insert a B"
      using rd by (auto simp: read_pointer_def bind_eq_Some_conv)
    have "rd m' x = Some (w, B)" by (rule copied.read_local [OF assms(1) x(2)]) (simp add: same x(4))
    moreover have "load K a m' = Some x" using same [of a] x(1,4) by (simp add: load_def)
    ultimately show ?thesis by (simp add: read_pointer_def Some x)
  qed
next
  fix m p v A
  assume wf: "wf_memory m" and rd: "read_pointer K rd m p = Some (v, A)"
  show "\<exists>y m' B. copy_pointer K copy p m = Some (y, m') \<and> wf_memory m' \<and> extends m m' \<and>
      read_pointer K rd m' y = Some (v, B) \<and> B \<inter> dom (cells m) = {}"
  proof (cases p)
    case None
    then show ?thesis using rd wf by (simp add: read_pointer_def copy_pointer_def)
  next
    case (Some a)
    then obtain x w C where x: "load K a m = Some x" "rd m x = Some (w, C)" "v = Some w"
      using rd by (auto simp: read_pointer_def bind_eq_Some_conv)
    obtain y m1 B where y: "copy x m = Some (y, m1)" "wf_memory m1" "extends m m1" "rd m1 y = Some (w, B)"
      "B \<inter> dom (cells m) = {}"
      using copied.copies [OF assms(1) wf x(2)] by blast
    obtain b m2 where al: "alloc K y m1 = (b, m2)" by fastforce
    note al' = alloc_props [OF y(2) assms(2) al]
    have "rd m2 y = Some (w, B)" by (rule copied.persists [OF assms(1) y(4) al'(2)])
    moreover have "b \<notin> dom (cells m)" using al'(3) extends_dom [OF y(3)] by blast
    ultimately show ?thesis
      using Some x y al al' extends_trans [OF y(3) al'(2)]
      by (simp add: copy_pointer_def read_pointer_def)
  qed
qed

lemma copied_through:
  assumes "copied rd copy"
  shows "copied (read_through rd) (copy_through copy)"
proof
  fix m p v A
  assume "read_through rd m p = Some (v, A)"
  then show "A \<subseteq> dom (cells m)"
    using copied.read_dom [OF assms] by (fastforce simp: read_through_def bind_eq_Some_conv split: option.splits)
next
  fix m m' :: "'a memory" and p v A
  assume "read_through rd m p = Some (v, A)" "\<And>a. a \<in> A \<Longrightarrow> cells m' a = cells m a"
  then show "read_through rd m' p = Some (v, A)"
  proof (cases p)
    case (Some a)
    then obtain w where "rd m a = Some (w, A)" "v = Some w"
      using \<open>read_through rd m p = Some (v, A)\<close> by (auto simp: read_through_def bind_eq_Some_conv)
    then show ?thesis
      using copied.read_local [OF assms, of m a w A m'] \<open>\<And>a. a \<in> A \<Longrightarrow> cells m' a = cells m a\<close> Some
      by (simp add: read_through_def)
  qed (simp add: read_through_def)
next
  fix m p v A
  assume "wf_memory m" "read_through rd m p = Some (v, A)"
  then show "\<exists>y m' B. copy_through copy p m = Some (y, m') \<and> wf_memory m' \<and> extends m m' \<and>
      read_through rd m' y = Some (v, B) \<and> B \<inter> dom (cells m) = {}"
  proof (cases p)
    case (Some a)
    have "\<exists>w. rd m a = Some (w, A) \<and> v = Some w"
      using \<open>read_through rd m p = Some (v, A)\<close> by (auto simp: Some read_through_def bind_eq_Some_conv)
    then obtain w where r: "rd m a = Some (w, A)" "v = Some w" by blast
    obtain b m' B where "copy a m = Some (b, m')" "wf_memory m'" "extends m m'" "rd m' b = Some (w, B)"
      "B \<inter> dom (cells m) = {}"
      using copied.copies [OF assms \<open>wf_memory m\<close> r(1)] by blast
    then show ?thesis using r(2) Some
      by (intro exI [of _ "Some b"] exI [of _ m'] exI [of _ B]) (simp add: copy_through_def read_through_def)
  qed (simp add: read_through_def copy_through_def)
qed

lemma read_all_dom:
  assumes "copied rd copy"
  shows "read_all rd m xs = Some (v, A) \<Longrightarrow> A \<subseteq> dom (cells m)"
proof (induction xs arbitrary: v A)
  case (Cons x xs)
  then show ?case using copied.read_dom [OF assms] by (fastforce simp: bind_eq_Some_conv)
qed simp

lemma read_all_local:
  assumes "copied rd copy"
  shows "read_all rd m xs = Some (v, A) \<Longrightarrow> (\<And>a. a \<in> A \<Longrightarrow> cells m' a = cells m a) \<Longrightarrow> read_all rd m' xs = Some (v, A)"
proof (induction xs arbitrary: v A)
  case (Cons x xs)
  then obtain w B ws C where "rd m x = Some (w, B)" "read_all rd m xs = Some (ws, C)" "v = w # ws" "A = B \<union> C"
    by (auto simp: bind_eq_Some_conv)
  with Cons copied.read_local [OF assms, of m x w B m'] show ?case by simp
qed simp

lemma copied_all:
  assumes "copied rd copy"
  shows "copied (read_all rd) (copy_all copy)"
proof
  show "A \<subseteq> dom (cells m)" if "read_all rd m xs = Some (v, A)" for m xs v A
    using read_all_dom [OF assms that] .
  show "read_all rd m' xs = Some (v, A)"
    if "read_all rd m xs = Some (v, A)" "\<And>a. a \<in> A \<Longrightarrow> cells m' a = cells m a" for m m' :: "'a memory" and xs v A
    using read_all_local [OF assms that] .
next
  fix m xs v A
  assume "wf_memory m" "read_all rd m xs = Some (v, A)"
  then show "\<exists>ys m' B. copy_all copy xs m = Some (ys, m') \<and> wf_memory m' \<and> extends m m' \<and>
      read_all rd m' ys = Some (v, B) \<and> B \<inter> dom (cells m) = {}"
  proof (induction xs arbitrary: m v A)
    case (Cons x xs)
    then obtain w B ws C where r: "rd m x = Some (w, B)" "read_all rd m xs = Some (ws, C)" "v = w # ws"
      by (auto simp: bind_eq_Some_conv)
    obtain y m1 B' where y: "copy x m = Some (y, m1)" "wf_memory m1" "extends m m1" "rd m1 y = Some (w, B')"
      "B' \<inter> dom (cells m) = {}"
      using copied.copies [OF assms Cons.prems(1) r(1)] by blast
    have rest: "read_all rd m1 xs = Some (ws, C)"
      by (rule read_all_local [OF assms r(2)]) (use read_all_dom [OF assms r(2)] extends_cell [OF y(3)] in blast)
    obtain ys m2 C' where ys: "copy_all copy xs m1 = Some (ys, m2)" "wf_memory m2" "extends m1 m2"
      "read_all rd m2 ys = Some (ws, C')" "C' \<inter> dom (cells m1) = {}"
      using Cons.IH [OF y(2) rest] by blast
    have "rd m2 y = Some (w, B')" by (rule copied.persists [OF assms y(4) ys(3)])
    moreover have "extends m m2" by (rule extends_trans [OF y(3) ys(3)])
    moreover have "(B' \<union> C') \<inter> dom (cells m) = {}" using y(5) ys(5) extends_dom [OF y(3)] by blast
    ultimately show ?case using r(3) y(1) ys(1,2,4) by simp
  qed simp
qed

text \<open>
  A struct: the fields that hold pointers, as nested pairs, are copied from first to last, and
  the others are taken over.
\<close>

definition copy_pair :: "('c, 'x) copier \<Rightarrow> ('c, 'y) copier \<Rightarrow> ('c, 'x \<times> 'y) copier" where
  "copy_pair c1 c2 = (\<lambda>(x, y) m. do { (x, m) \<leftarrow> c1 x m; (y, m) \<leftarrow> c2 y m; Some ((x, y), m) })"

definition read_pair :: "('c, 'x, 'v) reader \<Rightarrow> ('c, 'y, 'w) reader \<Rightarrow> ('c, 'x \<times> 'y, 'v \<times> 'w) reader" where
  "read_pair r1 r2 m = (\<lambda>(x, y). do { (v, A) \<leftarrow> r1 m x; (w, B) \<leftarrow> r2 m y; Some ((v, w), A \<union> B) })"

lemma copied_pair:
  assumes "copied r1 c1" "copied r2 c2"
  shows "copied (read_pair r1 r2) (copy_pair c1 c2)"
proof
  fix m p v A
  assume "read_pair r1 r2 m p = Some (v, A)"
  then obtain w B u C where "r1 m (fst p) = Some (w, B)" "r2 m (snd p) = Some (u, C)" "A = B \<union> C"
    by (auto simp: read_pair_def bind_eq_Some_conv split: prod.splits)
  then show "A \<subseteq> dom (cells m)" using copied.read_dom [OF assms(1)] copied.read_dom [OF assms(2)] by blast
next
  fix m m' :: "'a memory" and p v A
  assume rd: "read_pair r1 r2 m p = Some (v, A)" and same: "\<And>a. a \<in> A \<Longrightarrow> cells m' a = cells m a"
  obtain w B u C where "r1 m (fst p) = Some (w, B)" "r2 m (snd p) = Some (u, C)" "v = (w, u)" "A = B \<union> C"
    using rd by (auto simp: read_pair_def bind_eq_Some_conv split: prod.splits)
  with same copied.read_local [OF assms(1), of m _ w B m'] copied.read_local [OF assms(2), of m _ u C m']
  show "read_pair r1 r2 m' p = Some (v, A)" by (simp add: read_pair_def split_def)
next
  fix m p v A
  assume wf: "wf_memory m" and rd: "read_pair r1 r2 m p = Some (v, A)"
  obtain w B u C where r: "r1 m (fst p) = Some (w, B)" "r2 m (snd p) = Some (u, C)" "v = (w, u)"
    using rd by (auto simp: read_pair_def bind_eq_Some_conv split: prod.splits)
  obtain x m1 B' where x: "c1 (fst p) m = Some (x, m1)" "wf_memory m1" "extends m m1" "r1 m1 x = Some (w, B')"
    "B' \<inter> dom (cells m) = {}"
    using copied.copies [OF assms(1) wf r(1)] by blast
  obtain y m2 C' where y: "c2 (snd p) m1 = Some (y, m2)" "wf_memory m2" "extends m1 m2" "extends m m2"
    "r2 m2 y = Some (u, C')" "C' \<inter> dom (cells m) = {}"
    by (rule copied.step [OF assms(2) x(2,3) r(2)])
  have "r1 m2 x = Some (w, B')" by (rule copied.persists [OF assms(1) x(4) y(3)])
  moreover have "(B' \<union> C') \<inter> dom (cells m) = {}" using x(5) y(6) by blast
  ultimately show "\<exists>y m' B. copy_pair c1 c2 p m = Some (y, m') \<and> wf_memory m' \<and> extends m m' \<and>
      read_pair r1 r2 m' y = Some (v, B) \<and> B \<inter> dom (cells m) = {}"
    using r(3) x(1) y(1,2,4,5) by (simp add: copy_pair_def read_pair_def split_def)
qed

lemma copied_struct:
  assumes "copied r c"
    and rd: "\<And>m x. rd m x = do { (v, A) \<leftarrow> r m (get x); Some (mk x v, A) }"
    and copy: "\<And>x m. copy x m = do { (y, m) \<leftarrow> c (get x) m; Some (put x y, m) }"
    and "\<And>x y. get (put x y) = y" and "\<And>x y v. mk (put x y) v = mk x v"
  shows "copied rd copy"
proof
  fix m x v A
  assume "rd m x = Some (v, A)"
  then obtain w where "r m (get x) = Some (w, A)" by (auto simp: rd bind_eq_Some_conv)
  then show "A \<subseteq> dom (cells m)" by (rule copied.read_dom [OF assms(1)])
next
  fix m m' :: "'a memory" and x v A
  assume "rd m x = Some (v, A)" and same: "\<And>a. a \<in> A \<Longrightarrow> cells m' a = cells m a"
  then obtain w where w: "r m (get x) = Some (w, A)" "v = mk x w" by (auto simp: rd bind_eq_Some_conv)
  have "r m' (get x) = Some (w, A)" by (rule copied.read_local [OF assms(1) w(1) same])
  with w(2) show "rd m' x = Some (v, A)" by (simp add: rd)
next
  fix m x v A
  assume wf: "wf_memory m" and "rd m x = Some (v, A)"
  then obtain w where w: "r m (get x) = Some (w, A)" "v = mk x w" by (auto simp: rd bind_eq_Some_conv)
  obtain y m' B where "c (get x) m = Some (y, m')" "wf_memory m'" "extends m m'" "r m' y = Some (w, B)"
    "B \<inter> dom (cells m) = {}"
    using copied.copies [OF assms(1) wf w(1)] by blast
  then show "\<exists>y m' B. copy x m = Some (y, m') \<and> wf_memory m' \<and> extends m m' \<and> rd m' y = Some (v, B) \<and>
      B \<inter> dom (cells m) = {}"
    using w(2) assms(4,5) by (intro exI [of _ "put x y"] exI [of _ m'] exI [of _ B]) (simp add: copy rd)
qed

lemmas copied_intro = copied_flat copied_pointer copied_through copied_all copied_pair


text \<open>
  What the contract means for the program: the copy stands for the same value, no address is
  common to both, and whatever is written outside the one's memory leaves the one's value alone,
  so writing through either is not seen through the other.
\<close>

definition independent_copy ::
    "('c, 'p, 'v) reader \<Rightarrow> 'p \<Rightarrow> 'c memory \<Rightarrow> 'p \<Rightarrow> 'c memory \<Rightarrow> bool" where
  "independent_copy rd p m q m' \<longleftrightarrow>
     (\<exists>v A B. rd m p = Some (v, A) \<and> rd m' q = Some (v, B) \<and> A \<inter> B = {} \<and> wf_memory m' \<and>
        (\<forall>m''. (\<forall>a \<in> A. cells m'' a = cells m' a) \<longrightarrow> rd m'' p = Some (v, A)) \<and>
        (\<forall>m''. (\<forall>b \<in> B. cells m'' b = cells m' b) \<longrightarrow> rd m'' q = Some (v, B)))"

lemma copied_independent:
  assumes "copied rd copy" "wf_memory m" "rd m p = Some (v, A)"
  shows "\<exists>q m'. copy p m = Some (q, m') \<and> independent_copy rd p m q m'"
proof -
  obtain q m' B where q: "copy p m = Some (q, m')" "wf_memory m'" "extends m m'" "rd m' q = Some (v, B)"
    "B \<inter> dom (cells m) = {}"
    using copied.copies [OF assms] by blast
  have "A \<inter> B = {}" using copied.read_dom [OF assms(1,3)] q(5) by blast
  moreover have "rd m'' p = Some (v, A)" if "\<forall>a \<in> A. cells m'' a = cells m' a" for m'' :: "'a memory"
    using copied.persists [OF assms(1,3) q(3)] that by (blast intro: copied.read_local [OF assms(1)])
  moreover have "rd m'' q = Some (v, B)" if "\<forall>b \<in> B. cells m'' b = cells m' b" for m'' :: "'a memory"
    using q(4) that by (blast intro: copied.read_local [OF assms(1)])
  ultimately show ?thesis using assms(3) q(1,2,4) unfolding independent_copy_def by blast
qed

end
