(* ===== verification/DeepCopy.thy ===== *)
theory DeepCopy
  imports GoMemory ApiTypes
begin

text \<open>
  The deep copies of the API types (\<open>api/v1/zz_generated.deepcopy.go\<close>) on Go's memory.

  Each struct of \<open>ApiTypes\<close> has its layout in memory here (\<open>m_...\<close>): the same fields, with an
  address where the Go struct has a pointer, a slice or a map. A slice or map is the address of
  the cell that holds its elements; nil is \<open>None\<close>. The reader of a struct (\<open>read_...\<close>) is the
  abstraction to its value in \<open>ApiTypes\<close>. \<open>T_DeepCopyInto\<close> returns the struct the method writes to
  \<open>*out\<close>; \<open>T_DeepCopy\<close> takes and returns a pointer. A new cell is allocated when its contents are
  known, where the code allocates it before; only the address differs.

  Types of the Kubernetes libraries that the structs embed (object metadata, conditions, label
  selectors, ...) are opaque values of a type \<open>'l\<close>; their copy methods and what they stand for are
  parameters, with the contract of a deep copy as their law (\<open>library_copies\<close>).
\<close>

section \<open>Structs in memory\<close>

record type_meta =
  tm_Kind :: string
  tm_APIVersion :: string

record list_meta =
  lm_ResourceVersion :: string
  lm_Continue :: string

record m_scrape_configs =
  masc_Inline :: string
  masc_SecretRef :: "addr option"

record m_backup_spec =
  mbk_Enabled :: bool
  mbk_Bucket :: string
  mbk_Region :: string
  mbk_Endpoint :: string
  mbk_Prefix :: string
  mbk_Schedule :: string
  mbk_CredentialsSecretRef :: "addr option"

record m_remote_write =
  mrw_URL :: string
  mrw_Name :: string
  mrw_BasicAuthSecretRef :: "addr option"
  mrw_BearerTokenSecretRef :: "addr option"

record m_thanos_spec =
  mth_Enabled :: bool
  mth_Image :: string
  mth_ObjectStorageConfigSecretRef :: "addr option"

record 'l m_storage_spec =
  mst_StorageClassName :: "addr option"
  mst_Size :: 'l

record 'l m_cluster_spec =
  msp_Replicas :: int32
  msp_Image :: string
  msp_Retention :: string
  msp_Storage :: "'l m_storage_spec"
  msp_Resources :: 'l
  msp_Backup :: m_backup_spec
  msp_RemoteWrite :: "addr option"
  msp_Thanos :: m_thanos_spec
  msp_AdditionalScrapeConfigs :: "addr option"

record m_cluster_status =
  mcs_Conditions :: "addr option"
  mcs_Phase :: cluster_phase
  mcs_ReadyReplicas :: int32
  mcs_LastBackupTime :: "addr option"
  mcs_LastFailoverTime :: "addr option"

record 'l m_cluster =
  mpc_TypeMeta :: type_meta
  mpc_ObjectMeta :: 'l
  mpc_Spec :: "'l m_cluster_spec"
  mpc_Status :: m_cluster_status

record 'l m_cluster_list =
  mpl_TypeMeta :: type_meta
  mpl_ListMeta :: 'l
  mpl_Items :: "addr option"

record m_set_spec =
  mss_ClusterSelector :: "addr option"
  mss_NamespaceSelector :: "addr option"
  mss_BackupTemplate :: "addr option"

record m_set_status =
  mst_Conditions :: "addr option"
  mst_MemberCount :: int32
  mst_PhaseCount :: "addr option"
  mst_Members :: "addr option"

record 'l m_set =
  mse_TypeMeta :: type_meta
  mse_ObjectMeta :: 'l
  mse_Spec :: m_set_spec
  mse_Status :: m_set_status

record 'l m_set_list =
  msl_TypeMeta :: type_meta
  msl_ListMeta :: 'l
  msl_Items :: "addr option"

text \<open>What a cell may hold.\<close>

datatype 'l api_cell =
    StringCell string
  | LocalRefCell local_object_reference
  | LibraryCell 'l
  | ScrapeConfigsCell m_scrape_configs
  | BackupCell m_backup_spec
  | RemoteWriteCell m_remote_write
  | ThanosCell m_thanos_spec
  | StorageCell "'l m_storage_spec"
  | SpecCell "'l m_cluster_spec"
  | StatusCell m_cluster_status
  | ClusterCell "'l m_cluster"
  | ClusterListCell "'l m_cluster_list"
  | SetSpecCell m_set_spec
  | SetStatusCell m_set_status
  | MemberCell set_member
  | SetCell "'l m_set"
  | SetListCell "'l m_set_list"
  | RemoteWritesCell "m_remote_write list"
  | ConditionsCell "'l list"
  | MembersCell "set_member list"
  | PhaseCountCell "string \<rightharpoonup> int32"
  | ClustersCell "'l m_cluster list"
  | SetsCell "'l m_set list"

definition StringKind :: "('l api_cell, string) cell_kind" where
  "StringKind = \<lparr>into_cell = StringCell, from_cell = (\<lambda>c. case c of StringCell x \<Rightarrow> Some x | _ \<Rightarrow> None)\<rparr>"

definition LocalRefKind :: "('l api_cell, local_object_reference) cell_kind" where
  "LocalRefKind = \<lparr>into_cell = LocalRefCell, from_cell = (\<lambda>c. case c of LocalRefCell x \<Rightarrow> Some x | _ \<Rightarrow> None)\<rparr>"

definition LibraryKind :: "('l api_cell, 'l) cell_kind" where
  "LibraryKind = \<lparr>into_cell = LibraryCell, from_cell = (\<lambda>c. case c of LibraryCell x \<Rightarrow> Some x | _ \<Rightarrow> None)\<rparr>"

definition ScrapeConfigsKind :: "('l api_cell, m_scrape_configs) cell_kind" where
  "ScrapeConfigsKind = \<lparr>into_cell = ScrapeConfigsCell, from_cell = (\<lambda>c. case c of ScrapeConfigsCell x \<Rightarrow> Some x | _ \<Rightarrow> None)\<rparr>"

definition BackupKind :: "('l api_cell, m_backup_spec) cell_kind" where
  "BackupKind = \<lparr>into_cell = BackupCell, from_cell = (\<lambda>c. case c of BackupCell x \<Rightarrow> Some x | _ \<Rightarrow> None)\<rparr>"

definition RemoteWriteKind :: "('l api_cell, m_remote_write) cell_kind" where
  "RemoteWriteKind = \<lparr>into_cell = RemoteWriteCell, from_cell = (\<lambda>c. case c of RemoteWriteCell x \<Rightarrow> Some x | _ \<Rightarrow> None)\<rparr>"

definition ThanosKind :: "('l api_cell, m_thanos_spec) cell_kind" where
  "ThanosKind = \<lparr>into_cell = ThanosCell, from_cell = (\<lambda>c. case c of ThanosCell x \<Rightarrow> Some x | _ \<Rightarrow> None)\<rparr>"

definition StorageKind :: "('l api_cell, 'l m_storage_spec) cell_kind" where
  "StorageKind = \<lparr>into_cell = StorageCell, from_cell = (\<lambda>c. case c of StorageCell x \<Rightarrow> Some x | _ \<Rightarrow> None)\<rparr>"

definition SpecKind :: "('l api_cell, 'l m_cluster_spec) cell_kind" where
  "SpecKind = \<lparr>into_cell = SpecCell, from_cell = (\<lambda>c. case c of SpecCell x \<Rightarrow> Some x | _ \<Rightarrow> None)\<rparr>"

definition StatusKind :: "('l api_cell, m_cluster_status) cell_kind" where
  "StatusKind = \<lparr>into_cell = StatusCell, from_cell = (\<lambda>c. case c of StatusCell x \<Rightarrow> Some x | _ \<Rightarrow> None)\<rparr>"

definition ClusterKind :: "('l api_cell, 'l m_cluster) cell_kind" where
  "ClusterKind = \<lparr>into_cell = ClusterCell, from_cell = (\<lambda>c. case c of ClusterCell x \<Rightarrow> Some x | _ \<Rightarrow> None)\<rparr>"

definition ClusterListKind :: "('l api_cell, 'l m_cluster_list) cell_kind" where
  "ClusterListKind = \<lparr>into_cell = ClusterListCell, from_cell = (\<lambda>c. case c of ClusterListCell x \<Rightarrow> Some x | _ \<Rightarrow> None)\<rparr>"

definition SetSpecKind :: "('l api_cell, m_set_spec) cell_kind" where
  "SetSpecKind = \<lparr>into_cell = SetSpecCell, from_cell = (\<lambda>c. case c of SetSpecCell x \<Rightarrow> Some x | _ \<Rightarrow> None)\<rparr>"

definition SetStatusKind :: "('l api_cell, m_set_status) cell_kind" where
  "SetStatusKind = \<lparr>into_cell = SetStatusCell, from_cell = (\<lambda>c. case c of SetStatusCell x \<Rightarrow> Some x | _ \<Rightarrow> None)\<rparr>"

definition MemberKind :: "('l api_cell, set_member) cell_kind" where
  "MemberKind = \<lparr>into_cell = MemberCell, from_cell = (\<lambda>c. case c of MemberCell x \<Rightarrow> Some x | _ \<Rightarrow> None)\<rparr>"

definition SetKind :: "('l api_cell, 'l m_set) cell_kind" where
  "SetKind = \<lparr>into_cell = SetCell, from_cell = (\<lambda>c. case c of SetCell x \<Rightarrow> Some x | _ \<Rightarrow> None)\<rparr>"

definition SetListKind :: "('l api_cell, 'l m_set_list) cell_kind" where
  "SetListKind = \<lparr>into_cell = SetListCell, from_cell = (\<lambda>c. case c of SetListCell x \<Rightarrow> Some x | _ \<Rightarrow> None)\<rparr>"

definition RemoteWritesKind :: "('l api_cell, m_remote_write list) cell_kind" where
  "RemoteWritesKind = \<lparr>into_cell = RemoteWritesCell, from_cell = (\<lambda>c. case c of RemoteWritesCell x \<Rightarrow> Some x | _ \<Rightarrow> None)\<rparr>"

definition ConditionsKind :: "('l api_cell, 'l list) cell_kind" where
  "ConditionsKind = \<lparr>into_cell = ConditionsCell, from_cell = (\<lambda>c. case c of ConditionsCell x \<Rightarrow> Some x | _ \<Rightarrow> None)\<rparr>"

definition MembersKind :: "('l api_cell, set_member list) cell_kind" where
  "MembersKind = \<lparr>into_cell = MembersCell, from_cell = (\<lambda>c. case c of MembersCell x \<Rightarrow> Some x | _ \<Rightarrow> None)\<rparr>"

definition PhaseCountKind :: "('l api_cell, string \<rightharpoonup> int32) cell_kind" where
  "PhaseCountKind = \<lparr>into_cell = PhaseCountCell, from_cell = (\<lambda>c. case c of PhaseCountCell x \<Rightarrow> Some x | _ \<Rightarrow> None)\<rparr>"

definition ClustersKind :: "('l api_cell, 'l m_cluster list) cell_kind" where
  "ClustersKind = \<lparr>into_cell = ClustersCell, from_cell = (\<lambda>c. case c of ClustersCell x \<Rightarrow> Some x | _ \<Rightarrow> None)\<rparr>"

definition SetsKind :: "('l api_cell, 'l m_set list) cell_kind" where
  "SetsKind = \<lparr>into_cell = SetsCell, from_cell = (\<lambda>c. case c of SetsCell x \<Rightarrow> Some x | _ \<Rightarrow> None)\<rparr>"

lemma kinds_ok [simp]:
  "kind_ok StringKind"
  "kind_ok LocalRefKind"
  "kind_ok LibraryKind"
  "kind_ok ScrapeConfigsKind"
  "kind_ok BackupKind"
  "kind_ok RemoteWriteKind"
  "kind_ok ThanosKind"
  "kind_ok StorageKind"
  "kind_ok SpecKind"
  "kind_ok StatusKind"
  "kind_ok ClusterKind"
  "kind_ok ClusterListKind"
  "kind_ok SetSpecKind"
  "kind_ok SetStatusKind"
  "kind_ok MemberKind"
  "kind_ok SetKind"
  "kind_ok SetListKind"
  "kind_ok RemoteWritesKind"
  "kind_ok ConditionsKind"
  "kind_ok MembersKind"
  "kind_ok PhaseCountKind"
  "kind_ok ClustersKind"
  "kind_ok SetsKind"
  by (simp_all add: kind_ok_def StringKind_def LocalRefKind_def LibraryKind_def ScrapeConfigsKind_def BackupKind_def RemoteWriteKind_def ThanosKind_def StorageKind_def SpecKind_def StatusKind_def ClusterKind_def ClusterListKind_def SetSpecKind_def SetStatusKind_def MemberKind_def SetKind_def SetListKind_def RemoteWritesKind_def ConditionsKind_def MembersKind_def PhaseCountKind_def ClustersKind_def SetsKind_def)

type_synonym 'l api_memory = "'l api_cell memory"

section \<open>Library types\<close>

record 'l library =
  ObjectMeta_DeepCopyInto :: "('l api_cell, 'l) copier"
  read_ObjectMeta :: "('l api_cell, 'l, object_meta) reader"
  ListMeta_DeepCopyInto :: "('l api_cell, 'l) copier"
  read_ListMeta :: "('l api_cell, 'l, list_meta) reader"
  LabelSelector_DeepCopyInto :: "('l api_cell, 'l) copier"
  read_LabelSelector :: "('l api_cell, 'l, label_selector) reader"
  SecretKeySelector_DeepCopyInto :: "('l api_cell, 'l) copier"
  read_SecretKeySelector :: "('l api_cell, 'l, secret_key_selector) reader"
  ResourceRequirements_DeepCopyInto :: "('l api_cell, 'l) copier"
  read_ResourceRequirements :: "('l api_cell, 'l, resource_requirements) reader"
  Condition_DeepCopyInto :: "('l api_cell, 'l) copier"
  read_Condition :: "('l api_cell, 'l, condition) reader"
  Quantity_DeepCopy :: "('l api_cell, 'l) copier"
  read_Quantity :: "('l api_cell, 'l, quantity) reader"
  Time_DeepCopy :: "('l api_cell, addr) copier"
  read_Time :: "('l api_cell, addr, timestamp) reader"

locale library_copies =
  fixes Lb :: "'l library"
  assumes object_meta_copied: "copied (read_ObjectMeta Lb) (ObjectMeta_DeepCopyInto Lb)"
    and list_meta_copied: "copied (read_ListMeta Lb) (ListMeta_DeepCopyInto Lb)"
    and label_selector_copied: "copied (read_LabelSelector Lb) (LabelSelector_DeepCopyInto Lb)"
    and secret_key_selector_copied: "copied (read_SecretKeySelector Lb) (SecretKeySelector_DeepCopyInto Lb)"
    and resources_copied: "copied (read_ResourceRequirements Lb) (ResourceRequirements_DeepCopyInto Lb)"
    and condition_copied: "copied (read_Condition Lb) (Condition_DeepCopyInto Lb)"
    and quantity_copied: "copied (read_Quantity Lb) (Quantity_DeepCopy Lb)"
    and time_copied: "copied (read_Time Lb) (Time_DeepCopy Lb)"

text \<open>The elements of a slice that may be nil.\<close>

definition elements :: "'v list option \<Rightarrow> 'v list" where
  "elements xs = (case xs of None \<Rightarrow> [] | Some ys \<Rightarrow> ys)"

section \<open>AdditionalScrapeConfigs\<close>

definition AdditionalScrapeConfigs_DeepCopyInto :: "'l library \<Rightarrow> ('l api_cell, m_scrape_configs) copier" where
  "AdditionalScrapeConfigs_DeepCopyInto Lb x m =
     do { (r, m) \<leftarrow> copy_pointer LibraryKind (SecretKeySelector_DeepCopyInto Lb) (masc_SecretRef x) m;
          Some (x\<lparr>masc_SecretRef := r\<rparr>, m) }"

definition AdditionalScrapeConfigs_DeepCopy :: "'l library \<Rightarrow> ('l api_cell, addr option) copier" where
  "AdditionalScrapeConfigs_DeepCopy Lb = copy_pointer ScrapeConfigsKind (AdditionalScrapeConfigs_DeepCopyInto Lb)"

definition read_AdditionalScrapeConfigs :: "'l library \<Rightarrow> ('l api_cell, m_scrape_configs, additional_scrape_configs) reader" where
  "read_AdditionalScrapeConfigs Lb m x =
     do { (r, A) \<leftarrow> read_pointer LibraryKind (read_SecretKeySelector Lb) m (masc_SecretRef x);
          Some (\<lparr>asc_Inline = masc_Inline x, asc_SecretRef = r\<rparr>, A) }"

section \<open>S3BackupSpec, RemoteWriteSpec, ThanosSpec, StorageSpec\<close>

definition S3BackupSpec_DeepCopyInto :: "('l api_cell, m_backup_spec) copier" where
  "S3BackupSpec_DeepCopyInto x m =
     do { (r, m) \<leftarrow> copy_pointer LocalRefKind copy_flat (mbk_CredentialsSecretRef x) m;
          Some (x\<lparr>mbk_CredentialsSecretRef := r\<rparr>, m) }"

definition S3BackupSpec_DeepCopy :: "('l api_cell, addr option) copier" where
  "S3BackupSpec_DeepCopy = copy_pointer BackupKind S3BackupSpec_DeepCopyInto"

definition read_S3BackupSpec :: "('l api_cell, m_backup_spec, s3_backup_spec) reader" where
  "read_S3BackupSpec m x =
     do { (r, A) \<leftarrow> read_pointer LocalRefKind read_flat m (mbk_CredentialsSecretRef x);
          Some (\<lparr>bk_Enabled = mbk_Enabled x, bk_Bucket = mbk_Bucket x, bk_Region = mbk_Region x,
                 bk_Endpoint = mbk_Endpoint x, bk_Prefix = mbk_Prefix x, bk_Schedule = mbk_Schedule x,
                 bk_CredentialsSecretRef = r\<rparr>, A) }"

definition RemoteWriteSpec_DeepCopyInto :: "('l api_cell, m_remote_write) copier" where
  "RemoteWriteSpec_DeepCopyInto x m =
     do { (b, m) \<leftarrow> copy_pointer LocalRefKind copy_flat (mrw_BasicAuthSecretRef x) m;
          (t, m) \<leftarrow> copy_pointer LocalRefKind copy_flat (mrw_BearerTokenSecretRef x) m;
          Some (x\<lparr>mrw_BasicAuthSecretRef := b, mrw_BearerTokenSecretRef := t\<rparr>, m) }"

definition RemoteWriteSpec_DeepCopy :: "('l api_cell, addr option) copier" where
  "RemoteWriteSpec_DeepCopy = copy_pointer RemoteWriteKind RemoteWriteSpec_DeepCopyInto"

definition read_RemoteWriteSpec :: "('l api_cell, m_remote_write, remote_write_spec) reader" where
  "read_RemoteWriteSpec m x =
     do { (b, A) \<leftarrow> read_pointer LocalRefKind read_flat m (mrw_BasicAuthSecretRef x);
          (t, B) \<leftarrow> read_pointer LocalRefKind read_flat m (mrw_BearerTokenSecretRef x);
          Some (\<lparr>rw_URL = mrw_URL x, rw_Name = mrw_Name x, rw_BasicAuthSecretRef = b,
                 rw_BearerTokenSecretRef = t\<rparr>, A \<union> B) }"

definition ThanosSpec_DeepCopyInto :: "('l api_cell, m_thanos_spec) copier" where
  "ThanosSpec_DeepCopyInto x m =
     do { (r, m) \<leftarrow> copy_pointer LocalRefKind copy_flat (mth_ObjectStorageConfigSecretRef x) m;
          Some (x\<lparr>mth_ObjectStorageConfigSecretRef := r\<rparr>, m) }"

definition ThanosSpec_DeepCopy :: "('l api_cell, addr option) copier" where
  "ThanosSpec_DeepCopy = copy_pointer ThanosKind ThanosSpec_DeepCopyInto"

definition read_ThanosSpec :: "('l api_cell, m_thanos_spec, thanos_spec) reader" where
  "read_ThanosSpec m x =
     do { (r, A) \<leftarrow> read_pointer LocalRefKind read_flat m (mth_ObjectStorageConfigSecretRef x);
          Some (\<lparr>th_Enabled = mth_Enabled x, th_Image = mth_Image x, th_ObjectStorageConfigSecretRef = r\<rparr>, A) }"

definition StorageSpec_DeepCopyInto :: "'l library \<Rightarrow> ('l api_cell, 'l m_storage_spec) copier" where
  "StorageSpec_DeepCopyInto Lb x m =
     do { (c, m) \<leftarrow> copy_pointer StringKind copy_flat (mst_StorageClassName x) m;
          (q, m) \<leftarrow> Quantity_DeepCopy Lb (mst_Size x) m;
          Some (x\<lparr>mst_StorageClassName := c, mst_Size := q\<rparr>, m) }"

definition StorageSpec_DeepCopy :: "'l library \<Rightarrow> ('l api_cell, addr option) copier" where
  "StorageSpec_DeepCopy Lb = copy_pointer StorageKind (StorageSpec_DeepCopyInto Lb)"

definition read_StorageSpec :: "'l library \<Rightarrow> ('l api_cell, 'l m_storage_spec, storage_spec) reader" where
  "read_StorageSpec Lb m x =
     do { (c, A) \<leftarrow> read_pointer StringKind read_flat m (mst_StorageClassName x);
          (q, B) \<leftarrow> read_Quantity Lb m (mst_Size x);
          Some (\<lparr>st_StorageClassName = c, st_Size = q\<rparr>, A \<union> B) }"

section \<open>PrometheusCluster\<close>

definition PrometheusClusterSpec_DeepCopyInto :: "'l library \<Rightarrow> ('l api_cell, 'l m_cluster_spec) copier" where
  "PrometheusClusterSpec_DeepCopyInto Lb x m =
     do { (st, m) \<leftarrow> StorageSpec_DeepCopyInto Lb (msp_Storage x) m;
          (rs, m) \<leftarrow> ResourceRequirements_DeepCopyInto Lb (msp_Resources x) m;
          (bk, m) \<leftarrow> S3BackupSpec_DeepCopyInto (msp_Backup x) m;
          (rw, m) \<leftarrow> copy_pointer RemoteWritesKind (copy_all RemoteWriteSpec_DeepCopyInto) (msp_RemoteWrite x) m;
          (th, m) \<leftarrow> ThanosSpec_DeepCopyInto (msp_Thanos x) m;
          (sc, m) \<leftarrow> copy_pointer ScrapeConfigsKind (AdditionalScrapeConfigs_DeepCopyInto Lb)
                     (msp_AdditionalScrapeConfigs x) m;
          Some (x\<lparr>msp_Storage := st, msp_Resources := rs, msp_Backup := bk, msp_RemoteWrite := rw,
                  msp_Thanos := th, msp_AdditionalScrapeConfigs := sc\<rparr>, m) }"

definition PrometheusClusterSpec_DeepCopy :: "'l library \<Rightarrow> ('l api_cell, addr option) copier" where
  "PrometheusClusterSpec_DeepCopy Lb = copy_pointer SpecKind (PrometheusClusterSpec_DeepCopyInto Lb)"

definition read_PrometheusClusterSpec :: "'l library \<Rightarrow> ('l api_cell, 'l m_cluster_spec, cluster_spec) reader" where
  "read_PrometheusClusterSpec Lb m x =
     do { (st, A) \<leftarrow> read_StorageSpec Lb m (msp_Storage x);
          (rs, B) \<leftarrow> read_ResourceRequirements Lb m (msp_Resources x);
          (bk, C) \<leftarrow> read_S3BackupSpec m (msp_Backup x);
          (rw, D) \<leftarrow> read_pointer RemoteWritesKind (read_all read_RemoteWriteSpec) m (msp_RemoteWrite x);
          (th, E) \<leftarrow> read_ThanosSpec m (msp_Thanos x);
          (sc, F) \<leftarrow> read_pointer ScrapeConfigsKind (read_AdditionalScrapeConfigs Lb) m (msp_AdditionalScrapeConfigs x);
          Some (\<lparr>sp_Replicas = msp_Replicas x, sp_Image = msp_Image x, sp_Retention = msp_Retention x,
                 sp_Storage = st, sp_Resources = rs, sp_Backup = bk, sp_RemoteWrite = elements rw,
                 sp_Thanos = th, sp_AdditionalScrapeConfigs = sc\<rparr>, A \<union> (B \<union> (C \<union> (D \<union> (E \<union> F))))) }"

definition PrometheusClusterStatus_DeepCopyInto :: "'l library \<Rightarrow> ('l api_cell, m_cluster_status) copier" where
  "PrometheusClusterStatus_DeepCopyInto Lb x m =
     do { (cs, m) \<leftarrow> copy_pointer ConditionsKind (copy_all (Condition_DeepCopyInto Lb)) (mcs_Conditions x) m;
          (lb, m) \<leftarrow> copy_through (Time_DeepCopy Lb) (mcs_LastBackupTime x) m;
          (lf, m) \<leftarrow> copy_through (Time_DeepCopy Lb) (mcs_LastFailoverTime x) m;
          Some (x\<lparr>mcs_Conditions := cs, mcs_LastBackupTime := lb, mcs_LastFailoverTime := lf\<rparr>, m) }"

definition PrometheusClusterStatus_DeepCopy :: "'l library \<Rightarrow> ('l api_cell, addr option) copier" where
  "PrometheusClusterStatus_DeepCopy Lb = copy_pointer StatusKind (PrometheusClusterStatus_DeepCopyInto Lb)"

definition read_PrometheusClusterStatus :: "'l library \<Rightarrow> ('l api_cell, m_cluster_status, cluster_status) reader" where
  "read_PrometheusClusterStatus Lb m x =
     do { (cs, A) \<leftarrow> read_pointer ConditionsKind (read_all (read_Condition Lb)) m (mcs_Conditions x);
          (lb, B) \<leftarrow> read_through (read_Time Lb) m (mcs_LastBackupTime x);
          (lf, C) \<leftarrow> read_through (read_Time Lb) m (mcs_LastFailoverTime x);
          Some (\<lparr>cs_Conditions = elements cs, cs_Phase = mcs_Phase x, cs_ReadyReplicas = mcs_ReadyReplicas x,
                 cs_LastBackupTime = lb, cs_LastFailoverTime = lf\<rparr>, A \<union> (B \<union> C)) }"

definition PrometheusCluster_DeepCopyInto :: "'l library \<Rightarrow> ('l api_cell, 'l m_cluster) copier" where
  "PrometheusCluster_DeepCopyInto Lb x m =
     do { (om, m) \<leftarrow> ObjectMeta_DeepCopyInto Lb (mpc_ObjectMeta x) m;
          (sp, m) \<leftarrow> PrometheusClusterSpec_DeepCopyInto Lb (mpc_Spec x) m;
          (st, m) \<leftarrow> PrometheusClusterStatus_DeepCopyInto Lb (mpc_Status x) m;
          Some (x\<lparr>mpc_ObjectMeta := om, mpc_Spec := sp, mpc_Status := st\<rparr>, m) }"

definition PrometheusCluster_DeepCopy :: "'l library \<Rightarrow> ('l api_cell, addr option) copier" where
  "PrometheusCluster_DeepCopy Lb = copy_pointer ClusterKind (PrometheusCluster_DeepCopyInto Lb)"

definition read_PrometheusCluster :: "'l library \<Rightarrow> ('l api_cell, 'l m_cluster, type_meta \<times> prometheus_cluster) reader" where
  "read_PrometheusCluster Lb m x =
     do { (om, A) \<leftarrow> read_ObjectMeta Lb m (mpc_ObjectMeta x);
          (sp, B) \<leftarrow> read_PrometheusClusterSpec Lb m (mpc_Spec x);
          (st, C) \<leftarrow> read_PrometheusClusterStatus Lb m (mpc_Status x);
          Some ((mpc_TypeMeta x, \<lparr>pc_Meta = om, pc_Spec = sp, pc_Status = st\<rparr>), A \<union> (B \<union> C)) }"

record cluster_list =
  pcl_TypeMeta :: type_meta
  pcl_ListMeta :: list_meta
  pcl_Items :: "(type_meta \<times> prometheus_cluster) list"

definition PrometheusClusterList_DeepCopyInto :: "'l library \<Rightarrow> ('l api_cell, 'l m_cluster_list) copier" where
  "PrometheusClusterList_DeepCopyInto Lb x m =
     do { (lm, m) \<leftarrow> ListMeta_DeepCopyInto Lb (mpl_ListMeta x) m;
          (xs, m) \<leftarrow> copy_pointer ClustersKind (copy_all (PrometheusCluster_DeepCopyInto Lb)) (mpl_Items x) m;
          Some (x\<lparr>mpl_ListMeta := lm, mpl_Items := xs\<rparr>, m) }"

definition PrometheusClusterList_DeepCopy :: "'l library \<Rightarrow> ('l api_cell, addr option) copier" where
  "PrometheusClusterList_DeepCopy Lb = copy_pointer ClusterListKind (PrometheusClusterList_DeepCopyInto Lb)"

definition read_PrometheusClusterList :: "'l library \<Rightarrow> ('l api_cell, 'l m_cluster_list, cluster_list) reader" where
  "read_PrometheusClusterList Lb m x =
     do { (lm, A) \<leftarrow> read_ListMeta Lb m (mpl_ListMeta x);
          (xs, B) \<leftarrow> read_pointer ClustersKind (read_all (read_PrometheusCluster Lb)) m (mpl_Items x);
          Some (\<lparr>pcl_TypeMeta = mpl_TypeMeta x, pcl_ListMeta = lm, pcl_Items = elements xs\<rparr>, A \<union> B) }"

section \<open>PrometheusClusterSet\<close>

definition PrometheusClusterSetSpec_DeepCopyInto :: "'l library \<Rightarrow> ('l api_cell, m_set_spec) copier" where
  "PrometheusClusterSetSpec_DeepCopyInto Lb x m =
     do { (cs, m) \<leftarrow> copy_pointer LibraryKind (LabelSelector_DeepCopyInto Lb) (mss_ClusterSelector x) m;
          (ns, m) \<leftarrow> copy_pointer LibraryKind (LabelSelector_DeepCopyInto Lb) (mss_NamespaceSelector x) m;
          (bt, m) \<leftarrow> copy_pointer BackupKind S3BackupSpec_DeepCopyInto (mss_BackupTemplate x) m;
          Some (x\<lparr>mss_ClusterSelector := cs, mss_NamespaceSelector := ns, mss_BackupTemplate := bt\<rparr>, m) }"

definition PrometheusClusterSetSpec_DeepCopy :: "'l library \<Rightarrow> ('l api_cell, addr option) copier" where
  "PrometheusClusterSetSpec_DeepCopy Lb = copy_pointer SetSpecKind (PrometheusClusterSetSpec_DeepCopyInto Lb)"

definition read_PrometheusClusterSetSpec :: "'l library \<Rightarrow> ('l api_cell, m_set_spec, cluster_set_spec) reader" where
  "read_PrometheusClusterSetSpec Lb m x =
     do { (cs, A) \<leftarrow> read_pointer LibraryKind (read_LabelSelector Lb) m (mss_ClusterSelector x);
          (ns, B) \<leftarrow> read_pointer LibraryKind (read_LabelSelector Lb) m (mss_NamespaceSelector x);
          (bt, C) \<leftarrow> read_pointer BackupKind read_S3BackupSpec m (mss_BackupTemplate x);
          Some (\<lparr>css_ClusterSelector = cs, css_NamespaceSelector = ns, css_BackupTemplate = bt\<rparr>, A \<union> (B \<union> C)) }"

definition SetMember_DeepCopyInto :: "('l api_cell, set_member) copier" where
  "SetMember_DeepCopyInto x m = Some (x, m)"

definition SetMember_DeepCopy :: "('l api_cell, addr option) copier" where
  "SetMember_DeepCopy = copy_pointer MemberKind SetMember_DeepCopyInto"

definition PrometheusClusterSetStatus_DeepCopyInto :: "'l library \<Rightarrow> ('l api_cell, m_set_status) copier" where
  "PrometheusClusterSetStatus_DeepCopyInto Lb x m =
     do { (cs, m) \<leftarrow> copy_pointer ConditionsKind (copy_all (Condition_DeepCopyInto Lb)) (mst_Conditions x) m;
          (ph, m) \<leftarrow> copy_pointer PhaseCountKind copy_flat (mst_PhaseCount x) m;
          (ms, m) \<leftarrow> copy_pointer MembersKind copy_flat (mst_Members x) m;
          Some (x\<lparr>mst_Conditions := cs, mst_PhaseCount := ph, mst_Members := ms\<rparr>, m) }"

definition PrometheusClusterSetStatus_DeepCopy :: "'l library \<Rightarrow> ('l api_cell, addr option) copier" where
  "PrometheusClusterSetStatus_DeepCopy Lb = copy_pointer SetStatusKind (PrometheusClusterSetStatus_DeepCopyInto Lb)"

definition read_PrometheusClusterSetStatus :: "'l library \<Rightarrow> ('l api_cell, m_set_status, cluster_set_status) reader" where
  "read_PrometheusClusterSetStatus Lb m x =
     do { (cs, A) \<leftarrow> read_pointer ConditionsKind (read_all (read_Condition Lb)) m (mst_Conditions x);
          (ph, B) \<leftarrow> read_pointer PhaseCountKind read_flat m (mst_PhaseCount x);
          (ms, C) \<leftarrow> read_pointer MembersKind read_flat m (mst_Members x);
          Some (\<lparr>cst_Conditions = elements cs, cst_MemberCount = mst_MemberCount x,
                 cst_PhaseCount = (case ph of None \<Rightarrow> Map.empty | Some f \<Rightarrow> f), cst_Members = elements ms\<rparr>,
                A \<union> (B \<union> C)) }"

definition PrometheusClusterSet_DeepCopyInto :: "'l library \<Rightarrow> ('l api_cell, 'l m_set) copier" where
  "PrometheusClusterSet_DeepCopyInto Lb x m =
     do { (om, m) \<leftarrow> ObjectMeta_DeepCopyInto Lb (mse_ObjectMeta x) m;
          (sp, m) \<leftarrow> PrometheusClusterSetSpec_DeepCopyInto Lb (mse_Spec x) m;
          (st, m) \<leftarrow> PrometheusClusterSetStatus_DeepCopyInto Lb (mse_Status x) m;
          Some (x\<lparr>mse_ObjectMeta := om, mse_Spec := sp, mse_Status := st\<rparr>, m) }"

definition PrometheusClusterSet_DeepCopy :: "'l library \<Rightarrow> ('l api_cell, addr option) copier" where
  "PrometheusClusterSet_DeepCopy Lb = copy_pointer SetKind (PrometheusClusterSet_DeepCopyInto Lb)"

definition read_PrometheusClusterSet :: "'l library \<Rightarrow> ('l api_cell, 'l m_set, type_meta \<times> prometheus_cluster_set) reader" where
  "read_PrometheusClusterSet Lb m x =
     do { (om, A) \<leftarrow> read_ObjectMeta Lb m (mse_ObjectMeta x);
          (sp, B) \<leftarrow> read_PrometheusClusterSetSpec Lb m (mse_Spec x);
          (st, C) \<leftarrow> read_PrometheusClusterSetStatus Lb m (mse_Status x);
          Some ((mse_TypeMeta x, \<lparr>set_Meta = om, set_Spec = sp, set_Status = st\<rparr>), A \<union> (B \<union> C)) }"

record cluster_set_list =
  psl_TypeMeta :: type_meta
  psl_ListMeta :: list_meta
  psl_Items :: "(type_meta \<times> prometheus_cluster_set) list"

definition PrometheusClusterSetList_DeepCopyInto :: "'l library \<Rightarrow> ('l api_cell, 'l m_set_list) copier" where
  "PrometheusClusterSetList_DeepCopyInto Lb x m =
     do { (lm, m) \<leftarrow> ListMeta_DeepCopyInto Lb (msl_ListMeta x) m;
          (xs, m) \<leftarrow> copy_pointer SetsKind (copy_all (PrometheusClusterSet_DeepCopyInto Lb)) (msl_Items x) m;
          Some (x\<lparr>msl_ListMeta := lm, msl_Items := xs\<rparr>, m) }"

definition PrometheusClusterSetList_DeepCopy :: "'l library \<Rightarrow> ('l api_cell, addr option) copier" where
  "PrometheusClusterSetList_DeepCopy Lb = copy_pointer SetListKind (PrometheusClusterSetList_DeepCopyInto Lb)"

definition read_PrometheusClusterSetList :: "'l library \<Rightarrow> ('l api_cell, 'l m_set_list, cluster_set_list) reader" where
  "read_PrometheusClusterSetList Lb m x =
     do { (lm, A) \<leftarrow> read_ListMeta Lb m (msl_ListMeta x);
          (xs, B) \<leftarrow> read_pointer SetsKind (read_all (read_PrometheusClusterSet Lb)) m (msl_Items x);
          Some (\<lparr>psl_TypeMeta = msl_TypeMeta x, psl_ListMeta = lm, psl_Items = elements xs\<rparr>, A \<union> B) }"

section \<open>DeepCopyObject\<close>

text \<open>
  A \<open>runtime.Object\<close>: a nil interface, or a non-nil pointer with its type. The method returns the
  nil interface for a nil receiver, not an interface that holds a nil pointer.
\<close>

datatype runtime_object =
    ClusterObject addr
  | ClusterListObject addr
  | ClusterSetObject addr
  | ClusterSetListObject addr

definition as_object :: "(addr \<Rightarrow> runtime_object) \<Rightarrow> (addr option \<times> 'c memory) option \<Rightarrow>
    (runtime_object option \<times> 'c memory) option" where
  "as_object obj res = do { (c, m) \<leftarrow> res; Some (case c of Some a \<Rightarrow> Some (obj a) | None \<Rightarrow> None, m) }"

definition PrometheusCluster_DeepCopyObject ::
    "'l library \<Rightarrow> addr option \<Rightarrow> 'l api_memory \<Rightarrow> (runtime_object option \<times> 'l api_memory) option" where
  "PrometheusCluster_DeepCopyObject Lb p m = as_object ClusterObject (PrometheusCluster_DeepCopy Lb p m)"

definition PrometheusClusterList_DeepCopyObject ::
    "'l library \<Rightarrow> addr option \<Rightarrow> 'l api_memory \<Rightarrow> (runtime_object option \<times> 'l api_memory) option" where
  "PrometheusClusterList_DeepCopyObject Lb p m = as_object ClusterListObject (PrometheusClusterList_DeepCopy Lb p m)"

definition PrometheusClusterSet_DeepCopyObject ::
    "'l library \<Rightarrow> addr option \<Rightarrow> 'l api_memory \<Rightarrow> (runtime_object option \<times> 'l api_memory) option" where
  "PrometheusClusterSet_DeepCopyObject Lb p m = as_object ClusterSetObject (PrometheusClusterSet_DeepCopy Lb p m)"

definition PrometheusClusterSetList_DeepCopyObject ::
    "'l library \<Rightarrow> addr option \<Rightarrow> 'l api_memory \<Rightarrow> (runtime_object option \<times> 'l api_memory) option" where
  "PrometheusClusterSetList_DeepCopyObject Lb p m = as_object ClusterSetListObject (PrometheusClusterSetList_DeepCopy Lb p m)"

lemma copied_object:
  assumes "copied rd copy" "kind_ok K" "wf_memory m" "read_pointer K rd m p = Some (v, A)"
  shows "\<exists>q m' B. as_object obj (copy_pointer K copy p m) = Some (map_option obj q, m') \<and> (q = None \<longleftrightarrow> p = None) \<and>
    wf_memory m' \<and> read_pointer K rd m' q = Some (v, B)"
proof -
  obtain q m' B where q: "copy_pointer K copy p m = Some (q, m')" "wf_memory m'" "read_pointer K rd m' q = Some (v, B)"
    using copied.copies [OF copied_pointer [OF assms(1,2)] assms(3,4)] by blast
  moreover have "q = None \<longleftrightarrow> p = None"
    using q(1) by (auto simp: copy_pointer_def bind_eq_Some_conv alloc_def split: option.splits)
  moreover have "as_object obj (copy_pointer K copy p m) = Some (map_option obj q, m')"
    using q(1) by (simp add: as_object_def map_option_case)
  ultimately show ?thesis by blast
qed

section \<open>Every copy is a deep copy\<close>

lemma copied_SetMember: "copied read_flat SetMember_DeepCopyInto"
  by unfold_locales (auto simp: read_flat_def SetMember_DeepCopyInto_def)

lemma copied_S3BackupSpec: "copied (read_S3BackupSpec) (S3BackupSpec_DeepCopyInto)"
  by (rule copied_struct [OF copied_pointer [OF copied_flat kinds_ok(2)],
        where get = "mbk_CredentialsSecretRef" and put = "\<lambda>x r. x\<lparr>mbk_CredentialsSecretRef := r\<rparr>"
        and mk = "\<lambda>x r. \<lparr>bk_Enabled = mbk_Enabled x, bk_Bucket = mbk_Bucket x, bk_Region = mbk_Region x,
          bk_Endpoint = mbk_Endpoint x, bk_Prefix = mbk_Prefix x, bk_Schedule = mbk_Schedule x, bk_CredentialsSecretRef = r\<rparr>"])
    (simp_all add: read_S3BackupSpec_def S3BackupSpec_DeepCopyInto_def read_pair_def copy_pair_def split_def)

lemma copied_ThanosSpec: "copied (read_ThanosSpec) (ThanosSpec_DeepCopyInto)"
  by (rule copied_struct [OF copied_pointer [OF copied_flat kinds_ok(2)],
        where get = "mth_ObjectStorageConfigSecretRef" and put = "\<lambda>x r. x\<lparr>mth_ObjectStorageConfigSecretRef := r\<rparr>"
        and mk = "\<lambda>x r. \<lparr>th_Enabled = mth_Enabled x, th_Image = mth_Image x, th_ObjectStorageConfigSecretRef = r\<rparr>"])
    (simp_all add: read_ThanosSpec_def ThanosSpec_DeepCopyInto_def read_pair_def copy_pair_def split_def)

lemma copied_RemoteWriteSpec: "copied (read_RemoteWriteSpec) (RemoteWriteSpec_DeepCopyInto)"
  by (rule copied_struct [OF copied_pair [OF copied_pointer [OF copied_flat kinds_ok(2)] copied_pointer [OF copied_flat kinds_ok(2)]],
        where get = "\<lambda>x. (mrw_BasicAuthSecretRef x, mrw_BearerTokenSecretRef x)" and put = "\<lambda>x (b, t). x\<lparr>mrw_BasicAuthSecretRef := b, mrw_BearerTokenSecretRef := t\<rparr>"
        and mk = "\<lambda>x (b, t). \<lparr>rw_URL = mrw_URL x, rw_Name = mrw_Name x, rw_BasicAuthSecretRef = b, rw_BearerTokenSecretRef = t\<rparr>"])
    (simp_all add: read_RemoteWriteSpec_def RemoteWriteSpec_DeepCopyInto_def read_pair_def copy_pair_def split_def)

interpretation backup_copy: copied read_S3BackupSpec S3BackupSpec_DeepCopyInto
  by (rule copied_S3BackupSpec)

interpretation thanos_copy: copied read_ThanosSpec ThanosSpec_DeepCopyInto
  by (rule copied_ThanosSpec)

interpretation remote_write_copy: copied read_RemoteWriteSpec RemoteWriteSpec_DeepCopyInto
  by (rule copied_RemoteWriteSpec)

interpretation member_copy: copied read_flat SetMember_DeepCopyInto
  by (rule copied_SetMember)

context library_copies
begin

lemma copied_AdditionalScrapeConfigs: "copied (read_AdditionalScrapeConfigs Lb) (AdditionalScrapeConfigs_DeepCopyInto Lb)"
  by (rule copied_struct [OF copied_pointer [OF secret_key_selector_copied kinds_ok(3)],
        where get = "masc_SecretRef" and put = "\<lambda>x r. x\<lparr>masc_SecretRef := r\<rparr>"
        and mk = "\<lambda>x r. \<lparr>asc_Inline = masc_Inline x, asc_SecretRef = r\<rparr>"])
    (simp_all add: read_AdditionalScrapeConfigs_def AdditionalScrapeConfigs_DeepCopyInto_def read_pair_def copy_pair_def split_def)

lemma copied_StorageSpec: "copied (read_StorageSpec Lb) (StorageSpec_DeepCopyInto Lb)"
  by (rule copied_struct [OF copied_pair [OF copied_pointer [OF copied_flat kinds_ok(1)] quantity_copied],
        where get = "\<lambda>x. (mst_StorageClassName x, mst_Size x)" and put = "\<lambda>x (c, q). x\<lparr>mst_StorageClassName := c, mst_Size := q\<rparr>"
        and mk = "\<lambda>x (c, q). \<lparr>st_StorageClassName = c, st_Size = q\<rparr>"])
    (simp_all add: read_StorageSpec_def StorageSpec_DeepCopyInto_def read_pair_def copy_pair_def split_def)

lemma copied_PrometheusClusterSpec: "copied (read_PrometheusClusterSpec Lb) (PrometheusClusterSpec_DeepCopyInto Lb)"
  by (rule copied_struct [OF copied_pair [OF copied_StorageSpec
        copied_pair [OF resources_copied copied_pair [OF copied_S3BackupSpec copied_pair [OF copied_pointer [OF copied_all [OF copied_RemoteWriteSpec] kinds_ok(18)] copied_pair [OF copied_ThanosSpec copied_pointer [OF copied_AdditionalScrapeConfigs kinds_ok(4)]]]]]],
        where get = "\<lambda>x. (msp_Storage x, msp_Resources x, msp_Backup x, msp_RemoteWrite x, msp_Thanos x,
          msp_AdditionalScrapeConfigs x)" and put = "\<lambda>x (st, rs, bk, rw, th, sc). x\<lparr>msp_Storage := st, msp_Resources := rs, msp_Backup := bk,
          msp_RemoteWrite := rw, msp_Thanos := th, msp_AdditionalScrapeConfigs := sc\<rparr>"
        and mk = "\<lambda>x (st, rs, bk, rw, th, sc). \<lparr>sp_Replicas = msp_Replicas x, sp_Image = msp_Image x,
          sp_Retention = msp_Retention x, sp_Storage = st, sp_Resources = rs, sp_Backup = bk,
          sp_RemoteWrite = elements rw, sp_Thanos = th, sp_AdditionalScrapeConfigs = sc\<rparr>"])
    (simp_all add: read_PrometheusClusterSpec_def PrometheusClusterSpec_DeepCopyInto_def read_pair_def copy_pair_def split_def)

lemma copied_PrometheusClusterStatus: "copied (read_PrometheusClusterStatus Lb) (PrometheusClusterStatus_DeepCopyInto Lb)"
  by (rule copied_struct [OF copied_pair [OF copied_pointer [OF copied_all [OF condition_copied] kinds_ok(19)] copied_pair [OF copied_through [OF time_copied] copied_through [OF time_copied]]],
        where get = "\<lambda>x. (mcs_Conditions x, mcs_LastBackupTime x, mcs_LastFailoverTime x)" and put = "\<lambda>x (cs, lb, lf). x\<lparr>mcs_Conditions := cs, mcs_LastBackupTime := lb, mcs_LastFailoverTime := lf\<rparr>"
        and mk = "\<lambda>x (cs, lb, lf). \<lparr>cs_Conditions = elements cs, cs_Phase = mcs_Phase x,
          cs_ReadyReplicas = mcs_ReadyReplicas x, cs_LastBackupTime = lb, cs_LastFailoverTime = lf\<rparr>"])
    (simp_all add: read_PrometheusClusterStatus_def PrometheusClusterStatus_DeepCopyInto_def read_pair_def copy_pair_def split_def)

lemma copied_PrometheusCluster: "copied (read_PrometheusCluster Lb) (PrometheusCluster_DeepCopyInto Lb)"
  by (rule copied_struct [OF copied_pair [OF object_meta_copied copied_pair [OF copied_PrometheusClusterSpec copied_PrometheusClusterStatus]],
        where get = "\<lambda>x. (mpc_ObjectMeta x, mpc_Spec x, mpc_Status x)" and put = "\<lambda>x (om, sp, st). x\<lparr>mpc_ObjectMeta := om, mpc_Spec := sp, mpc_Status := st\<rparr>"
        and mk = "\<lambda>x (om, sp, st). (mpc_TypeMeta x, \<lparr>pc_Meta = om, pc_Spec = sp, pc_Status = st\<rparr>)"])
    (simp_all add: read_PrometheusCluster_def PrometheusCluster_DeepCopyInto_def read_pair_def copy_pair_def split_def)

lemma copied_PrometheusClusterList: "copied (read_PrometheusClusterList Lb) (PrometheusClusterList_DeepCopyInto Lb)"
  by (rule copied_struct [OF copied_pair [OF list_meta_copied copied_pointer [OF copied_all [OF copied_PrometheusCluster] kinds_ok(22)]],
        where get = "\<lambda>x. (mpl_ListMeta x, mpl_Items x)" and put = "\<lambda>x (lm, xs). x\<lparr>mpl_ListMeta := lm, mpl_Items := xs\<rparr>"
        and mk = "\<lambda>x (lm, xs). \<lparr>pcl_TypeMeta = mpl_TypeMeta x, pcl_ListMeta = lm, pcl_Items = elements xs\<rparr>"])
    (simp_all add: read_PrometheusClusterList_def PrometheusClusterList_DeepCopyInto_def read_pair_def copy_pair_def split_def)

lemma copied_PrometheusClusterSetSpec: "copied (read_PrometheusClusterSetSpec Lb) (PrometheusClusterSetSpec_DeepCopyInto Lb)"
  by (rule copied_struct [OF copied_pair [OF copied_pointer [OF label_selector_copied kinds_ok(3)] copied_pair [OF copied_pointer [OF label_selector_copied kinds_ok(3)] copied_pointer [OF copied_S3BackupSpec kinds_ok(5)]]],
        where get = "\<lambda>x. (mss_ClusterSelector x, mss_NamespaceSelector x, mss_BackupTemplate x)" and put = "\<lambda>x (cs, ns, bt). x\<lparr>mss_ClusterSelector := cs, mss_NamespaceSelector := ns, mss_BackupTemplate := bt\<rparr>"
        and mk = "\<lambda>x (cs, ns, bt). \<lparr>css_ClusterSelector = cs, css_NamespaceSelector = ns, css_BackupTemplate = bt\<rparr>"])
    (simp_all add: read_PrometheusClusterSetSpec_def PrometheusClusterSetSpec_DeepCopyInto_def read_pair_def copy_pair_def split_def)

lemma copied_PrometheusClusterSetStatus: "copied (read_PrometheusClusterSetStatus Lb) (PrometheusClusterSetStatus_DeepCopyInto Lb)"
  by (rule copied_struct [OF copied_pair [OF copied_pointer [OF copied_all [OF condition_copied] kinds_ok(19)] copied_pair [OF copied_pointer [OF copied_flat kinds_ok(21)] copied_pointer [OF copied_flat kinds_ok(20)]]],
        where get = "\<lambda>x. (mst_Conditions x, mst_PhaseCount x, mst_Members x)" and put = "\<lambda>x (cs, ph, ms). x\<lparr>mst_Conditions := cs, mst_PhaseCount := ph, mst_Members := ms\<rparr>"
        and mk = "\<lambda>x (cs, ph, ms). \<lparr>cst_Conditions = elements cs, cst_MemberCount = mst_MemberCount x,
          cst_PhaseCount = (case ph of None \<Rightarrow> Map.empty | Some f \<Rightarrow> f), cst_Members = elements ms\<rparr>"])
    (simp_all add: read_PrometheusClusterSetStatus_def PrometheusClusterSetStatus_DeepCopyInto_def read_pair_def copy_pair_def split_def)

lemma copied_PrometheusClusterSet: "copied (read_PrometheusClusterSet Lb) (PrometheusClusterSet_DeepCopyInto Lb)"
  by (rule copied_struct [OF copied_pair [OF object_meta_copied copied_pair [OF copied_PrometheusClusterSetSpec copied_PrometheusClusterSetStatus]],
        where get = "\<lambda>x. (mse_ObjectMeta x, mse_Spec x, mse_Status x)" and put = "\<lambda>x (om, sp, st). x\<lparr>mse_ObjectMeta := om, mse_Spec := sp, mse_Status := st\<rparr>"
        and mk = "\<lambda>x (om, sp, st). (mse_TypeMeta x, \<lparr>set_Meta = om, set_Spec = sp, set_Status = st\<rparr>)"])
    (simp_all add: read_PrometheusClusterSet_def PrometheusClusterSet_DeepCopyInto_def read_pair_def copy_pair_def split_def)

lemma copied_PrometheusClusterSetList: "copied (read_PrometheusClusterSetList Lb) (PrometheusClusterSetList_DeepCopyInto Lb)"
  by (rule copied_struct [OF copied_pair [OF list_meta_copied copied_pointer [OF copied_all [OF copied_PrometheusClusterSet] kinds_ok(23)]],
        where get = "\<lambda>x. (msl_ListMeta x, msl_Items x)" and put = "\<lambda>x (lm, xs). x\<lparr>msl_ListMeta := lm, msl_Items := xs\<rparr>"
        and mk = "\<lambda>x (lm, xs). \<lparr>psl_TypeMeta = msl_TypeMeta x, psl_ListMeta = lm, psl_Items = elements xs\<rparr>"])
    (simp_all add: read_PrometheusClusterSetList_def PrometheusClusterSetList_DeepCopyInto_def read_pair_def copy_pair_def split_def)

end

section \<open>Properties\<close>

text \<open>
  C10: a deep copy of a cluster is independent of the original. \<open>DeepCopy\<close> of a pointer to a cluster
  returns a pointer to a cluster of the same value; the two share no memory, neither in the struct
  nor behind any pointer, slice or map of the specification, the status and the metadata, so
  a write through the one, as a reconciler does to the object it read, is never seen through the
  other, as in the informer cache it was read from.
\<close>

theorem cluster_DeepCopy_is_independent:
  assumes "library_copies Lb" and "wf_memory m"
    and "read_pointer ClusterKind (read_PrometheusCluster Lb) m p = Some (v, A)"
  shows "\<exists>q m'. PrometheusCluster_DeepCopy Lb p m = Some (q, m') \<and>
    independent_copy (read_pointer ClusterKind (read_PrometheusCluster Lb)) p m q m'"
  unfolding PrometheusCluster_DeepCopy_def
proof (rule copied_independent [where rd = "read_pointer ClusterKind (read_PrometheusCluster Lb)"])
  show "copied (read_pointer ClusterKind (read_PrometheusCluster Lb)) (copy_pointer ClusterKind (PrometheusCluster_DeepCopyInto Lb))"
    by (intro copied_pointer library_copies.copied_PrometheusCluster assms(1) kinds_ok)
qed (use assms in auto)

text \<open>
  C28: the copies of objects are well typed. For each of the four kinds of object, \<open>DeepCopyObject\<close> of
  a well-typed pointer never gets stuck; it returns the nil interface exactly for a nil pointer,
  and otherwise an object of the same kind whose memory is well typed again, with every pointer
  behind it leading to a cell of its type, and stands for the same value.
\<close>

theorem DeepCopyObject_well_typed:
  assumes "library_copies Lb" and "wf_memory m"
  shows "(read_pointer ClusterKind (read_PrometheusCluster Lb) m p = Some (pc, A) \<longrightarrow>
       (\<exists>q m' B. PrometheusCluster_DeepCopyObject Lb p m = Some (map_option ClusterObject q, m') \<and> (q = None \<longleftrightarrow> p = None) \<and>
          wf_memory m' \<and> read_pointer ClusterKind (read_PrometheusCluster Lb) m' q = Some (pc, B))) \<and>
    (read_pointer ClusterListKind (read_PrometheusClusterList Lb) m p = Some (pcs, A) \<longrightarrow>
       (\<exists>q m' B. PrometheusClusterList_DeepCopyObject Lb p m = Some (map_option ClusterListObject q, m') \<and> (q = None \<longleftrightarrow> p = None) \<and>
          wf_memory m' \<and> read_pointer ClusterListKind (read_PrometheusClusterList Lb) m' q = Some (pcs, B))) \<and>
    (read_pointer SetKind (read_PrometheusClusterSet Lb) m p = Some (cset, A) \<longrightarrow>
       (\<exists>q m' B. PrometheusClusterSet_DeepCopyObject Lb p m = Some (map_option ClusterSetObject q, m') \<and> (q = None \<longleftrightarrow> p = None) \<and>
          wf_memory m' \<and> read_pointer SetKind (read_PrometheusClusterSet Lb) m' q = Some (cset, B))) \<and>
    (read_pointer SetListKind (read_PrometheusClusterSetList Lb) m p = Some (csets, A) \<longrightarrow>
       (\<exists>q m' B. PrometheusClusterSetList_DeepCopyObject Lb p m = Some (map_option ClusterSetListObject q, m') \<and> (q = None \<longleftrightarrow> p = None) \<and>
          wf_memory m' \<and> read_pointer SetListKind (read_PrometheusClusterSetList Lb) m' q = Some (csets, B)))"
proof -
  note copied = library_copies.copied_PrometheusCluster [OF assms(1)] library_copies.copied_PrometheusClusterList [OF assms(1)]
    library_copies.copied_PrometheusClusterSet [OF assms(1)] library_copies.copied_PrometheusClusterSetList [OF assms(1)]
  note object = copied_object [OF copied(1) kinds_ok(11) assms(2)] copied_object [OF copied(2) kinds_ok(12) assms(2)]
    copied_object [OF copied(3) kinds_ok(16) assms(2)] copied_object [OF copied(4) kinds_ok(17) assms(2)]
  show ?thesis
    unfolding PrometheusCluster_DeepCopyObject_def PrometheusCluster_DeepCopy_def PrometheusClusterList_DeepCopyObject_def
      PrometheusClusterList_DeepCopy_def PrometheusClusterSet_DeepCopyObject_def PrometheusClusterSet_DeepCopy_def
      PrometheusClusterSetList_DeepCopyObject_def PrometheusClusterSetList_DeepCopy_def
    by (intro conjI impI object)
qed

end
