(* ===== verification/DeepCopyWitnesses.thy ===== *)
theory DeepCopyWitnesses
  imports DeepCopy
begin

text \<open>
  A reference version of the library types in memory: object metadata keep their labels in a map
  of its own, times are behind pointers, the other types hold no pointers. The contract of their
  copies holds, and the properties of the deep copies are applied to a cluster with credentials,
  remote writes and a backup time.
\<close>

record lib_value =
  lv_Meta :: object_meta
  lv_Labels :: "addr option"
  lv_Map :: "string \<rightharpoonup> string"
  lv_ListMeta :: list_meta
  lv_Selector :: label_selector
  lv_KeySelector :: secret_key_selector
  lv_Resources :: resource_requirements
  lv_Condition :: condition
  lv_Quantity :: quantity
  lv_Time :: timestamp

definition zero_lib :: lib_value where
  "zero_lib = \<lparr>lv_Meta = zero_meta, lv_Labels = None, lv_Map = Map.empty,
     lv_ListMeta = \<lparr>lm_ResourceVersion = [], lm_Continue = []\<rparr>,
     lv_Selector = \<lparr>MatchLabels = Map.empty, MatchExpressions = []\<rparr>,
     lv_KeySelector = \<lparr>sks_Name = [], sks_Key = []\<rparr>, lv_Resources = zero_resources,
     lv_Condition = \<lparr>cond_Type = [], cond_Status = [], cond_Reason = [], cond_Message = []\<rparr>,
     lv_Quantity = Quantity ''0'', lv_Time = 0\<rparr>"

definition read_by :: "('x \<Rightarrow> 'v) \<Rightarrow> ('c, 'x, 'v) reader" where
  "read_by f m x = Some (f x, {})"

lemma copied_by: "copied (read_by f) copy_flat"
  by unfold_locales (auto simp: read_by_def copy_flat_def)

definition copy_meta :: "(lib_value api_cell, lib_value) copier" where
  "copy_meta x m = do { (l, m) \<leftarrow> copy_pointer LibraryKind copy_flat (lv_Labels x) m; Some (x\<lparr>lv_Labels := l\<rparr>, m) }"

definition read_meta :: "(lib_value api_cell, lib_value, object_meta) reader" where
  "read_meta m x = do { (l, A) \<leftarrow> read_pointer LibraryKind (read_by lv_Map) m (lv_Labels x);
     Some ((lv_Meta x)\<lparr>Labels := (case l of None \<Rightarrow> Map.empty | Some f \<Rightarrow> f)\<rparr>, A) }"

definition copy_time :: "(lib_value api_cell, addr) copier" where
  "copy_time a m = do { x \<leftarrow> load LibraryKind a m; Some (alloc LibraryKind x m) }"

definition read_time :: "(lib_value api_cell, addr, timestamp) reader" where
  "read_time m a = do { x \<leftarrow> load LibraryKind a m; Some (lv_Time x, {a}) }"

lemma copied_meta: "copied read_meta copy_meta"
  by (rule copied_struct [OF copied_pointer [OF copied_by kinds_ok(3)], where get = lv_Labels
        and put = "\<lambda>x l. x\<lparr>lv_Labels := l\<rparr>"
        and mk = "\<lambda>x l. (lv_Meta x)\<lparr>Labels := (case l of None \<Rightarrow> Map.empty | Some f \<Rightarrow> f)\<rparr>"])
    (simp_all add: read_meta_def copy_meta_def)

lemma copied_time: "copied read_time copy_time"
proof
  fix m a v A
  assume "read_time m a = Some (v, A)"
  then show "A \<subseteq> dom (cells m)" by (auto simp: read_time_def load_def bind_eq_Some_conv)
next
  fix m m' :: "lib_value api_memory" and a v A
  assume "read_time m a = Some (v, A)" "\<And>a. a \<in> A \<Longrightarrow> cells m' a = cells m a"
  then show "read_time m' a = Some (v, A)" by (auto simp: read_time_def load_def bind_eq_Some_conv)
next
  fix m a v A
  assume wf: "wf_memory m" and "read_time m a = Some (v, A)"
  then obtain x where x: "load LibraryKind a m = Some x" "v = lv_Time x" by (auto simp: read_time_def bind_eq_Some_conv)
  obtain b m' where al: "alloc LibraryKind x m = (b, m')" by fastforce
  from alloc_props [OF wf kinds_ok(3) al] x al
  show "\<exists>y m' B. copy_time a m = Some (y, m') \<and> wf_memory m' \<and> extends m m' \<and> read_time m' y = Some (v, B) \<and>
      B \<inter> dom (cells m) = {}"
    by (simp add: copy_time_def read_time_def)
qed

definition ref_library :: "lib_value library" where
  "ref_library =
     \<lparr>ObjectMeta_DeepCopyInto = copy_meta, read_ObjectMeta = read_meta,
      ListMeta_DeepCopyInto = copy_flat, read_ListMeta = read_by lv_ListMeta,
      LabelSelector_DeepCopyInto = copy_flat, read_LabelSelector = read_by lv_Selector,
      SecretKeySelector_DeepCopyInto = copy_flat, read_SecretKeySelector = read_by lv_KeySelector,
      ResourceRequirements_DeepCopyInto = copy_flat, read_ResourceRequirements = read_by lv_Resources,
      Condition_DeepCopyInto = copy_flat, read_Condition = read_by lv_Condition,
      Quantity_DeepCopy = copy_flat, read_Quantity = read_by lv_Quantity,
      Time_DeepCopy = copy_time, read_Time = read_time\<rparr>"

interpretation ref_copies: library_copies ref_library
  by (rule library_copies.intro) (simp_all add: ref_library_def copied_by copied_meta copied_time)

interpretation cluster_copy: copied "read_PrometheusCluster ref_library" "PrometheusCluster_DeepCopyInto ref_library"
  by (rule ref_copies.copied_PrometheusCluster)

section \<open>A cluster in memory\<close>

text \<open>
  Cell 0 is the cluster, 1 its labels, 2 and 3 Secret references, 4 the remote writes, 5 the time
  of the last backup.
\<close>

definition demo_layout :: "lib_value m_cluster" where
  "demo_layout =
     \<lparr>mpc_TypeMeta = \<lparr>tm_Kind = ''PrometheusCluster'', tm_APIVersion = ''observability.merlionos.org/v1''\<rparr>,
      mpc_ObjectMeta = zero_lib\<lparr>lv_Meta := zero_meta\<lparr>Name := ''demo''\<rparr>, lv_Labels := Some 1\<rparr>,
      mpc_Spec = \<lparr>msp_Replicas = 2, msp_Image = [], msp_Retention = ''15d'',
        msp_Storage = \<lparr>mst_StorageClassName = None, mst_Size = zero_lib\<rparr>, msp_Resources = zero_lib,
        msp_Backup = \<lparr>mbk_Enabled = True, mbk_Bucket = ''b'', mbk_Region = [], mbk_Endpoint = [], mbk_Prefix = [],
          mbk_Schedule = [], mbk_CredentialsSecretRef = Some 2\<rparr>,
        msp_RemoteWrite = Some 4,
        msp_Thanos = \<lparr>mth_Enabled = False, mth_Image = [], mth_ObjectStorageConfigSecretRef = None\<rparr>,
        msp_AdditionalScrapeConfigs = None\<rparr>,
      mpc_Status = \<lparr>mcs_Conditions = None, mcs_Phase = [], mcs_ReadyReplicas = 0, mcs_LastBackupTime = Some 5,
        mcs_LastFailoverTime = None\<rparr>\<rparr>"

definition demo_memory :: "lib_value api_memory" where
  "demo_memory =
     \<lparr>cells = [0 \<mapsto> ClusterCell demo_layout, 1 \<mapsto> LibraryCell (zero_lib\<lparr>lv_Map := [''team'' \<mapsto> ''obs'']\<rparr>),
        2 \<mapsto> LocalRefCell \<lparr>lor_Name = ''s3-credentials''\<rparr>, 3 \<mapsto> LocalRefCell \<lparr>lor_Name = ''token''\<rparr>,
        4 \<mapsto> RemoteWritesCell [\<lparr>mrw_URL = ''http://r'', mrw_Name = [], mrw_BasicAuthSecretRef = None,
               mrw_BearerTokenSecretRef = Some 3\<rparr>],
        5 \<mapsto> LibraryCell (zero_lib\<lparr>lv_Time := 42\<rparr>)],
      limit = 6\<rparr>"

lemma demo_memory_wf: "wf_memory demo_memory"
  by (simp add: wf_memory_def demo_memory_def)

lemmas reading = read_PrometheusCluster_def read_PrometheusClusterSpec_def read_PrometheusClusterStatus_def
  read_S3BackupSpec_def read_RemoteWriteSpec_def read_ThanosSpec_def read_StorageSpec_def
  read_pointer_def read_through_def read_by_def read_flat_def read_meta_def read_time_def load_def
  ref_library_def ClusterKind_def LibraryKind_def LocalRefKind_def RemoteWritesKind_def

lemma demo_reads:
  "\<exists>v. read_pointer ClusterKind (read_PrometheusCluster ref_library) demo_memory (Some 0) = Some (Some v, {0, 1, 2, 3, 4, 5})"
  by (simp add: demo_memory_def demo_layout_def reading) auto

theorem cluster_DeepCopy_is_independent_witness:
  "\<exists>q m'. PrometheusCluster_DeepCopy ref_library (Some 0) demo_memory = Some (q, m') \<and>
     independent_copy (read_pointer ClusterKind (read_PrometheusCluster ref_library)) (Some 0) demo_memory q m'"
  using cluster_DeepCopy_is_independent [OF ref_copies.library_copies_axioms demo_memory_wf] demo_reads by blast

theorem DeepCopyObject_well_typed_witness:
  "\<exists>q m' v B. PrometheusCluster_DeepCopyObject ref_library (Some 0) demo_memory = Some (Some (ClusterObject q), m') \<and>
     read_pointer ClusterKind (read_PrometheusCluster ref_library) m' (Some q) = Some (Some v, B)"
proof -
  obtain v where v: "read_pointer ClusterKind (read_PrometheusCluster ref_library) demo_memory (Some 0) =
      Some (Some v, {0, 1, 2, 3, 4, 5})"
    using demo_reads by blast
  obtain q m' B where "PrometheusCluster_DeepCopyObject ref_library (Some 0) demo_memory = Some (map_option ClusterObject q, m')"
    "q \<noteq> None" "read_pointer ClusterKind (read_PrometheusCluster ref_library) m' q = Some (Some v, B)"
    using DeepCopyObject_well_typed [OF ref_copies.library_copies_axioms demo_memory_wf, THEN conjunct1, rule_format, OF v] by auto
  then show ?thesis by auto
qed

end
