(* ===== verification/Startup.thy ===== *)
theory Startup
  imports Operator
begin

text \<open>
  \<open>main\<close> of the operator (\<open>cmd/main.go\<close>) from the parsed command line to the end of the process:
  the options of the metrics server, the webhook server, the manager and the S3 client, the
  registration of every component with the manager in the order of the code, and the exit with
  status 1 at the first step that fails. \<open>Operator.assemble\<close> says how the components are wired.

  controller-runtime, the AWS SDK, client-go and the database driver are parameters: a call of
  theirs is an action that the platform performs, with an error or none. A \<open>tls.Config\<close> is what the
  operator sets of it.
\<close>

section \<open>The command line\<close>

record options = flags +
  metricsAddr :: string
  probeAddr :: string
  enableLeaderElection :: bool
  secureMetrics :: bool
  webhookCertPath :: string
  webhookCertName :: string
  webhookCertKey :: string
  metricsCertPath :: string
  metricsCertName :: string
  metricsCertKey :: string
  enableHTTP2 :: bool
  apiAddr :: string
  apiTLSCertDir :: string
  s3Endpoint :: string
  s3Region :: string

text \<open>The defaults of the flags, with the DSN of the environment.\<close>

definition default_options :: "string \<Rightarrow> options" where
  "default_options dsn =
     \<lparr>enableHA = True, enableBackup = True, enableWebhook = False, enableAPI = True,
      apiNamespace = ''default'', auditDSN = dsn, auditRetentionDays = 0,
      metricsAddr = ''0'', probeAddr = '':8081'', enableLeaderElection = False, secureMetrics = True,
      webhookCertPath = [], webhookCertName = ''tls.crt'', webhookCertKey = ''tls.key'',
      metricsCertPath = [], metricsCertName = ''tls.crt'', metricsCertKey = ''tls.key'',
      enableHTTP2 = False, apiAddr = '':8080'', apiTLSCertDir = [], s3Endpoint = [],
      s3Region = ''us-east-1''\<rparr>"

section \<open>Options of the servers\<close>

record tls_config =
  NextProtos :: "string list"

definition disableHTTP2 :: "tls_config \<Rightarrow> tls_config" where
  "disableHTTP2 c = c\<lparr>NextProtos := [''http/1.1'']\<rparr>"

definition tlsOpts :: "options \<Rightarrow> (tls_config \<Rightarrow> tls_config) list" where
  "tlsOpts o1 = (if \<not> enableHTTP2 o1 then [disableHTTP2] else [])"

text \<open>A server applies its TLS options to its configuration, one after the other.\<close>

definition applied :: "(tls_config \<Rightarrow> tls_config) list \<Rightarrow> tls_config \<Rightarrow> tls_config" where
  "applied opts c = fold (\<lambda>f. f) opts c"

record webhook_options =
  wo_TLSOpts :: "(tls_config \<Rightarrow> tls_config) list"
  wo_CertDir :: string
  wo_CertName :: string
  wo_KeyName :: string

definition webhookServerOptions :: "options \<Rightarrow> webhook_options" where
  "webhookServerOptions o1 =
     (let opts = \<lparr>wo_TLSOpts = tlsOpts o1, wo_CertDir = [], wo_CertName = [], wo_KeyName = []\<rparr>
      in if length (webhookCertPath o1) > 0
         then opts\<lparr>wo_CertDir := webhookCertPath o1, wo_CertName := webhookCertName o1,
                   wo_KeyName := webhookCertKey o1\<rparr>
         else opts)"

datatype filter_provider = WithAuthenticationAndAuthorization

record metrics_options =
  mo_BindAddress :: string
  mo_SecureServing :: bool
  mo_TLSOpts :: "(tls_config \<Rightarrow> tls_config) list"
  mo_FilterProvider :: "filter_provider option"
  mo_CertDir :: string
  mo_CertName :: string
  mo_KeyName :: string

definition metricsServerOptions :: "options \<Rightarrow> metrics_options" where
  "metricsServerOptions o1 =
     (let opts = \<lparr>mo_BindAddress = metricsAddr o1, mo_SecureServing = secureMetrics o1,
                  mo_TLSOpts = tlsOpts o1, mo_FilterProvider = None,
                  mo_CertDir = [], mo_CertName = [], mo_KeyName = []\<rparr>;
          opts = (if secureMetrics o1
                  then opts\<lparr>mo_FilterProvider := Some WithAuthenticationAndAuthorization\<rparr> else opts)
      in if length (metricsCertPath o1) > 0
         then opts\<lparr>mo_CertDir := metricsCertPath o1, mo_CertName := metricsCertName o1,
                   mo_KeyName := metricsCertKey o1\<rparr>
         else opts)"

record manager_options =
  mg_Metrics :: metrics_options
  mg_WebhookServer :: webhook_options
  mg_HealthProbeBindAddress :: string
  mg_LeaderElection :: bool
  mg_LeaderElectionID :: string

definition managerOptions :: "options \<Rightarrow> manager_options" where
  "managerOptions o1 =
     \<lparr>mg_Metrics = metricsServerOptions o1, mg_WebhookServer = webhookServerOptions o1,
      mg_HealthProbeBindAddress = probeAddr o1, mg_LeaderElection = enableLeaderElection o1,
      mg_LeaderElectionID = ''ab0397ab.merlionos.org''\<rparr>"

record s3_options =
  s3_Region :: string
  s3_BaseEndpoint :: "string option"
  s3_UsePathStyle :: bool

definition s3Raw :: "options \<Rightarrow> s3_options" where
  "s3Raw o1 =
     (let opts = \<lparr>s3_Region = s3Region o1, s3_BaseEndpoint = None, s3_UsePathStyle = False\<rparr>
      in if s3Endpoint o1 \<noteq> []
         then opts\<lparr>s3_BaseEndpoint := Some (s3Endpoint o1), s3_UsePathStyle := True\<rparr> else opts)"

section \<open>Controllers\<close>

datatype kind =
    PrometheusClusterKind
  | PrometheusClusterSetKind
  | StatefulSetKind
  | ServiceKind
  | ConfigMapKind

text \<open>What is given to the controller builder; a watch is mapped to requests by \<open>enqueueAllSets\<close>.\<close>

record controller_config =
  cc_For :: kind
  cc_Owns :: "kind list"
  cc_Watches :: "kind list"
  cc_Named :: string

definition cluster_SetupWithManager :: controller_config where
  "cluster_SetupWithManager =
     \<lparr>cc_For = PrometheusClusterKind, cc_Owns = [StatefulSetKind, ServiceKind, ConfigMapKind],
      cc_Watches = [], cc_Named = ''prometheuscluster''\<rparr>"

definition set_SetupWithManager :: controller_config where
  "set_SetupWithManager =
     \<lparr>cc_For = PrometheusClusterSetKind, cc_Owns = [], cc_Watches = [PrometheusClusterKind],
      cc_Named = ''prometheusclusterset''\<rparr>"

section \<open>Setting up\<close>

datatype runnable =
    HACheckerStart
  | SchedulerStart s3_options
  | PrunerStart int64
  | ApiListenAndServe string string

datatype setup_action =
    GetConfig
  | NewManager manager_options
  | CompleteController controller_config
  | LoadDefaultConfig string
  | NewPodExecutor
  | CompleteWebhook kind
  | AddRunnable runnable
  | AddHealthzCheck string
  | AddReadyzCheck string

definition webhook_SetupWithManager :: setup_action where
  "webhook_SetupWithManager = CompleteWebhook PrometheusClusterKind"

definition webhook_Register :: setup_action where
  "webhook_Register = webhook_SetupWithManager"

record 'w platform =
  Perform :: "setup_action \<Rightarrow> 'w \<Rightarrow> unit result \<times> 'w"
  StartManager :: "'w assembly \<Rightarrow> 'w \<Rightarrow> unit result \<times> 'w"

datatype process_exit = Returned | Exited string go_error

text \<open>\<open>if err := op(); err != nil { setupLog.Error(err, msg); os.Exit(1) }\<close>\<close>

definition or_exit ::
    "string \<Rightarrow> ('w \<Rightarrow> 'a result \<times> 'w) \<Rightarrow> ('a \<Rightarrow> 'w \<Rightarrow> process_exit \<times> 'w) \<Rightarrow> 'w \<Rightarrow> process_exit \<times> 'w" where
  "or_exit msg f k w =
     (case f w of (Inl e, w) \<Rightarrow> (Exited msg e, w) | (Inr a, w) \<Rightarrow> k a w)"

definition setupManager :: "'w platform \<Rightarrow> options \<Rightarrow> ('w \<Rightarrow> process_exit \<times> 'w) \<Rightarrow> 'w \<Rightarrow> process_exit \<times> 'w" where
  "setupManager P o1 k =
     or_exit ''unable to get kubeconfig'' (Perform P GetConfig) (\<lambda>_.
     or_exit ''Failed to start manager'' (Perform P (NewManager (managerOptions o1))) (\<lambda>_. k))"

definition setupChecker :: "'w platform \<Rightarrow> options \<Rightarrow> ('w \<Rightarrow> process_exit \<times> 'w) \<Rightarrow> 'w \<Rightarrow> process_exit \<times> 'w" where
  "setupChecker P o1 k =
     (if enableHA o1
      then or_exit ''Failed to add HA checker'' (Perform P (AddRunnable HACheckerStart)) (\<lambda>_. k)
      else k)"

definition setupBackup :: "'w platform \<Rightarrow> options \<Rightarrow> ('w \<Rightarrow> process_exit \<times> 'w) \<Rightarrow> 'w \<Rightarrow> process_exit \<times> 'w" where
  "setupBackup P o1 k =
     (if enableBackup o1
      then or_exit ''Failed to load AWS config'' (Perform P (LoadDefaultConfig (s3Region o1))) (\<lambda>_.
           or_exit ''Failed to build pod exec'er'' (Perform P NewPodExecutor) (\<lambda>_.
           or_exit ''Failed to add backup scheduler''
             (Perform P (AddRunnable (SchedulerStart (s3Raw o1)))) (\<lambda>_. k)))
      else k)"

definition setupWebhook :: "'w platform \<Rightarrow> options \<Rightarrow> ('w \<Rightarrow> process_exit \<times> 'w) \<Rightarrow> 'w \<Rightarrow> process_exit \<times> 'w" where
  "setupWebhook P o1 k =
     (if enableWebhook o1
      then or_exit ''Failed to register validating webhook''
             (Perform P webhook_Register) (\<lambda>_. k)
      else k)"

definition setupAudit :: "'w platform \<Rightarrow> 'w parts \<Rightarrow> options \<Rightarrow>
    ('w logger option \<Rightarrow> 'w \<Rightarrow> process_exit \<times> 'w) \<Rightarrow> 'w \<Rightarrow> process_exit \<times> 'w" where
  "setupAudit P p o1 k =
     (if auditDSN o1 \<noteq> []
      then or_exit ''Failed to open audit log'' (Open (pt_Connect p) (pt_EnsureSchema p)) (\<lambda>a.
           let a = a\<lparr>RetentionDays := auditRetentionDays o1\<rparr>
           in or_exit ''Failed to add audit pruner'' (Perform P (AddRunnable (PrunerStart (RetentionDays a)))) (\<lambda>_.
                k (Some a)))
      else k None)"

definition setupAPI :: "'w platform \<Rightarrow> options \<Rightarrow> ('w \<Rightarrow> process_exit \<times> 'w) \<Rightarrow> 'w \<Rightarrow> process_exit \<times> 'w" where
  "setupAPI P o1 k =
     (if enableAPI o1
      then or_exit ''Failed to add REST API server''
             (Perform P (AddRunnable (ApiListenAndServe (apiAddr o1) (apiTLSCertDir o1)))) (\<lambda>_. k)
      else k)"

definition setupProbes :: "'w platform \<Rightarrow> ('w \<Rightarrow> process_exit \<times> 'w) \<Rightarrow> 'w \<Rightarrow> process_exit \<times> 'w" where
  "setupProbes P k =
     or_exit ''Failed to set up health check'' (Perform P (AddHealthzCheck ''healthz'')) (\<lambda>_.
     or_exit ''Failed to set up ready check'' (Perform P (AddReadyzCheck ''readyz'')) (\<lambda>_. k))"

definition main :: "'w platform \<Rightarrow> 'w parts \<Rightarrow> options \<Rightarrow> 'w \<Rightarrow> process_exit \<times> 'w" where
  "main P p o1 =
     setupManager P o1 (
     or_exit ''Failed to create controller'' (Perform P (CompleteController set_SetupWithManager)) (\<lambda>_.
     setupChecker P o1 (
     setupBackup P o1 (
     or_exit ''Failed to create controller'' (Perform P (CompleteController cluster_SetupWithManager)) (\<lambda>_.
     setupWebhook P o1 (
     setupAudit P p o1 (\<lambda>auditLogger.
     setupAPI P o1 (
     setupProbes P (
     or_exit ''Failed to run manager'' (StartManager P (assemble (flags.truncate o1) p auditLogger)) (\<lambda>_ w.
       (Returned, w)))))))))))"

section \<open>The plan of the set-up\<close>

text \<open>
  What \<open>main\<close> has to do, as data: the steps in their order, each with the message it exits with
  when the step fails. A step is a call of the platform or the opening of the audit log.
\<close>

datatype setup_step = Do setup_action | OpenAudit

definition startup_plan :: "options \<Rightarrow> (string \<times> setup_step) list" where
  "startup_plan o1 =
     [(''unable to get kubeconfig'', Do GetConfig),
      (''Failed to start manager'', Do (NewManager (managerOptions o1))),
      (''Failed to create controller'', Do (CompleteController set_SetupWithManager))] @
     (if enableHA o1 then [(''Failed to add HA checker'', Do (AddRunnable HACheckerStart))] else []) @
     (if enableBackup o1
      then [(''Failed to load AWS config'', Do (LoadDefaultConfig (s3Region o1))),
            (''Failed to build pod exec'er'', Do NewPodExecutor),
            (''Failed to add backup scheduler'', Do (AddRunnable (SchedulerStart (s3Raw o1))))] else []) @
     [(''Failed to create controller'', Do (CompleteController cluster_SetupWithManager))] @
     (if enableWebhook o1
      then [(''Failed to register validating webhook'', Do (CompleteWebhook PrometheusClusterKind))] else []) @
     (if auditDSN o1 \<noteq> []
      then [(''Failed to open audit log'', OpenAudit),
            (''Failed to add audit pruner'', Do (AddRunnable (PrunerStart (auditRetentionDays o1))))] else []) @
     (if enableAPI o1
      then [(''Failed to add REST API server'', Do (AddRunnable (ApiListenAndServe (apiAddr o1) (apiTLSCertDir o1))))]
      else []) @
     [(''Failed to set up health check'', Do (AddHealthzCheck ''healthz'')),
      (''Failed to set up ready check'', Do (AddReadyzCheck ''readyz''))]"

text \<open>
  The log of a start: every call with its result. A step that succeeds leaves the events
  \<open>succeeded\<close>, one that fails with the error \<open>e\<close> leaves events that \<open>failed\<close> describes.
\<close>

datatype setup_event =
    Performed setup_action "unit result"
  | Connected "go_error option"
  | SchemaEnsured "unit result"
  | ManagerStarted "unit result"

definition succeeded :: "setup_step \<Rightarrow> setup_event list" where
  "succeeded st =
     (case st of
        Do a \<Rightarrow> [Performed a (Inr ())]
      | OpenAudit \<Rightarrow> [Connected None, SchemaEnsured (Inr ())])"

definition failed :: "setup_step \<Rightarrow> go_error \<Rightarrow> setup_event list \<Rightarrow> bool" where
  "failed st e evs \<longleftrightarrow>
     (case st of
        Do a \<Rightarrow> evs = [Performed a (Inl e)]
      | OpenAudit \<Rightarrow>
          (\<exists>e'. e = Wrapped ''connect postgres'' e' \<and> evs = [Connected (Some e')]) \<or>
          (\<exists>e'. e = Wrapped ''ensure schema'' e' \<and> evs = [Connected None, SchemaEnsured (Inl e')]))"

text \<open>
  The law of the platform is that log: a call of an action, the start of the manager and the two
  calls of the database driver append themselves with their results.
\<close>

locale setup_platform =
  fixes P :: "'w platform" and p :: "'w parts" and log :: "'w \<Rightarrow> setup_event list"
  assumes perform_log: "Perform P a w = (r, w') \<Longrightarrow> log w' = log w @ [Performed a r]"
    and start_log: "StartManager P A w = (u, w') \<Longrightarrow> log w' = log w @ [ManagerStarted u]"
    and connect_log: "pt_Connect p w = (d, w') \<Longrightarrow>
      log w' = log w @ [Connected (case d of Inl e \<Rightarrow> Some e | Inr _ \<Rightarrow> None)]"
    and ensure_log: "pt_EnsureSchema p c w = (v, w') \<Longrightarrow> log w' = log w @ [SchemaEnsured v]"
begin

text \<open>
  \<open>runs_step st f\<close>: \<open>f\<close> is the step \<open>st\<close>, as far as the log tells. \<open>follows o rest k\<close>: \<open>k\<close> takes the
  steps \<open>rest\<close> up to the first that fails; it starts the manager when all of them succeeded, on the
  assembly of the options, and only then.
\<close>

definition runs_step :: "setup_step \<Rightarrow> ('w \<Rightarrow> 'a result \<times> 'w) \<Rightarrow> bool" where
  "runs_step st f \<longleftrightarrow>
     (\<forall>w r w'. f w = (r, w') \<longrightarrow>
        (case r of
           Inl e \<Rightarrow> \<exists>evs. failed st e evs \<and> log w' = log w @ evs
         | Inr _ \<Rightarrow> log w' = log w @ succeeded st))"

lemma runs_perform: "runs_step (Do a) (Perform P a)"
  unfolding runs_step_def by (auto simp: failed_def succeeded_def dest!: perform_log split: sum.splits)

lemma runs_open: "runs_step OpenAudit (Open (pt_Connect p) (pt_EnsureSchema p))"
  unfolding runs_step_def Open_def
  by (auto simp: attempt_def failed_def succeeded_def split: prod.splits sum.splits dest!: connect_log ensure_log)

definition manager_runs :: "options \<Rightarrow> process_exit \<Rightarrow> unit result \<Rightarrow> 'w \<Rightarrow> bool" where
  "manager_runs o1 out r w' \<longleftrightarrow>
     (\<exists>l w1. StartManager P (assemble (flags.truncate o1) p l) w1 = (r, w') \<and>
        (l = None \<longleftrightarrow> auditDSN o1 = []) \<and> (\<forall>lg. l = Some lg \<longrightarrow> RetentionDays lg = auditRetentionDays o1) \<and>
        out = (case r of Inl e \<Rightarrow> Exited ''Failed to run manager'' e | Inr _ \<Rightarrow> Returned))"

definition follows :: "options \<Rightarrow> (string \<times> setup_step) list \<Rightarrow> ('w \<Rightarrow> process_exit \<times> 'w) \<Rightarrow> bool" where
  "follows o1 rest k \<longleftrightarrow>
     (\<forall>w out w'. k w = (out, w') \<longrightarrow>
        (\<exists>r. log w' = log w @ concat (map (succeeded \<circ> snd) rest) @ [ManagerStarted r] \<and> manager_runs o1 out r w') \<or>
        (\<exists>before msg st after e evs. rest = before @ (msg, st) # after \<and> failed st e evs \<and>
           log w' = log w @ concat (map (succeeded \<circ> snd) before) @ evs \<and> out = Exited msg e))"

lemma follows_step:
  assumes "\<And>a. follows o1 rest (k a)" and "runs_step st f"
  shows "follows o1 ((msg, st) # rest) (or_exit msg f k)"
  unfolding follows_def
proof (intro allI impI)
  fix w out w'
  assume run: "or_exit msg f k w = (out, w')"
  obtain r w1 where step: "f w = (r, w1)" by fastforce
  note logged = assms(2) [unfolded runs_step_def, rule_format, OF step]
  let ?plan = "(msg, st) # rest"
  show "(\<exists>r. log w' = log w @ concat (map (succeeded \<circ> snd) ?plan) @ [ManagerStarted r] \<and> manager_runs o1 out r w') \<or>
    (\<exists>before m st' after e evs. ?plan = before @ (m, st') # after \<and> failed st' e evs \<and>
       log w' = log w @ concat (map (succeeded \<circ> snd) before) @ evs \<and> out = Exited m e)"
    (is "?started \<or> (\<exists>before m st' after e evs. ?stopped before m st' after e evs)")
  proof (cases r)
    case (Inl e)
    with logged obtain evs where "failed st e evs" "log w1 = log w @ evs" by auto
    then have "?stopped [] msg st rest e evs" using run step Inl by (simp add: or_exit_def)
    then show ?thesis by blast
  next
    case (Inr a)
    then have "k a w1 = (out, w')" and w1: "log w1 = log w @ succeeded st" using run step logged by (simp_all add: or_exit_def)
    then consider r where "log w' = log w1 @ concat (map (succeeded \<circ> snd) rest) @ [ManagerStarted r]" "manager_runs o1 out r w'"
      | before m st' after e evs where "rest = before @ (m, st') # after" "failed st' e evs"
        "log w' = log w1 @ concat (map (succeeded \<circ> snd) before) @ evs" "out = Exited m e"
      using assms(1) [of a] unfolding follows_def by blast
    then show ?thesis
    proof cases
      case (1 r)
      then show ?thesis using w1 by auto
    next
      case (2 before m st' after e evs)
      then have "?stopped ((msg, st) # before) m st' after e evs" using w1 by simp
      then show ?thesis by blast
    qed
  qed
qed

lemmas follows_perform = follows_step [OF _ runs_perform]

lemma follows_start:
  assumes "l = None \<longleftrightarrow> auditDSN o1 = []" and "\<And>lg. l = Some lg \<Longrightarrow> RetentionDays lg = auditRetentionDays o1"
  shows "follows o1 [] (or_exit ''Failed to run manager'' (StartManager P (assemble (flags.truncate o1) p l))
    (\<lambda>_ w. (Returned, w)))"
  unfolding follows_def
proof (intro allI impI disjI1)
  fix w out w'
  assume run: "or_exit ''Failed to run manager'' (StartManager P (assemble (flags.truncate o1) p l)) (\<lambda>_ w. (Returned, w)) w
    = (out, w')"
  obtain r w1 where started: "StartManager P (assemble (flags.truncate o1) p l) w = (r, w1)" by fastforce
  then have "w' = w1" "out = (case r of Inl e \<Rightarrow> Exited ''Failed to run manager'' e | Inr _ \<Rightarrow> Returned)"
    using run by (auto simp: or_exit_def split: sum.splits)
  then show "\<exists>r. log w' = log w @ concat (map (succeeded \<circ> snd) []) @ [ManagerStarted r] \<and> manager_runs o1 out r w'"
    using started start_log [OF started] assms unfolding manager_runs_def by auto
qed

lemma follows_checker:
  "follows o1 rest k \<Longrightarrow>
   follows o1 ((if enableHA o1 then [(''Failed to add HA checker'', Do (AddRunnable HACheckerStart))] else []) @ rest)
     (setupChecker P o1 k)"
  by (simp add: setupChecker_def follows_perform)

lemma follows_backup:
  "follows o1 rest k \<Longrightarrow>
   follows o1
     ((if enableBackup o1
       then [(''Failed to load AWS config'', Do (LoadDefaultConfig (s3Region o1))),
             (''Failed to build pod exec'er'', Do NewPodExecutor),
             (''Failed to add backup scheduler'', Do (AddRunnable (SchedulerStart (s3Raw o1))))] else []) @ rest)
     (setupBackup P o1 k)"
  by (simp add: setupBackup_def follows_perform)

lemma follows_webhook:
  "follows o1 rest k \<Longrightarrow>
   follows o1
     ((if enableWebhook o1
       then [(''Failed to register validating webhook'', Do (CompleteWebhook PrometheusClusterKind))] else []) @ rest)
     (setupWebhook P o1 k)"
  by (simp add: setupWebhook_def webhook_Register_def webhook_SetupWithManager_def follows_perform)

lemma follows_audit:
  assumes "\<And>l. (l = None \<longleftrightarrow> auditDSN o1 = []) \<Longrightarrow>
      (\<And>lg. l = Some lg \<Longrightarrow> RetentionDays lg = auditRetentionDays o1) \<Longrightarrow> follows o1 rest (k l)"
  shows "follows o1
     ((if auditDSN o1 \<noteq> []
       then [(''Failed to open audit log'', OpenAudit),
             (''Failed to add audit pruner'', Do (AddRunnable (PrunerStart (auditRetentionDays o1))))] else []) @ rest)
     (setupAudit P p o1 k)"
proof (cases "auditDSN o1 = []")
  case True
  then show ?thesis using assms [of None] by (simp add: setupAudit_def)
next
  case False
  have "follows o1 ((''Failed to add audit pruner'', Do (AddRunnable (PrunerStart (auditRetentionDays o1)))) # rest)
    (or_exit ''Failed to add audit pruner'' (Perform P (AddRunnable (PrunerStart (auditRetentionDays o1))))
      (\<lambda>_. k (Some (a\<lparr>RetentionDays := auditRetentionDays o1\<rparr>))))" for a :: "'w logger"
    by (rule follows_perform, rule assms) (use False in auto)
  then show ?thesis using False by (simp add: setupAudit_def Let_def follows_step runs_open)
qed

lemma follows_api:
  "follows o1 rest k \<Longrightarrow>
   follows o1
     ((if enableAPI o1
       then [(''Failed to add REST API server'', Do (AddRunnable (ApiListenAndServe (apiAddr o1) (apiTLSCertDir o1))))]
       else []) @ rest)
     (setupAPI P o1 k)"
  by (simp add: setupAPI_def follows_perform)

lemma follows_probes:
  "follows o1 rest k \<Longrightarrow>
   follows o1
     ([(''Failed to set up health check'', Do (AddHealthzCheck ''healthz'')),
       (''Failed to set up ready check'', Do (AddReadyzCheck ''readyz''))] @ rest)
     (setupProbes P k)"
  by (simp add: setupProbes_def follows_perform)

lemma follows_manager:
  "follows o1 rest k \<Longrightarrow>
   follows o1
     ((''unable to get kubeconfig'', Do GetConfig) # (''Failed to start manager'', Do (NewManager (managerOptions o1))) # rest)
     (setupManager P o1 k)"
  by (simp add: setupManager_def follows_perform)

lemma main_follows: "follows o1 (startup_plan o1) (main P p o1)"
  unfolding startup_plan_def main_def append_Cons append_Nil
  by (intro follows_manager follows_perform follows_checker follows_backup follows_webhook follows_audit follows_api
      follows_probes [unfolded append_Cons append_Nil, where rest = "[]"] follows_start)

end

section \<open>Properties\<close>

text \<open>
  C7: the process comes up as the flags say or not at all. \<open>main\<close> takes the steps of its plan in
  order: the enabled components, each once, and no other. Either every step succeeded, and the
  manager was then started on the components wired for these flags, its result deciding between
  a return and an exit; or the steps before some step succeeded, that step failed, nothing was
  called after it, and the process exits with the message of that step and its error. The steps
  of the audit log are connecting, the schema and the pruner, in this order.
\<close>

theorem main_follows_plan:
  assumes "setup_platform P p log" and "main P p o1 w = (out, w')"
  shows "(\<exists>l w1 r. log w' = log w @ concat (map (succeeded \<circ> snd) (startup_plan o1)) @ [ManagerStarted r] \<and>
         StartManager P (assemble (flags.truncate o1) p l) w1 = (r, w') \<and>
         (l = None \<longleftrightarrow> auditDSN o1 = []) \<and> (\<forall>lg. l = Some lg \<longrightarrow> RetentionDays lg = auditRetentionDays o1) \<and>
         out = (case r of Inl e \<Rightarrow> Exited ''Failed to run manager'' e | Inr _ \<Rightarrow> Returned)) \<or>
    (\<exists>before msg st after e evs. startup_plan o1 = before @ (msg, st) # after \<and> failed st e evs \<and>
       log w' = log w @ concat (map (succeeded \<circ> snd) before) @ evs \<and> out = Exited msg e)"
  using setup_platform.main_follows [OF assms(1), of o1, unfolded setup_platform.follows_def [OF assms(1)],
      rule_format, OF assms(2)]
  unfolding setup_platform.manager_runs_def [OF assms(1)] by blast

lemma plan_manager: "Do (NewManager mo) \<in> snd ` set (startup_plan o1) \<longleftrightarrow> mo = managerOptions o1"
  by (auto simp: startup_plan_def)

lemma performed_steps:
  "Performed a r \<in> set (succeeded st) \<Longrightarrow> st = Do a" "failed st e evs \<Longrightarrow> Performed a r \<in> set evs \<Longrightarrow> st = Do a"
  by (auto simp: succeeded_def failed_def split: setup_step.splits)

lemma returned_iff:
  "Returned = (case r of Inl e \<Rightarrow> Exited msg e | Inr _ \<Rightarrow> Returned) \<longleftrightarrow> r = Inr ()"
  by (cases r) auto

lemma main_performs:
  assumes "setup_platform P p log" and "main P p o1 w = (out, w')" and "log w' = log w @ evs"
  shows "Performed a r \<in> set evs \<Longrightarrow> Do a \<in> snd ` set (startup_plan o1)"
    and "out = Returned \<Longrightarrow> evs = concat (map (succeeded \<circ> snd) (startup_plan o1)) @ [ManagerStarted (Inr ())]"
proof -
  note plan = setup_platform.main_follows [OF assms(1), of o1, unfolded setup_platform.follows_def [OF assms(1)],
      rule_format, OF assms(2)]
  show "Do a \<in> snd ` set (startup_plan o1)" if performed: "Performed a r \<in> set evs"
    using plan
  proof (elim disjE exE conjE)
    fix r' assume "log w' = log w @ concat (map (succeeded \<circ> snd) (startup_plan o1)) @ [ManagerStarted r']"
    then show ?thesis using performed assms(3) by (force dest: performed_steps)
  next
    fix before msg st after e evs'
    assume "startup_plan o1 = before @ (msg, st) # after" "failed st e evs'"
      "log w' = log w @ concat (map (succeeded \<circ> snd) before) @ evs'"
    then show ?thesis using performed assms(3) by (force dest: performed_steps)
  qed
  show "evs = concat (map (succeeded \<circ> snd) (startup_plan o1)) @ [ManagerStarted (Inr ())]" if "out = Returned"
    using plan that assms(3) by (auto simp: setup_platform.manager_runs_def [OF assms(1)] returned_iff)
qed

text \<open>
  The servers are hardened by default. Every manager that \<open>main\<close> creates serves metrics and
  webhooks without HTTP/2 unless the flag asks for it, whatever the servers' own configuration
  is, protects secure metrics by authentication and authorization, and uses the given certificates
  wherever a directory is given.
\<close>

theorem main_hardens_servers:
  assumes "setup_platform P p log" and "main P p o1 w = (out, w')" and "log w' = log w @ evs"
    and "Performed (NewManager mo) r \<in> set evs"
  shows "NextProtos (applied (mo_TLSOpts (mg_Metrics mo)) c) = (if enableHTTP2 o1 then NextProtos c else [''http/1.1'']) \<and>
    NextProtos (applied (wo_TLSOpts (mg_WebhookServer mo)) c) = (if enableHTTP2 o1 then NextProtos c else [''http/1.1'']) \<and>
    mo_SecureServing (mg_Metrics mo) = secureMetrics o1 \<and>
    mo_FilterProvider (mg_Metrics mo) = (if secureMetrics o1 then Some WithAuthenticationAndAuthorization else None) \<and>
    mo_CertDir (mg_Metrics mo) = metricsCertPath o1 \<and> wo_CertDir (mg_WebhookServer mo) = webhookCertPath o1 \<and>
    (metricsCertPath o1 \<noteq> [] \<longrightarrow>
       (mo_CertName (mg_Metrics mo), mo_KeyName (mg_Metrics mo)) = (metricsCertName o1, metricsCertKey o1)) \<and>
    (webhookCertPath o1 \<noteq> [] \<longrightarrow>
       (wo_CertName (mg_WebhookServer mo), wo_KeyName (mg_WebhookServer mo)) = (webhookCertName o1, webhookCertKey o1))"
proof -
  have "mo = managerOptions o1"
    using main_performs(1) [OF assms(1-4)] by (simp add: plan_manager)
  then show ?thesis
    by (simp add: managerOptions_def metricsServerOptions_def webhookServerOptions_def tlsOpts_def disableHTTP2_def
        applied_def Let_def)
qed

text \<open>
  The webhook can be served without a certificate. The help text of \<open>--enable-webhook\<close> says that
  it requires \<open>--webhook-cert-path\<close>, but nothing checks it: without the path \<open>main\<close> registers the
  webhook and starts the manager all the same, with a webhook server that is told no certificate.
\<close>

theorem webhook_starts_without_certificate:
  assumes "setup_platform P p log" and "main P p o1 w = (Returned, w')" and "log w' = log w @ evs"
    and "enableWebhook o1" and "webhookCertPath o1 = []"
  shows "Performed (CompleteWebhook PrometheusClusterKind) (Inr ()) \<in> set evs \<and> ManagerStarted (Inr ()) \<in> set evs \<and>
    (\<exists>mo. Performed (NewManager mo) (Inr ()) \<in> set evs \<and> wo_CertDir (mg_WebhookServer mo) = [] \<and>
       wo_CertName (mg_WebhookServer mo) = [] \<and> wo_KeyName (mg_WebhookServer mo) = [])"
proof -
  have evs: "evs = concat (map (succeeded \<circ> snd) (startup_plan o1)) @ [ManagerStarted (Inr ())]"
    using main_performs(2) [OF assms(1-3)] by simp
  have "Performed (NewManager (managerOptions o1)) (Inr ()) \<in> set evs"
    "Performed (CompleteWebhook PrometheusClusterKind) (Inr ()) \<in> set evs"
    by (simp_all add: evs startup_plan_def succeeded_def assms(4))
  moreover have "mg_WebhookServer (managerOptions o1) =
      \<lparr>wo_TLSOpts = tlsOpts o1, wo_CertDir = [], wo_CertName = [], wo_KeyName = []\<rparr>"
    by (simp add: managerOptions_def webhookServerOptions_def assms(5) Let_def)
  ultimately show ?thesis using evs by (metis append_is_Nil_conv in_set_conv_decomp webhook_options.select_convs(2-4))
qed

end
