(* ===== verification/Ownership.thy ===== *)
theory Ownership
  imports ClusterGuarantees Startup
begin

text \<open>
  Ownership: the controllers that \<open>main\<close> registers are told which objects they own, and a reconcile
  pass marks the objects it writes with a controller reference. Together they decide which changes
  bring a cluster back to its reconciler, and whose objects a pass may overwrite.

  Which requests a change makes is controller-runtime's work, a parameter with its documented laws:
  a change of an object of the controller's own kind is a request for it, and a change of an owned
  kind is a request for the object's controller, if that is of the controller's kind.
\<close>

section \<open>Requests\<close>

primrec kind_name :: "kind \<Rightarrow> string" where
  "kind_name PrometheusClusterKind = ''PrometheusCluster''"
| "kind_name PrometheusClusterSetKind = ''PrometheusClusterSet''"
| "kind_name StatefulSetKind = ''StatefulSet''"
| "kind_name ServiceKind = ''Service''"
| "kind_name ConfigMapKind = ''ConfigMap''"

definition controlled_by :: "kind \<Rightarrow> string \<Rightarrow> object_meta \<Rightarrow> bool" where
  "controlled_by kd n m \<longleftrightarrow>
     (\<exists>r \<in> set (OwnerReferences m). or_Controller r \<and> or_Kind r = kind_name kd \<and> or_Name r = n)"

locale controller_requests =
  fixes requests :: "controller_config \<Rightarrow> kind \<Rightarrow> object_meta \<Rightarrow> namespaced_name set"
  assumes own_kind: "meta_key m \<in> requests cfg (cc_For cfg) m"
    and owned_kind: "kd \<in> set (cc_Owns cfg) \<Longrightarrow> controlled_by (cc_For cfg) n m \<Longrightarrow>
      (Namespace m, n) \<in> requests cfg kd m"
    and only_controller: "kd \<in> set (cc_Owns cfg) \<Longrightarrow> kd \<noteq> cc_For cfg \<Longrightarrow> kd \<notin> set (cc_Watches cfg) \<Longrightarrow>
      k \<in> requests cfg kd m \<Longrightarrow> controlled_by (cc_For cfg) (snd k) m \<and> fst k = Namespace m"
begin

lemma cluster_requests:
  assumes "kd \<in> {StatefulSetKind, ServiceKind, ConfigMapKind}"
  shows "k \<in> requests cluster_SetupWithManager kd m \<longleftrightarrow>
    controlled_by PrometheusClusterKind (snd k) m \<and> fst k = Namespace m"
  using assms owned_kind [of kd cluster_SetupWithManager "snd k" m] only_controller [of kd cluster_SetupWithManager k m]
  by (cases k) (auto simp: cluster_SetupWithManager_def)

end

section \<open>A pass and its owner references\<close>

locale owning_reconcile =
  cluster_reconcile R view admit L + controller_requests requests
  for R :: "'w cluster_reconciler" and view :: "'w \<Rightarrow> store" and admit :: "stateful_set \<Rightarrow> stateful_set"
    and L :: reconcile_lib and requests :: "controller_config \<Rightarrow> kind \<Rightarrow> object_meta \<Rightarrow> namespaced_name set" +
  assumes owner_set: "SetControllerReference L pc m = Inr m' \<Longrightarrow> controlled_by PrometheusClusterKind (Name (pc_Meta pc)) m'"
    and sts_create_meta: "Create (StatefulSets (Client R)) sts w = (Inr sts', w') \<Longrightarrow>
      OwnerReferences (sts_Meta sts') = OwnerReferences (sts_Meta sts)"
    and sts_update_meta: "Update (StatefulSets (Client R)) sts w = (Inr sts', w') \<Longrightarrow>
      OwnerReferences (sts_Meta sts') = OwnerReferences (sts_Meta sts)"
begin

lemma controlled_by_references:
  "OwnerReferences m = OwnerReferences m' \<Longrightarrow> controlled_by kd n m = controlled_by kd n m'"
  by (simp add: controlled_by_def)

lemma config_map_owned:
  assumes "reconcileConfigMap L R pc s = (Inr b, t)"
  shows "(\<exists>cm. v_ConfigMaps (view (ext t)) (Namespace (pc_Meta pc), configMapName pc) = Some cm \<and>
      controlled_by PrometheusClusterKind (Name (pc_Meta pc)) (cm_Meta cm)) \<and>
    (\<forall>cm. v_ConfigMaps (view (ext s)) (Namespace (pc_Meta pc), configMapName pc) = Some cm \<longrightarrow> controlled L pc (cm_Meta cm))"
proof -
  obtain op w where run: "CreateOrUpdateConfigMap (Client R) (new_config_map pc) (mutateConfigMap L pc) (ext s)
      = (Inr op, w)" and t: "t = s\<lparr>ext := w\<rparr>"
    using assms by (auto simp: reconcileConfigMap_def split: prod.splits sum.splits elim!: callE)
  from cm_stored [OF run] obtain old new v where new: "mutateConfigMap L pc old = Inr new"
    and old: "v_ConfigMaps (view (ext s)) (Namespace (pc_Meta pc), configMapName pc) = Some old \<or>
      v_ConfigMaps (view (ext s)) (Namespace (pc_Meta pc), configMapName pc) = None"
    and stored: "v_ConfigMaps (view w) (Namespace (pc_Meta pc), configMapName pc) =
      Some (new\<lparr>cm_Meta := with_version (cm_Meta new) v\<rparr>)"
    by auto
  have owner: "SetControllerReference L pc (cm_Meta old) = Inr (cm_Meta new)"
    using mutateConfigMap_data [OF new] by simp
  have "controlled_by PrometheusClusterKind (Name (pc_Meta pc)) (with_version (cm_Meta new) v)"
    using owner_set [OF owner] by (simp add: controlled_by_def)
  then show ?thesis using stored old owner by (auto simp: t controlled_def)
qed

lemma service_owned:
  assumes "reconcileHeadlessService L R pc s = (Inr op, t)"
  shows "(\<exists>svc. v_Services (view (ext t)) (pc_key pc) = Some svc \<and>
      controlled_by PrometheusClusterKind (Name (pc_Meta pc)) (svc_Meta svc)) \<and>
    (\<forall>svc. v_Services (view (ext s)) (pc_key pc) = Some svc \<longrightarrow> controlled L pc (svc_Meta svc))"
proof -
  obtain w where run: "CreateOrUpdateService (Client R) (new_service pc) (mutateService L pc) (ext s)
      = (Inr op, w)" and t: "t = s\<lparr>ext := w\<rparr>"
    using assms by (auto simp: reconcileHeadlessService_def elim!: callE)
  from svc_stored [OF run] obtain old new v where new: "mutateService L pc old = Inr new"
    and old: "v_Services (view (ext s)) (pc_key pc) = Some old \<or> v_Services (view (ext s)) (pc_key pc) = None"
    and stored: "v_Services (view w) (pc_key pc) = Some (new\<lparr>svc_Meta := with_version (svc_Meta new) v\<rparr>)"
    by auto
  have owner: "SetControllerReference L pc (svc_Meta old) = Inr (svc_Meta new)"
    using mutateService_fields [OF new] by simp
  have "controlled_by PrometheusClusterKind (Name (pc_Meta pc)) (with_version (svc_Meta new) v)"
    using owner_set [OF owner] by (simp add: controlled_by_def)
  then show ?thesis using stored old owner by (auto simp: t controlled_def)
qed

lemma updatePhase_sts:
  "updatePhase R pc phase ready s = (Inr res, t) \<Longrightarrow> v_StatefulSets (view (ext t)) k = v_StatefulSets (view (ext s)) k"
  using updatePhase_ok [of pc phase ready s res t] by (auto simp: confined_def dest: same_exceptD(2))

lemma create_owned:
  assumes "createStatefulSet L R pc (buildStatefulSet (Quantities L) pc) s = (Inr res, t)"
  shows "\<exists>sts. v_StatefulSets (view (ext t)) (pc_key pc) = Some sts \<and>
    controlled_by PrometheusClusterKind (Name (pc_Meta pc)) (sts_Meta sts)"
proof -
  let ?d = "buildStatefulSet (Quantities L) pc"
  obtain m new w where m: "SetControllerReference L pc (sts_Meta ?d) = Inr m"
    and create: "Create (StatefulSets (Client R)) (?d\<lparr>sts_Meta := m\<rparr>) (ext s) = (Inr new, w)"
    and phase: "updatePhase R pc PhaseProvisioning 0 (s\<lparr>ext := w\<rparr>) = (Inr res, t)"
    using assms by (auto simp: createStatefulSet_def attempt_Inr_iff split: sum.splits elim!: callE)
  have key: "sts_key (?d\<lparr>sts_Meta := m\<rparr>) = pc_key pc"
    using owner_key [OF m] sts_key_build [of "Quantities L" pc] by (simp add: sts_key_def)
  have "controlled_by PrometheusClusterKind (Name (pc_Meta pc)) (sts_Meta new)"
    using owner_set [OF m] sts_create_meta [OF create] by (simp add: controlled_by_def)
  then show ?thesis
    using sts_create_stored [OF create] updatePhase_sts [OF phase] by (simp add: key)
qed

lemma update_takes_over:
  assumes run: "updateStatefulSet L R pc (buildStatefulSet (Quantities L) pc) current s = (Inr res, t)"
    and stored: "v_StatefulSets (view (ext s)) (pc_key pc) = Some current"
  shows "\<exists>new. v_StatefulSets (view (ext t)) (pc_key pc) = Some new \<and>
    OwnerReferences (sts_Meta new) = OwnerReferences (sts_Meta current)"
proof -
  let ?new = "current\<lparr>sts_Replicas := Some (sp_Replicas (pc_Spec pc)),
    sts_Template := sts_Template (buildStatefulSet (Quantities L) pc)\<rparr>"
  have key: "sts_key ?new = pc_key pc" using stss.stored_key [OF stored] by (simp add: sts_key_def)
  consider ph rd where "updatePhase R pc ph rd s = (Inr res, t)"
    | c w ph rd where "Update (StatefulSets (Client R)) ?new (ext s) = (Inr c, w)" "updatePhase R pc ph rd (s\<lparr>ext := w\<rparr>) = (Inr res, t)"
    using run by (auto simp: updateStatefulSet_def Let_def attempt_Inr_iff split: option.splits if_splits elim!: callE)
  then show ?thesis
  proof cases
    case (1 ph rd)
    from updatePhase_sts [OF this, of "pc_key pc"] stored show ?thesis by simp
  next
    case (2 c w ph rd)
    from sts_update_stored [OF 2(1)] stored have "v_StatefulSets (view w) (pc_key pc) = Some c"
      by (simp add: key)
    then show ?thesis using sts_update_meta [OF 2(1)] updatePhase_sts [OF 2(2), of "pc_key pc"] by simp
  qed
qed

lemma sts_owned:
  assumes run: "reconcileStatefulSet L R pc s = (Inr res, t)"
  shows "\<exists>new. v_StatefulSets (view (ext t)) (pc_key pc) = Some new \<and>
    (case v_StatefulSets (view (ext s)) (pc_key pc) of
       None \<Rightarrow> controlled_by PrometheusClusterKind (Name (pc_Meta pc)) (sts_Meta new)
     | Some current \<Rightarrow> OwnerReferences (sts_Meta new) = OwnerReferences (sts_Meta current))"
proof -
  let ?d = "buildStatefulSet (Quantities L) pc"
  obtain x w where get: "Get (StatefulSets (Client R)) (sts_key ?d) (ext s) = (x, w)" by fastforce
  have same: "view w = view (ext s)" by (rule stss.get_same [OF get])
  show ?thesis
  proof (cases x)
    case (Inl e)
    with run get have create: "createStatefulSet L R pc ?d (s\<lparr>ext := w\<rparr>) = (Inr res, t)"
      by (simp add: reconcileStatefulSet_def Let_def call_def split: if_splits)
    then show ?thesis using create_owned [OF create] createStatefulSet_ok [OF create] by (simp add: same)
  next
    case (Inr current)
    with run get have update: "updateStatefulSet L R pc ?d current (s\<lparr>ext := w\<rparr>) = (Inr res, t)"
      by (simp add: reconcileStatefulSet_def Let_def call_def)
    have "v_StatefulSets (view (ext s)) (pc_key pc) = Some current"
      using stss.get_stored [OF get [unfolded Inr]] by simp
    then show ?thesis using update_takes_over [OF update] by (simp add: same)
  qed
qed

lemma Reconcile_owned:
  assumes get: "Get (Clusters (Client R)) k (ext s) = (Inr pc, w)"
    and live: "DeletionTimestamp (pc_Meta pc) = None" "ContainsFinalizer L pc finalizerName"
    and run: "Reconcile L R k s = (Inr res, t)"
  shows "(\<exists>cm. v_ConfigMaps (view (ext t)) (fst k, configMapName pc) = Some cm \<and>
      controlled_by PrometheusClusterKind (snd k) (cm_Meta cm)) \<and>
    (\<exists>svc. v_Services (view (ext t)) k = Some svc \<and> controlled_by PrometheusClusterKind (snd k) (svc_Meta svc)) \<and>
    (\<exists>new. v_StatefulSets (view (ext t)) k = Some new \<and>
      (case v_StatefulSets (view (ext s)) k of
         None \<Rightarrow> controlled_by PrometheusClusterKind (snd k) (sts_Meta new)
       | Some current \<Rightarrow> OwnerReferences (sts_Meta new) = OwnerReferences (sts_Meta current))) \<and>
    (\<forall>cm. v_ConfigMaps (view (ext s)) (fst k, configMapName pc) = Some cm \<longrightarrow> controlled L pc (cm_Meta cm)) \<and>
    (\<forall>svc. v_Services (view (ext s)) k = Some svc \<longrightarrow> controlled L pc (svc_Meta svc))"
proof -
  have key: "pc_key pc = k" by (rule clusters.get_key [OF get])
  have names: "Namespace (pc_Meta pc) = fst k" "Name (pc_Meta pc) = snd k"
    unfolding key [symmetric] by (simp_all add: pc_key_def meta_key_def)
  have "reconcileChildren L R pc (s\<lparr>ext := w\<rparr>) = (Inr res, t)"
    using run get live by (simp add: Reconcile_def call_def)
  then obtain s1 s2 s3 u b op where
    1: "registerBackup R pc (s\<lparr>ext := w\<rparr>) = (Inr u, s1)" and
    2: "reconcileConfigMap L R pc s1 = (Inr b, s2)" and
    3: "reconcileHeadlessService L R pc s2 = (Inr op, s3)" and
    4: "reconcileStatefulSet L R pc s3 = (Inr res, t)"
    by (auto simp: reconcileChildren_def attempt_Inr_iff)
  note scopes = registerBackup_ok [OF 1] reconcileConfigMap_scope [OF 2]
    reconcileHeadlessService_scope [OF 3] reconcileStatefulSet_scope [OF 4] clusters.get_same [OF get]
  have c0: "v_ConfigMaps (view (ext s1)) j = v_ConfigMaps (view (ext s)) j"
    and c3: "v_ConfigMaps (view (ext t)) j = v_ConfigMaps (view (ext s2)) j"
    and v0: "v_Services (view (ext s2)) j = v_Services (view (ext s)) j"
    and v3: "v_Services (view (ext t)) j = v_Services (view (ext s3)) j"
    and st: "v_StatefulSets (view (ext s3)) j = v_StatefulSets (view (ext s)) j" for j
    using scopes by (simp_all add: confined_def same_except_def del: split_paired_All)
  show ?thesis
    using config_map_owned [OF 2] service_owned [OF 3] sts_owned [OF 4]
    unfolding c0 c3 v0 v3 st key names by blast
qed

end

section \<open>Properties\<close>

text \<open>
  C13: no drift goes unnoticed. After a successful pass every change of the cluster's ConfigMap and of
  its Service, and of the StatefulSet the pass created, is a request for the cluster again: their
  stored metadata carry the controller reference that the controller \<open>main\<close> registers is told to
  follow. So is every change of the cluster itself.
\<close>

theorem child_changes_reach_reconciler:
  assumes "owning_reconcile R view admit L requests"
    and "Get (Clusters (Client R)) k (ext s) = (Inr pc, w)"
    and "DeletionTimestamp (pc_Meta pc) = None" and "ContainsFinalizer L pc finalizerName"
    and "Reconcile L R k s = (Inr res, t)"
  shows "k \<in> requests cluster_SetupWithManager PrometheusClusterKind (pc_Meta pc) \<and>
    (\<exists>cm. v_ConfigMaps (view (ext t)) (fst k, configMapName pc) = Some cm \<and>
       k \<in> requests cluster_SetupWithManager ConfigMapKind (cm_Meta cm)) \<and>
    (\<exists>svc. v_Services (view (ext t)) k = Some svc \<and> k \<in> requests cluster_SetupWithManager ServiceKind (svc_Meta svc)) \<and>
    (v_StatefulSets (view (ext s)) k = None \<longrightarrow>
       (\<exists>sts. v_StatefulSets (view (ext t)) k = Some sts \<and>
          k \<in> requests cluster_SetupWithManager StatefulSetKind (sts_Meta sts)))"
proof -
  note scope = owning_reconcile.axioms(1) [OF assms(1), THEN cluster_reconcile.axioms(1)]
  note req = controller_requests.cluster_requests [OF owning_reconcile.axioms(2) [OF assms(1)]]
  have key: "meta_key (pc_Meta pc) = k"
    using resource_scope.get_key [OF kube_scope.axioms(1) [OF scope] assms(2)] by (simp add: pc_key_def)
  have cm: "Namespace (cm_Meta x) = n" if "v_ConfigMaps (view w') (n, j) = Some x" for n j x w'
    using kube_scope.cm_key [OF scope that] by (auto simp: meta_key_def)
  have svc: "Namespace (svc_Meta x) = fst j" if "v_Services (view w') j = Some x" for j x w'
    using kube_scope.svc_key [OF scope that] by (auto simp: meta_key_def)
  have sts: "Namespace (sts_Meta x) = fst j" if "v_StatefulSets (view w') j = Some x" for j x w'
    using resource_scope.stored_key [OF kube_scope.axioms(3) [OF scope] that] by (auto simp: sts_key_def meta_key_def)
  have "k \<in> requests cluster_SetupWithManager PrometheusClusterKind (pc_Meta pc)"
    using controller_requests.own_kind [OF owning_reconcile.axioms(2) [OF assms(1)], of "pc_Meta pc" cluster_SetupWithManager]
    by (simp add: key cluster_SetupWithManager_def)
  then show ?thesis
    using owning_reconcile.Reconcile_owned [OF assms]
    by (auto simp: req dest: cm [symmetric] svc [symmetric] sts [symmetric])
qed


end
