(* ===== verification/OwnershipWitnesses.thy ===== *)
theory OwnershipWitnesses
  imports Ownership ClusterWitnesses
begin

text \<open>
  Ownership on the reference server, with requests that follow the controller references exactly.
\<close>

definition mem_requests :: "controller_config \<Rightarrow> kind \<Rightarrow> object_meta \<Rightarrow> namespaced_name set" where
  "mem_requests cfg kd m =
     {k. kd = cc_For cfg \<and> k = meta_key m} \<union>
     {k. kd \<in> set (cc_Owns cfg) \<and> controlled_by (cc_For cfg) (snd k) m \<and> fst k = Namespace m}"

interpretation mem_enqueue: controller_requests mem_requests
  by unfold_locales (auto simp: mem_requests_def)

interpretation mem_owning: owning_reconcile mem_reconciler mem_view mem_admit ref_lib mem_requests
proof -
  have "owning_reconcile_axioms mem_reconciler ref_lib"
  proof
    show "controlled_by PrometheusClusterKind (Name (pc_Meta pc)) m'"
      if "SetControllerReference ref_lib pc m = Inr m'" for pc m m'
      using that unfolding ref_owner
      by (auto simp: controlled_by_def controller_ref_def intro!: bexI [of _ "controller_ref pc"])
    show "OwnerReferences (sts_Meta y) = OwnerReferences (sts_Meta x)"
      if "Create (StatefulSets (Client mem_reconciler)) x w = (Inr y, w')" for x y w w'
      using that by (auto simp: mem_resource_def stamp_def kind_fields Let_def split: option.splits)
    show "OwnerReferences (sts_Meta y) = OwnerReferences (sts_Meta x)"
      if "Update (StatefulSets (Client mem_reconciler)) x w = (Inr y, w')" for x y w w'
      using that by (auto simp: mem_resource_def stamp_def kind_fields Let_def split: option.splits if_splits)
  qed
  then show "owning_reconcile mem_reconciler mem_view mem_admit ref_lib mem_requests"
    unfolding owning_reconcile_def using mem_pass.cluster_reconcile_axioms mem_enqueue.controller_requests_axioms by simp
qed

text \<open>A new cluster, and one whose name a StatefulSet of somebody else's already bears.\<close>

theorem child_changes_reach_reconciler_witness:
  "\<exists>res t. Reconcile ref_lib mem_reconciler demo_key (demo_process (demo_cluster [finalizerName] None)) = (Inr res, t) \<and>
     (\<exists>sts. v_StatefulSets (mem_view (ext t)) demo_key = Some sts \<and>
        demo_key \<in> mem_requests cluster_SetupWithManager StatefulSetKind (sts_Meta sts))"
proof -
  let ?s = "demo_process (demo_cluster [finalizerName] None)"
  obtain res t where run: "Reconcile ref_lib mem_reconciler demo_key ?s = (Inr res, t)" by (rule demo_pass)
  then show ?thesis
    using child_changes_reach_reconciler [OF mem_owning.owning_reconcile_axioms _ _ _ run,
        of "demo_cluster [finalizerName] None" "ext ?s"]
    by auto
qed

definition foreign_sts :: stateful_set where
  "foreign_sts = (buildStatefulSet text_quantities (demo_cluster [] None))
     \<lparr>sts_Meta := (sts_Meta (buildStatefulSet text_quantities (demo_cluster [] None)))
        \<lparr>OwnerReferences := [\<lparr>or_Kind = ''Prometheus'', or_Name = ''demo'', or_UID = ''u9'', or_Controller = True\<rparr>]\<rparr>,
      sts_Replicas := Some 7\<rparr>"

definition occupied :: "mem process" where
  "occupied = \<lparr>ext = empty_mem\<lparr>m_Clusters := [demo_cluster [finalizerName] None], m_StatefulSets := [foreign_sts]\<rparr>,
     mets = no_metrics, entries = Map.empty\<rparr>"

lemma foreign_fields: "sts_key foreign_sts = demo_key" "sts_Replicas foreign_sts = Some 7"
  "\<not> controlled_by PrometheusClusterKind n (sts_Meta foreign_sts)"
  using sts_key_build [of text_quantities "demo_cluster [] None"]
  by (simp_all add: foreign_sts_def sts_key_def meta_key_def controlled_by_def)

lemma occupied_store:
  "v_Clusters (mem_view (ext occupied)) demo_key = Some (demo_cluster [finalizerName] None)"
  "v_StatefulSets (mem_view (ext occupied)) demo_key = Some foreign_sts"
  "v_ConfigMaps (mem_view (ext occupied)) k = None" "v_Services (mem_view (ext occupied)) k = None"
  using foreign_fields(1) by (simp_all add: occupied_def mem_view_def empty_mem_def)


end
