(* ===== verification/BackupClients.thy ===== *)
theory BackupClients
  imports BackupScheduler
begin

text \<open>
  The clients the scheduler is given in production: \<open>SPDYExecutor\<close> (\<open>internal/backup/exec.go\<close>), which
  runs a command in a container through the API server's exec subresource, and \<open>S3Client\<close>
  (\<open>internal/backup/s3client.go\<close>), which uploads a stream in parts. client-go and the AWS SDK are
  parameters.

  With them every command a backup executes is known: which pod it runs in, which arguments it
  has, and that the snapshot is removed only when all of it is in the bucket.
\<close>

section \<open>The executor\<close>

record rest_request =
  rq_Verb :: string
  rq_Resource :: string
  rq_Name :: string
  rq_Namespace :: string
  rq_SubResource :: string
  rq_Container :: string
  rq_Command :: "string list"
  rq_Stdout :: bool
  rq_Stderr :: bool

definition exec_rest_request :: "exec_request \<Rightarrow> rest_request" where
  "exec_rest_request req =
     \<lparr>rq_Verb = ''POST'', rq_Resource = ''pods'', rq_Name = ex_Pod req, rq_Namespace = ex_Namespace req,
      rq_SubResource = ''exec'', rq_Container = ex_Container req, rq_Command = ex_Cmd req,
      rq_Stdout = True, rq_Stderr = True\<rparr>"

text \<open>
  What a command does to the writer it is given: the chunks it writes, what \<open>Exec\<close> returns after
  the last one, and what it returns when a write fails. Its standard error is discarded.
\<close>

record exec_stream =
  es_Chunks :: "string list"
  es_Exit :: "go_error option"
  es_Broken :: "go_error option"

text \<open>
  The URL of a request stands for the request: \<open>spdy_NewExecutor\<close> is
  \<open>remotecommand.NewSPDYExecutor\<close>, which may refuse it, \<open>spdy_Stream\<close> is \<open>StreamWithContext\<close>.
\<close>

record 'w spdy =
  spdy_NewExecutor :: "rest_request \<Rightarrow> go_error option"
  spdy_Stream :: "rest_request \<Rightarrow> 'w \<Rightarrow> exec_stream \<times> 'w"

definition SPDY_Exec :: "'w spdy \<Rightarrow> exec_request \<Rightarrow> 'w \<Rightarrow> exec_stream \<times> 'w" where
  "SPDY_Exec C req w =
     (let rq = exec_rest_request req
      in case spdy_NewExecutor C rq of
           Some e \<Rightarrow> (\<lparr>es_Chunks = [], es_Exit = Some (Wrapped ''new executor'' e),
                       es_Broken = Some (Wrapped ''new executor'' e)\<rparr>, w)
         | None \<Rightarrow> spdy_Stream C rq w)"

definition discarded :: "exec_stream \<times> 'w \<Rightarrow> unit result \<times> 'w" where
  "discarded x = (case es_Exit (fst x) of None \<Rightarrow> Inr () | Some e \<Rightarrow> Inl e, snd x)"

section \<open>The bucket\<close>

text \<open>When the upload gives up by itself, what it makes of a read error, what it returns after EOF.\<close>

record upload_run =
  up_GiveUp :: "(nat \<times> go_error) option"
  up_ReadError :: "go_error \<Rightarrow> go_error"
  up_Finish :: "string \<Rightarrow> go_error option"

definition StreamUpload :: "(put_object \<Rightarrow> 'w \<Rightarrow> upload_run \<times> 'w) \<Rightarrow> put_object \<Rightarrow> 'w \<Rightarrow> upload_run \<times> 'w" where
  "StreamUpload multipart obj w =
     (case multipart obj w of
        (u, w) \<Rightarrow>
          (\<lparr>up_GiveUp = map_option (\<lambda>(n, e). (n, Wrapped ''multipart upload'' e)) (up_GiveUp u),
            up_ReadError = (\<lambda>e. Wrapped ''multipart upload'' (up_ReadError u e)),
            up_Finish = (\<lambda>b. map_option (Wrapped ''multipart upload'') (up_Finish u b))\<rparr>, w))"

text \<open>The pipe joins the two; \<open>tar_step\<close> says how they meet.\<close>

definition joined :: "exec_stream \<Rightarrow> upload_run \<Rightarrow> transfer" where
  "joined x u =
     \<lparr>tr_Chunks = es_Chunks x, tr_Exit = es_Exit x, tr_Broken = es_Broken x, tr_GiveUp = up_GiveUp u,
      tr_ReadError = up_ReadError u, tr_Finish = up_Finish u\<rparr>"

definition SPDYExecutor ::
    "'w spdy \<Rightarrow> (put_object \<Rightarrow> 'w \<Rightarrow> upload_run \<times> 'w) \<Rightarrow> 'w pod_executor" where
  "SPDYExecutor C multipart =
     \<lparr>Exec = (\<lambda>req w. discarded (SPDY_Exec C req w)),
      ExecInto = (\<lambda>req obj w.
        case SPDY_Exec C req w of
          (x, w) \<Rightarrow> (case StreamUpload multipart obj w of (u, w) \<Rightarrow> (joined x u, w)))\<rparr>"

definition NewSPDYExecutor ::
    "('cfg \<Rightarrow> 'w spdy result) \<Rightarrow> (put_object \<Rightarrow> 'w \<Rightarrow> upload_run \<times> 'w) \<Rightarrow> 'cfg \<Rightarrow> 'w pod_executor result" where
  "NewSPDYExecutor NewForConfig multipart cfg =
     (case NewForConfig cfg of
        Inl e \<Rightarrow> Inl (Wrapped ''kubernetes clientset'' e)
      | Inr C \<Rightarrow> Inr (SPDYExecutor C multipart))"

section \<open>Which commands are executed\<close>

definition pod_command :: "namespaced_name \<Rightarrow> string list \<Rightarrow> rest_request" where
  "pod_command k cmd =
     \<lparr>rq_Verb = ''POST'', rq_Resource = ''pods'', rq_Name = snd k @ ''-0'', rq_Namespace = fst k,
      rq_SubResource = ''exec'', rq_Container = ''prometheus'', rq_Command = cmd, rq_Stdout = True, rq_Stderr = True\<rparr>"

definition tar_command :: "namespaced_name \<Rightarrow> string \<Rightarrow> rest_request" where
  "tar_command k snap = pod_command k [''tar'', ''-C'', ''/prometheus/snapshots'', ''-cf'', ''-'', snap]"

definition rm_command :: "namespaced_name \<Rightarrow> string \<Rightarrow> rest_request" where
  "rm_command k snap = pod_command k [''rm'', ''-rf'', ''/prometheus/snapshots/'' @ snap]"

text \<open>
  What a backup does to the outside, in order: the calls of the run with their arguments and what
  came of them.
\<close>

datatype backup_event =
    Fetched namespaced_name "prometheus_cluster result"
  | Asked string string "http_response result"
  | Clock timestamp
  | Ran rest_request exec_stream
  | Uploaded put_object upload_run
  | Put put_object string "unit result"
  | Stamped prometheus_cluster "prometheus_cluster result"

text \<open>\<open>tar\<close> exited without an error, and the upload took all it had written and was accepted.\<close>

definition archived :: "exec_stream \<Rightarrow> upload_run \<Rightarrow> bool" where
  "archived x u \<longleftrightarrow>
     es_Exit x = None \<and> up_Finish u (concat (es_Chunks x)) = None \<and>
     (case up_GiveUp u of None \<Rightarrow> True | Some (n, _) \<Rightarrow> length (es_Chunks x) < n)"

text \<open>The final stamp, and the result that comes of it.\<close>

definition stamp_trace :: "prometheus_cluster \<Rightarrow> unit result \<Rightarrow> backup_event list \<Rightarrow> bool" where
  "stamp_trace pc r evs \<longleftrightarrow>
     (\<exists>now q. evs = [Clock now, Stamped (pc\<lparr>pc_Status := (pc_Status pc)\<lparr>cs_LastBackupTime := Some now\<rparr>\<rparr>) q] \<and>
        (r = Inr () \<longleftrightarrow> (\<exists>pc'. q = Inr pc')))"

text \<open>
  The traces of a backup, by where it ends: the cluster cannot be read; the admin endpoint cannot
  be asked; it names no snapshot, and its answer is put as it is; it names one, which is archived
  or not.
\<close>

definition upload_trace ::
    "namespaced_name \<Rightarrow> prometheus_cluster \<Rightarrow> string \<Rightarrow> put_object \<Rightarrow> unit result \<Rightarrow> backup_event list \<Rightarrow> bool" where
  "upload_trace k pc snap obj r evs \<longleftrightarrow>
     (\<exists>tar u. (tar = [] \<or> (\<exists>x. tar = [Ran (tar_command k snap) x])) \<and> evs = tar @ [Uploaded obj u] \<and> r \<noteq> Inr ()) \<or>
     (\<exists>x u rm st. evs = [Ran (tar_command k snap) x, Uploaded obj u] @ rm @ st \<and> archived x u \<and>
        (rm = [] \<or> (\<exists>y. rm = [Ran (rm_command k snap) y])) \<and> stamp_trace pc r st)"

definition backup_trace ::
    "'w scheduler \<Rightarrow> namespaced_name \<Rightarrow> unit result \<Rightarrow> backup_event list \<Rightarrow> bool" where
  "backup_trace S k r evs \<longleftrightarrow>
     (\<exists>e. evs = [Fetched k (Inl e)] \<and> r \<noteq> Inr ()) \<or>
     (\<exists>pc answer rest. evs = [Fetched k (Inr pc), Asked ''POST'' (snapshot_url k) answer] @ rest \<and>
        (case snapshot_named S answer of
           None \<Rightarrow> rest = [] \<and> r \<noteq> Inr ()
         | Some (snap, raw) \<Rightarrow>
             \<exists>now up. rest = Clock now # up \<and>
               (if snap = [] then
                  (\<exists>e. up = [Put (archive_of S pc now) raw (Inl e)] \<and> r \<noteq> Inr ()) \<or>
                  (\<exists>st. up = Put (archive_of S pc now) raw (Inr ()) # st \<and> stamp_trace pc r st)
                else upload_trace k pc snap (archive_of S pc now) r up)))"

text \<open>
  The journal of the outside: every call adds itself to it, with its result, and nothing else
  does. An object read for a key has that key.
\<close>

locale execution_log =
  fixes S :: "'w scheduler" and C :: "'w spdy" and multipart :: "put_object \<Rightarrow> 'w \<Rightarrow> upload_run \<times> 'w"
    and journal :: "'w \<Rightarrow> backup_event list"
  assumes executor: "sch_Exec S = Some (SPDYExecutor C multipart)"
    and stream_log: "spdy_Stream C rq w = (x, w') \<Longrightarrow> journal w' = journal w @ [Ran rq x]"
    and multipart_log: "multipart obj w = (u, w') \<Longrightarrow> journal w' = journal w @ [Uploaded obj u]"
    and get_log: "Get (Clusters (sch_Client S)) k w = (g, w') \<Longrightarrow> journal w' = journal w @ [Fetched k g]"
    and get_key: "Get (Clusters (sch_Client S)) k w = (Inr pc, w') \<Longrightarrow> pc_key pc = k"
    and status_log: "StatusUpdate (Clusters (sch_Client S)) pc w = (q, w') \<Longrightarrow> journal w' = journal w @ [Stamped pc q]"
    and http_log: "HTTP_Do S meth url w = (resp, w') \<Longrightarrow> journal w' = journal w @ [Asked meth url resp]"
    and put_log: "PutObject S obj body w = (v, w') \<Longrightarrow> journal w' = journal w @ [Put obj body v]"
    and clock_log: "Now S w = (now, w') \<Longrightarrow> journal w' = journal w @ [Clock now]"
begin

lemma exec_requests:
  "exec_rest_request \<lparr>ex_Namespace = Namespace (pc_Meta pc), ex_Pod = Name (pc_Meta pc) @ ''-0'', ex_Container = ''prometheus'',
     ex_Cmd = cmd\<rparr> = pod_command (pc_key pc) cmd"
  by (simp add: exec_rest_request_def pod_command_def pc_key_def meta_key_def)

text \<open>What one execution adds to the journal: nothing when no executor could be built for it.\<close>

lemma exec_log:
  assumes "SPDY_Exec C req w = (x, w')"
  shows "(\<exists>e. journal w' = journal w \<and> es_Exit x = Some (Wrapped ''new executor'' e)) \<or>
    journal w' = journal w @ [Ran (exec_rest_request req) x]"
  using assms by (auto simp: SPDY_Exec_def Let_def stream_log split: option.splits)

lemma tar_log:
  assumes "tarStreamToS3 (SPDYExecutor C multipart) pc snap key s = (r, t)"
  defines "obj \<equiv> \<lparr>po_Bucket = bk_Bucket (sp_Backup (pc_Spec pc)), po_Key = key\<rparr>"
  obtains (failed) tar u where "tar = [] \<or> (\<exists>x. tar = [Ran (tar_command (pc_key pc) snap) x])"
      "journal (ext t) = journal (ext s) @ tar @ [Uploaded obj u]" "r \<noteq> Inr ()"
  | (stored) x u where "journal (ext t) = journal (ext s) @ [Ran (tar_command (pc_key pc) snap) x, Uploaded obj u]"
      "archived x u" "r = Inr ()"
proof -
  let ?req = "\<lparr>ex_Namespace = Namespace (pc_Meta pc), ex_Pod = Name (pc_Meta pc) @ ''-0'', ex_Container = ''prometheus'',
    ex_Cmd = [''tar'', ''-C'', ''/prometheus/snapshots'', ''-cf'', ''-'', snap]\<rparr>"
  obtain x w where x: "SPDY_Exec C ?req (ext s) = (x, w)" by fastforce
  obtain u w' where u: "multipart obj w = (u, w')" by fastforce
  let ?T = "joined x (fst (StreamUpload multipart obj w))"
  have t: "ext t = w'" and r: "r = tar_result ?T"
    using assms(1) x u by (auto simp: obj_def tarStreamToS3_def SPDYExecutor_def call_def StreamUpload_def split: prod.splits)
  have log: "journal w' = journal w @ [Uploaded obj u]" by (rule multipart_log [OF u])
  have arch: "archived x u" if "r = Inr ()"
    using that u unfolding r archived_def
    by (auto simp: tar_result_def tar_return_def tar_exec_err_def tar_put_err_def tar_cut_def joined_def StreamUpload_def
        split: option.splits if_splits prod.splits)
  from exec_log [OF x] consider e where "journal w = journal (ext s)" "es_Exit x = Some (Wrapped ''new executor'' e)"
    | "journal w = journal (ext s) @ [Ran (exec_rest_request ?req) x]" by blast
  then show ?thesis
  proof cases
    case 1
    then have "r \<noteq> Inr ()" using arch by (auto simp: archived_def)
    then show ?thesis using 1 log t by (intro failed [of "[]" u]) simp_all
  next
    case 2
    then have two: "journal (ext t) = journal (ext s) @ [Ran (tar_command (pc_key pc) snap) x, Uploaded obj u]"
      using log t by (simp add: exec_requests tar_command_def)
    show ?thesis
    proof (cases "r = Inr ()")
      case True
      with two arch show ?thesis by (intro stored) simp_all
    next
      case False
      with two show ?thesis by (intro failed [of "[Ran (tar_command (pc_key pc) snap) x]" u]) simp_all
    qed
  qed
qed

lemma cleanup_log:
  assumes "cleanupSnapshot (SPDYExecutor C multipart) pc snap s = (r, t)"
  shows "\<exists>rm. journal (ext t) = journal (ext s) @ rm \<and> (rm = [] \<or> (\<exists>y. rm = [Ran (rm_command (pc_key pc) snap) y]))"
proof -
  let ?req = "\<lparr>ex_Namespace = Namespace (pc_Meta pc), ex_Pod = Name (pc_Meta pc) @ ''-0'', ex_Container = ''prometheus'',
    ex_Cmd = [''rm'', ''-rf'', ''/prometheus/snapshots/'' @ snap]\<rparr>"
  obtain y w where y: "SPDY_Exec C ?req (ext s) = (y, w)" by fastforce
  then have "ext t = w" using assms by (auto simp: cleanupSnapshot_def SPDYExecutor_def call_def discarded_def)
  then show ?thesis using exec_log [OF y] unfolding exec_requests rm_command_def by auto
qed

lemma stamp_log:
  assumes "stampBackup S pc s = (r, t)"
  shows "\<exists>st. journal (ext t) = journal (ext s) @ st \<and> stamp_trace pc r st"
proof -
  obtain now w where now: "Now S (ext s) = (now, w)" by fastforce
  let ?pc = "pc\<lparr>pc_Status := (pc_Status pc)\<lparr>cs_LastBackupTime := Some now\<rparr>\<rparr>"
  obtain q w' where q: "StatusUpdate (Clusters (sch_Client S)) ?pc w = (q, w')" by fastforce
  have "ext t = w'" "r = Inr () \<longleftrightarrow> (\<exists>pc'. q = Inr pc')"
    using assms now q by (auto simp: stampBackup_def attempt_def call_def split: sum.splits)
  then show ?thesis
    using clock_log [OF now] status_log [OF q] unfolding stamp_trace_def by auto
qed

lemma snapshot_log:
  assumes "snapshot S pc s = (r, t)" and "pc_key pc = k"
  shows "\<exists>answer. journal (ext t) = journal (ext s) @ [Asked ''POST'' (snapshot_url k) answer] \<and>
    (case snapshot_named S answer of None \<Rightarrow> \<exists>e. r = Inl e | Some p \<Rightarrow> r = Inr p)"
proof -
  obtain answer where h: "call (HTTP_Do S ''POST'' (snapshot_url k)) s = (answer, t)"
    and r: "case snapshot_named S answer of None \<Rightarrow> \<exists>e. r = Inl e | Some p \<Rightarrow> r = Inr p"
    by (rule snapshot_call [OF assms])
  have "journal (ext t) = journal (ext s) @ [Asked ''POST'' (snapshot_url k) answer]"
    using h by (auto elim!: callE dest: http_log)
  with r show ?thesis by blast
qed

lemma archived_log:
  assumes "upload S pc snap raw (backup_object_key S pc now) s = (v, t)" and "snap \<noteq> []"
  obtains (failed) tar u e where "tar = [] \<or> (\<exists>x. tar = [Ran (tar_command (pc_key pc) snap) x])"
      "journal (ext t) = journal (ext s) @ tar @ [Uploaded (archive_of S pc now) u]" "v = Inl e"
  | (stored) x u rm where
      "journal (ext t) = journal (ext s) @ [Ran (tar_command (pc_key pc) snap) x, Uploaded (archive_of S pc now) u] @ rm"
      "archived x u" "rm = [] \<or> (\<exists>y. rm = [Ran (rm_command (pc_key pc) snap) y])" "v = Inr ()"
proof -
  obtain r1 s1 where tar: "tarStreamToS3 (SPDYExecutor C multipart) pc snap (backup_object_key S pc now) s = (r1, s1)" by fastforce
  obtain r2 s2 where clean: "cleanupSnapshot (SPDYExecutor C multipart) pc snap s1 = (r2, s2)" by fastforce
  from tar show ?thesis
  proof (cases rule: tar_log)
    case (failed tar u)
    then obtain e where "r1 = Inl e" by (cases r1) auto
    then have "t = s1" "v = Inl (Wrapped ''tar stream'' e)" using assms tar by (auto simp: upload_def executor)
    with failed show ?thesis by (intro that(1) [of tar u]) (simp_all add: backup_object)
  next
    case (stored x u)
    then have "t = s2" "v = Inr ()" using assms tar clean by (auto simp: upload_def executor)
    with stored cleanup_log [OF clean] show ?thesis by (elim exE) (rule that(2), auto simp: backup_object)
  qed
qed

lemma put_log':
  assumes "upload S pc [] raw (backup_object_key S pc now) s = (v, t)"
  obtains p where "journal (ext t) = journal (ext s) @ [Put (archive_of S pc now) raw p]" "v = Inr () \<longleftrightarrow> p = Inr ()"
proof -
  obtain p w where p: "PutObject S (archive_of S pc now) raw (ext s) = (p, w)" by fastforce
  then have "ext t = w" "v = Inr () \<longleftrightarrow> p = Inr ()"
    using assms by (auto simp: upload_def backup_object attempt_def call_def split: sum.splits)
  with that put_log [OF p] show ?thesis by simp
qed

lemma rest_log:
  assumes "(case upload S pc snap raw (backup_object_key S pc now) s of (Inl e, s) \<Rightarrow> (Inl e, s) | (Inr _, s) \<Rightarrow> stampBackup S pc s) = (r, t)"
  obtains up where "journal (ext t) = journal (ext s) @ up"
    and "if snap = [] then
           (\<exists>e. up = [Put (archive_of S pc now) raw (Inl e)] \<and> r \<noteq> Inr ()) \<or>
           (\<exists>st. up = Put (archive_of S pc now) raw (Inr ()) # st \<and> stamp_trace pc r st)
         else upload_trace (pc_key pc) pc snap (archive_of S pc now) r up"
proof -
  obtain v s1 where up: "upload S pc snap raw (backup_object_key S pc now) s = (v, s1)" by fastforce
  have fin: "\<exists>st. journal (ext t) = journal (ext s1) @ st \<and> stamp_trace pc r st" if "v = Inr ()"
    using assms up that by (intro stamp_log) simp
  have brk: "t = s1 \<and> r \<noteq> Inr ()" if "v = Inl e" for e
    using assms up that by auto
  show ?thesis
  proof (cases "snap = []")
    case True
    with up obtain p where p: "journal (ext s1) = journal (ext s) @ [Put (archive_of S pc now) raw p]" "v = Inr () \<longleftrightarrow> p = Inr ()"
      by (auto elim: put_log')
    show ?thesis
    proof (cases v)
      case (Inl e)
      with p obtain e' where "p = Inl e'" by (cases p) auto
      with p brk [OF Inl] True show ?thesis by (intro that [of "[Put (archive_of S pc now) raw p]"]) auto
    next
      case (Inr a)
      with fin obtain st where "journal (ext t) = journal (ext s1) @ st" "stamp_trace pc r st" by auto
      with p Inr True show ?thesis by (intro that [of "Put (archive_of S pc now) raw p # st"]) auto
    qed
  next
    case False
    from up False show ?thesis
    proof (cases rule: archived_log)
      case (failed tar u e)
      with brk False show ?thesis
        by (intro that [of "tar @ [Uploaded (archive_of S pc now) u]"]) (auto simp: upload_trace_def)
    next
      case (stored x u rm)
      with fin obtain st where st: "journal (ext t) = journal (ext s1) @ st" "stamp_trace pc r st" by auto
      have "upload_trace (pc_key pc) pc snap (archive_of S pc now) r
          ([Ran (tar_command (pc_key pc) snap) x, Uploaded (archive_of S pc now) u] @ rm @ st)"
        unfolding upload_trace_def using stored(2,3) st(2) by blast
      with stored(1) st(1) False show ?thesis by (intro that) simp_all
    qed
  qed
qed

lemma runBackup_log:
  assumes run: "runBackup S ns name s = (r, t)"
  shows "\<exists>evs. journal (ext t) = journal (ext s) @ evs \<and> backup_trace S (ns, name) r evs"
proof -
  obtain g s1 where get: "call (Get (Clusters (sch_Client S)) (ns, name)) s = (g, s1)" by fastforce
  then have s1: "journal (ext s1) = journal (ext s) @ [Fetched (ns, name) g]" by (auto elim!: callE dest: get_log)
  show ?thesis
  proof (cases g)
    case (Inl e)
    with run get s1 show ?thesis by (auto simp: runBackup_def backup_trace_def)
  next
    case (Inr pc)
    have key: "pc_key pc = (ns, name)" using get Inr by (auto elim!: callE dest: get_key)
    obtain sn s2 where sn: "snapshot S pc s1 = (sn, s2)" by fastforce
    from snapshot_log [OF sn key] obtain answer where answer:
      "journal (ext s2) = journal (ext s1) @ [Asked ''POST'' (snapshot_url (ns, name)) answer]"
      "case snapshot_named S answer of None \<Rightarrow> \<exists>e. sn = Inl e | Some p \<Rightarrow> sn = Inr p" by blast
    let ?pre = "[Fetched (ns, name) (Inr pc), Asked ''POST'' (snapshot_url (ns, name)) answer]"
    show ?thesis
    proof (cases "snapshot_named S answer")
      case None
      with answer(2) obtain e where "sn = Inl e" by auto
      with run get Inr sn have "t = s2" "r \<noteq> Inr ()" by (auto simp: runBackup_def)
      then have "backup_trace S (ns, name) r (?pre @ [])" unfolding backup_trace_def using None by fastforce
      with answer s1 Inr \<open>t = s2\<close> show ?thesis by (intro exI [of _ "?pre @ []"]) simp
    next
      case (Some p)
      obtain snap raw where p: "p = (snap, raw)" by fastforce
      obtain now s3 where now: "call (Now S) s2 = (now, s3)" by fastforce
      then have s3: "journal (ext s3) = journal (ext s2) @ [Clock now]" by (auto elim!: callE dest: clock_log)
      have rest: "(case upload S pc snap raw (backup_object_key S pc now) s3 of
          (Inl e, s) \<Rightarrow> (Inl e, s) | (Inr _, s) \<Rightarrow> stampBackup S pc s) = (r, t)"
        using run get Inr sn answer(2) Some p now by (simp add: runBackup_def)
      obtain up where up: "journal (ext t) = journal (ext s3) @ up"
        "if snap = [] then
           (\<exists>e. up = [Put (archive_of S pc now) raw (Inl e)] \<and> r \<noteq> Inr ()) \<or>
           (\<exists>st. up = Put (archive_of S pc now) raw (Inr ()) # st \<and> stamp_trace pc r st)
         else upload_trace (ns, name) pc snap (archive_of S pc now) r up"
        using rest_log [OF rest] unfolding key by blast
      then have "backup_trace S (ns, name) r (?pre @ Clock now # up)"
        unfolding backup_trace_def using Some [unfolded p]
        by (intro disjI2 exI [of _ pc] exI [of _ answer] exI [of _ "Clock now # up"])
          (simp only: option.case prod.case list.inject simp_thms ex_simps, rule exI [of _ now], rule exI [of _ up], blast)
      with up(1) s3 answer(1) s1 Inr show ?thesis by (intro exI [of _ "?pre @ Clock now # up"]) simp
    qed
  qed
qed

end

section \<open>Properties\<close>

text \<open>
  C6: the whole trace of a backup with the production clients, wherever it ends. \<open>RunOnce\<close> reads its
  cluster, asks the admin endpoint of that cluster's service for a snapshot, and then either puts
  the raw answer (when it names no snapshot) or runs \<open>tar\<close> on the name it was answered, in the
  container \<open>prometheus\<close> of pod \<open>name-0\<close>, and uploads what comes of it. Both write one object, in
  the bucket of the cluster just read, under its prefix, its name and the time of the clock. Removing
  that same snapshot runs, in the same container, only after \<open>tar\<close> exited without an error and
  all its output was accepted as that object; a run that fails before has removed and stamped
  nothing. It succeeds only if the stamp is accepted. No other call is made.
\<close>

theorem RunOnce_executes_in_own_pod:
  assumes "execution_log S C multipart journal" and "RunOnce S ns name s = (r, t)"
  shows "\<exists>evs. journal (ext t) = journal (ext s) @ evs \<and> backup_trace S (ns, name) r evs"
proof -
  obtain u where u: "runBackup S ns name s = (r, u)" "ext t = ext u"
    using RunOnce_outcome [OF assms(2)] by blast
  show ?thesis
    using execution_log.runBackup_log [OF assms(1) u(1)] unfolding u(2) .
qed

lemma same_requests:
  fixes E :: "'w pod_executor"
  shows "tarStreamToS3 E (pc\<lparr>pc_Spec := (pc_Spec pc)\<lparr>sp_Backup := (sp_Backup (pc_Spec pc))
      \<lparr>bk_Region := region, bk_Endpoint := endpoint, bk_CredentialsSecretRef := ref\<rparr>\<rparr>\<rparr>) = tarStreamToS3 E pc"
    and "cleanupSnapshot E (pc\<lparr>pc_Spec := (pc_Spec pc)\<lparr>sp_Backup := (sp_Backup (pc_Spec pc))
      \<lparr>bk_Region := region, bk_Endpoint := endpoint, bk_CredentialsSecretRef := ref\<rparr>\<rparr>\<rparr>) = cleanupSnapshot E pc"
  by (simp_all add: fun_eq_iff tarStreamToS3_def cleanupSnapshot_def)

text \<open>
  The S3 settings of a cluster are not used. Region, endpoint and credentials of the backup
  specification have no influence on a backup: the snapshot, the upload with all its requests and
  the key are the same whatever they are. The bucket is reached through the one client that
  \<open>main\<close> builds from the operator's own flags and environment.
\<close>

theorem backup_ignores_cluster_s3_settings:
  "let pc' = pc\<lparr>pc_Spec := (pc_Spec pc)\<lparr>sp_Backup := (sp_Backup (pc_Spec pc))
         \<lparr>bk_Region := region, bk_Endpoint := endpoint, bk_CredentialsSecretRef := ref\<rparr>\<rparr>\<rparr>
   in snapshot S pc' = snapshot S pc \<and> backup_object_key S pc' = backup_object_key S pc \<and>
      upload S pc' snapName raw key = upload S pc snapName raw key"
  by (simp add: Let_def snapshot_def fun_eq_iff backup_object_key_def upload_def same_requests split: option.split)

end
