(* ===== verification/StartupWitnesses.thy ===== *)
theory StartupWitnesses
  imports Startup
begin

text \<open>
  A platform in memory: it logs what it is asked for and refuses the actions it is told to
  refuse. The API server is out of reach, so that the components come up and their calls fail.
\<close>

record setup_world =
  sw_Log :: "setup_event list"
  sw_Refused :: "setup_action list"

definition offline :: "'w \<Rightarrow> 'a result \<times> 'w" where
  "offline w = (Inl (ErrorString ''connection refused''), w)"

definition offline_resource :: "('w, 'o) resource" where
  "offline_resource = \<lparr>Get = \<lambda>_. offline, List = \<lambda>_. offline, Create = \<lambda>_. offline, Update = \<lambda>_. offline,
     StatusUpdate = \<lambda>_. offline, Delete = \<lambda>_. offline\<rparr>"

definition offline_client :: "'w client" where
  "offline_client = \<lparr>Clusters = offline_resource, ClusterSets = offline_resource, StatefulSets = offline_resource,
     Pods = offline_resource, Namespaces = offline_resource, CreateOrUpdateConfigMap = \<lambda>_ _. offline,
     CreateOrUpdateService = \<lambda>_ _. offline\<rparr>"

definition offline_db :: "'w audit_db" where
  "offline_db = \<lparr>ExecContext = \<lambda>_. offline, SelectEntries = \<lambda>_ _. offline, SelectCount = offline, TimeNow = \<lambda>w. (1, w)\<rparr>"

definition offline_parts :: "'w parts" where
  "offline_parts =
     \<lparr>pt_Client = offline_client,
      pt_Checker = \<lparr>hc_Client = offline_client, hc_Get = \<lambda>_. offline, Eventf = \<lambda>_ _ _ _ w. w, hc_Now = \<lambda>w. (1, w)\<rparr>,
      pt_Scheduler = \<lparr>sch_Client = offline_client, PutObject = \<lambda>_ _. offline, sch_Exec = None,
        HTTP_Do = \<lambda>_ _. offline, sch_cron = \<lparr>AddFunc = \<lambda>_ _. offline, RemoveEntry = \<lambda>_ w. w\<rparr>,
        Unmarshal = \<lambda>_. None, Now = \<lambda>w. (1, w), FormatTime = \<lambda>_. ''now''\<rparr>,
      pt_Selectors = \<lambda>_. Inl (ErrorString ''no selectors''),
      pt_Connect = \<lambda>w. (Inr offline_db, w), pt_EnsureSchema = \<lambda>_ w. (Inr (), w)\<rparr>"

text \<open>The same parts with a database that logs its calls.\<close>

definition setup_parts :: "setup_world parts" where
  "setup_parts = offline_parts
     \<lparr>pt_Connect := \<lambda>w. (Inr offline_db, w\<lparr>sw_Log := sw_Log w @ [Connected None]\<rparr>),
      pt_EnsureSchema := \<lambda>_ w. (Inr (), w\<lparr>sw_Log := sw_Log w @ [SchemaEnsured (Inr ())]\<rparr>)\<rparr>"

definition memory_platform :: "setup_world platform" where
  "memory_platform =
     \<lparr>Perform = \<lambda>a w.
        (let r = (if a \<in> set (sw_Refused w) then Inl (ErrorString ''refused'') else Inr ())
         in (r, w\<lparr>sw_Log := sw_Log w @ [Performed a r]\<rparr>)),
      StartManager = \<lambda>A w. (Inr (), w\<lparr>sw_Log := sw_Log w @ [ManagerStarted (Inr ())]\<rparr>)\<rparr>"

interpretation memory_setup: setup_platform memory_platform setup_parts sw_Log
  by unfold_locales (auto simp: memory_platform_def setup_parts_def offline_parts_def Let_def)

text \<open>The default flags with an audit log, and with the webhook but no certificate.\<close>

definition fresh_world :: "setup_action list \<Rightarrow> setup_world" where
  "fresh_world refused = \<lparr>sw_Log = [], sw_Refused = refused\<rparr>"

lemmas startup_defs = main_def setupManager_def setupChecker_def setupBackup_def setupWebhook_def webhook_Register_def webhook_SetupWithManager_def
  setupAudit_def
  setupAPI_def setupProbes_def or_exit_def memory_platform_def fresh_world_def Open_def attempt_def offline_parts_def setup_parts_def
  default_options_def Let_def

lemma default_start:
  "fst (main memory_platform setup_parts (default_options ''postgres://'') (fresh_world [])) = Returned"
  by (simp add: startup_defs)

lemma webhook_start:
  "fst (main memory_platform setup_parts ((default_options [])\<lparr>enableWebhook := True\<rparr>) (fresh_world [])) = Returned"
  by (simp add: startup_defs)

theorem main_follows_plan_witness:
  "sw_Log (snd (main memory_platform setup_parts (default_options ''postgres://'') (fresh_world []))) =
     concat (map (succeeded \<circ> snd) (startup_plan (default_options ''postgres://''))) @ [ManagerStarted (Inr ())]"
  using main_follows_plan [OF memory_setup.setup_platform_axioms prod.collapse [symmetric],
      of "default_options ''postgres://''" "fresh_world []"] default_start
  by (auto simp: fresh_world_def returned_iff)

theorem main_hardens_servers_witness:
  "\<exists>mo. Performed (NewManager mo) (Inr ()) \<in> set (sw_Log (snd (main memory_platform setup_parts (default_options []) (fresh_world [NewPodExecutor])))) \<and>
     NextProtos (applied (mo_TLSOpts (mg_Metrics mo)) \<lparr>NextProtos = [''h2'', ''http/1.1'']\<rparr>) = [''http/1.1''] \<and>
     mo_FilterProvider (mg_Metrics mo) = Some WithAuthenticationAndAuthorization"
proof -
  let ?w = "snd (main memory_platform setup_parts (default_options []) (fresh_world [NewPodExecutor]))"
  let ?mo = "managerOptions (default_options [])"
  have mem: "Performed (NewManager ?mo) (Inr ()) \<in> set (sw_Log ?w)" by (simp add: startup_defs)
  have "sw_Log ?w = sw_Log (fresh_world [NewPodExecutor]) @ sw_Log ?w" by (simp add: fresh_world_def)
  from main_hardens_servers [OF memory_setup.setup_platform_axioms prod.collapse [symmetric] this mem]
  show ?thesis using mem by (intro exI [of _ ?mo]) (simp add: default_options_def)
qed

theorem webhook_starts_without_certificate_witness:
  "ManagerStarted (Inr ()) \<in> set (sw_Log (snd (main memory_platform setup_parts ((default_options [])\<lparr>enableWebhook := True\<rparr>) (fresh_world []))))"
proof -
  let ?o = "(default_options [])\<lparr>enableWebhook := True\<rparr>"
  let ?w = "snd (main memory_platform setup_parts ?o (fresh_world []))"
  have run: "main memory_platform setup_parts ?o (fresh_world []) = (Returned, ?w)"
    using webhook_start by (simp add: prod_eq_iff)
  have "sw_Log ?w = sw_Log (fresh_world []) @ sw_Log ?w" by (simp add: fresh_world_def)
  from webhook_starts_without_certificate [OF memory_setup.setup_platform_axioms run this]
  show ?thesis by (simp add: default_options_def)
qed

text \<open>A failing step: the executor cannot be built, so nothing after it happens.\<close>

lemma refused_start:
  "main memory_platform setup_parts (default_options []) (fresh_world [NewPodExecutor]) =
     (Exited ''Failed to build pod exec'er'' (ErrorString ''refused''),
      \<lparr>sw_Log = concat (map (succeeded \<circ> snd) (take 5 (startup_plan (default_options [])))) @
         [Performed NewPodExecutor (Inl (ErrorString ''refused''))], sw_Refused = [NewPodExecutor]\<rparr>)"
  by (simp add: startup_defs startup_plan_def succeeded_def)

end
