(* ===== verification/BackupClientWitnesses.thy ===== *)
theory BackupClientWitnesses
  imports BackupClients StartupWitnesses ClusterWitnesses
begin

text \<open>
  A world with one cluster, a pod that runs what it is told and a bucket that takes everything. The
  admin endpoint of the pod may answer any name for the snapshot. Every call is entered in the
  journal.
\<close>

record exec_world =
  ew_Journal :: "backup_event list"

definition noted :: "('a \<Rightarrow> backup_event) \<Rightarrow> 'a \<Rightarrow> exec_world \<Rightarrow> 'a \<times> exec_world" where
  "noted ev r w = (r, w\<lparr>ew_Journal := ew_Journal w @ [ev r]\<rparr>)"

lemma noted_journal: "noted ev r w = (r', w') \<Longrightarrow> ew_Journal w' = ew_Journal w @ [ev r'] \<and> r' = r"
  by (auto simp: noted_def)

definition stored_cluster :: prometheus_cluster where
  "stored_cluster =
     (let pc = demo_cluster [finalizerName] None
      in pc\<lparr>pc_Spec := (pc_Spec pc)\<lparr>sp_Backup := zero_backup\<lparr>bk_Enabled := True, bk_Bucket := ''b'', bk_Prefix := ''p''\<rparr>\<rparr>\<rparr>)"

definition exec_client :: "exec_world client" where
  "exec_client = offline_client\<lparr>Clusters := offline_resource
     \<lparr>Get := \<lambda>k. noted (Fetched k) (if k = demo_key then Inr stored_cluster else Inl (ErrorString ''not found'')),
      StatusUpdate := \<lambda>pc. noted (Stamped pc) (Inr pc)\<rparr>\<rparr>"

definition tar_output :: exec_stream where
  "tar_output = \<lparr>es_Chunks = [''block'', ''index''], es_Exit = None, es_Broken = None\<rparr>"

definition exec_spdy :: "exec_world spdy" where
  "exec_spdy = \<lparr>spdy_NewExecutor = \<lambda>_. None, spdy_Stream = \<lambda>rq. noted (Ran rq) tar_output\<rparr>"

definition accepted :: upload_run where
  "accepted = \<lparr>up_GiveUp = None, up_ReadError = (\<lambda>e. e), up_Finish = (\<lambda>_. None)\<rparr>"

definition open_bucket :: "put_object \<Rightarrow> exec_world \<Rightarrow> upload_run \<times> exec_world" where
  "open_bucket obj = noted (Uploaded obj) accepted"

definition exec_scheduler :: "string \<Rightarrow> exec_world scheduler" where
  "exec_scheduler answered =
     \<lparr>sch_Client = exec_client, PutObject = \<lambda>obj body. noted (Put obj body) (Inr ()),
      sch_Exec = Some (SPDYExecutor exec_spdy open_bucket),
      HTTP_Do = \<lambda>meth url. noted (Asked meth url) (Inr \<lparr>StatusCode = 200, Body = Inr answered\<rparr>),
      sch_cron = \<lparr>AddFunc = \<lambda>_ _. offline, RemoveEntry = \<lambda>_ w. w\<rparr>,
      Unmarshal = \<lambda>b. Some \<lparr>sr_Status = ''success'', sr_Name = b\<rparr>,
      Now = noted Clock 1, FormatTime = \<lambda>_. ''20260101T000000Z''\<rparr>"

interpretation recorded: execution_log "exec_scheduler answered" exec_spdy open_bucket ew_Journal
proof
  show "pc_key pc = k" if "Get (Clusters (sch_Client (exec_scheduler answered))) k w = (Inr pc, w')" for k w pc w'
    using that by (auto simp: exec_scheduler_def exec_client_def noted_def stored_cluster_def Let_def pc_key_def
        demo_cluster_def demo_key_def meta_key_def split: if_splits)
qed (auto simp: exec_scheduler_def exec_client_def exec_spdy_def open_bucket_def dest: noted_journal)

definition idle_pod :: "exec_world process" where
  "idle_pod = \<lparr>ext = \<lparr>ew_Journal = []\<rparr>, mets = no_metrics, entries = Map.empty\<rparr>"

text \<open>What the pod was asked to do, for any name the endpoint answers.\<close>

lemma executed_commands:
  assumes "answered \<noteq> []"
  shows "filter (\<lambda>e. \<exists>rq x. e = Ran rq x)
      (ew_Journal (ext (snd (RunOnce (exec_scheduler answered) ''monitoring'' ''demo'' idle_pod)))) =
    [Ran (tar_command (''monitoring'', ''demo'') answered) tar_output, Ran (rm_command (''monitoring'', ''demo'') answered) tar_output]"
  using assms
  by (simp add: RunOnce_def runBackup_def attempt_def call_def snapshot_def Let_def exec_scheduler_def exec_client_def
      upload_def tarStreamToS3_def cleanupSnapshot_def SPDYExecutor_def SPDY_Exec_def exec_spdy_def StreamUpload_def
      open_bucket_def joined_def discarded_def tar_output_def tar_result_def tar_return_def tar_exec_err_def tar_cut_def
      tar_put_err_def stampBackup_def idle_pod_def stored_cluster_def demo_cluster_def demo_key_def zero_value_defs
      tar_command_def rm_command_def pod_command_def exec_rest_request_def noted_def accepted_def)

text \<open>
  The endpoint's answer is trusted: with \<open>..\<close> for a name the clean-up removes the data directory of
  the database, not a snapshot.
\<close>

lemma data_directory_removed:
  "Ran (pod_command (''monitoring'', ''demo'') [''rm'', ''-rf'', ''/prometheus/snapshots/..'']) tar_output \<in>
     set (ew_Journal (ext (snd (RunOnce (exec_scheduler ''..'') ''monitoring'' ''demo'' idle_pod))))"
proof -
  have "Ran (rm_command (''monitoring'', ''demo'') ''..'') tar_output \<in>
      set (filter (\<lambda>e. \<exists>rq x. e = Ran rq x)
        (ew_Journal (ext (snd (RunOnce (exec_scheduler ''..'') ''monitoring'' ''demo'' idle_pod)))))"
    by (subst executed_commands) simp_all
  then show ?thesis by (simp add: rm_command_def)
qed

theorem RunOnce_executes_in_own_pod_witness:
  "backup_trace (exec_scheduler ''snap'') (''monitoring'', ''demo'')
      (fst (RunOnce (exec_scheduler ''snap'') ''monitoring'' ''demo'' idle_pod))
      (ew_Journal (ext (snd (RunOnce (exec_scheduler ''snap'') ''monitoring'' ''demo'' idle_pod)))) \<and>
   filter (\<lambda>e. \<exists>rq x. e = Ran rq x)
      (ew_Journal (ext (snd (RunOnce (exec_scheduler ''snap'') ''monitoring'' ''demo'' idle_pod)))) =
    [Ran (tar_command (''monitoring'', ''demo'') ''snap'') tar_output, Ran (rm_command (''monitoring'', ''demo'') ''snap'') tar_output]"
proof -
  have "ew_Journal (ext idle_pod) = []" by (simp add: idle_pod_def)
  with RunOnce_executes_in_own_pod [OF recorded.execution_log_axioms prod.collapse [symmetric],
        of "''snap''" "''monitoring''" "''demo''" idle_pod] executed_commands [of "''snap''"]
  show ?thesis by simp
qed

end
