(* ===== verification/Lifecycle.thy ===== *)
theory Lifecycle
  imports Prelude
begin

text \<open>
  The life cycles of two runnables of the manager that have work of their own in flight:
  \<open>ListenAndServe\<close> of the API server (\<open>pkg/api/server.go\<close>) with its serving goroutine, the error
  channel, the connections and the graceful shutdown, and \<open>Start\<close> of the backup scheduler
  (\<open>internal/backup/backup.go\<close>) with the cron jobs that are running. Both serve until their context is
  cancelled and then wait for what is still in flight, which is a pattern with laws of its own
  (\<open>draining\<close>).

  Every interleaving is a run of a step relation. What \<open>net/http\<close> and \<open>robfig/cron\<close> do is as
  documented: \<open>Shutdown\<close> closes the listener, makes the serving call return \<open>ErrServerClosed\<close> and waits for
  the connections; \<open>Stop\<close> lets no more job start, and its context is done when the running ones are.
\<close>

section \<open>Draining\<close>

text \<open>
  A system that is closing takes nothing new on: each of its steps brings it nearer to its end,
  and it is stuck at its end only.
\<close>

locale draining =
  fixes step :: "'s \<Rightarrow> 's \<Rightarrow> bool" and closing :: "'s \<Rightarrow> bool" and finished :: "'s \<Rightarrow> bool"
    and left_to_do :: "'s \<Rightarrow> nat"
  assumes stays_closing: "closing s \<Longrightarrow> step s t \<Longrightarrow> closing t"
    and decreases: "closing s \<Longrightarrow> step s t \<Longrightarrow> left_to_do t < left_to_do s"
    and progress: "closing s \<Longrightarrow> \<not> finished s \<Longrightarrow> \<exists>t. step s t"
begin

lemma closing_run: "step\<^sup>*\<^sup>* s t \<Longrightarrow> closing s \<Longrightarrow> closing t"
  by (induction rule: rtranclp_induct) (auto intro: stays_closing)

lemma can_finish: "closing s \<Longrightarrow> \<exists>t. step\<^sup>*\<^sup>* s t \<and> finished t"
proof (induction "left_to_do s" arbitrary: s rule: less_induct)
  case less
  show ?case
  proof (cases "finished s")
    case False
    then obtain t where t: "step s t" using progress less.prems by blast
    obtain u where "step\<^sup>*\<^sup>* t u" "finished u"
      using less.hyps [OF decreases [OF less.prems t] stays_closing [OF less.prems t]] by blast
    then show ?thesis using t by (meson converse_rtranclp_into_rtranclp)
  qed blast
qed

lemma bounded_run: "(step ^^ n) s t \<Longrightarrow> closing s \<Longrightarrow> n + left_to_do t \<le> left_to_do s"
proof (induction n arbitrary: t)
  case (Suc n)
  then obtain u where u: "(step ^^ n) s u" "step u t" by auto
  then have "closing u" using closing_run Suc.prems(2) by (blast dest: relpowp_imp_rtranclp)
  from decreases [OF this u(2)] Suc.IH [OF u(1) Suc.prems(2)] show ?case by linarith
qed simp

text \<open>Whatever happens, the end is reached within \<open>left_to_do\<close> steps.\<close>

lemma drains:
  assumes "closing s"
  shows "\<And>n t. (step ^^ n) s t \<Longrightarrow> n \<le> left_to_do s"
    and "\<And>t. step\<^sup>*\<^sup>* s t \<Longrightarrow> (\<nexists>u. step t u) \<Longrightarrow> finished t"
    and "\<And>t. step\<^sup>*\<^sup>* s t \<Longrightarrow> \<exists>u. step\<^sup>*\<^sup>* t u \<and> finished u"
  using bounded_run [OF _ assms] closing_run [OF _ assms] progress can_finish by (fastforce, blast, blast)

end

section \<open>The API server\<close>

definition ErrServerClosed :: go_error where
  "ErrServerClosed = ErrorString ''http: Server closed''"

datatype serve_call = ListenAndServeTLS string string | ListenAndServePlain

definition serveCall :: "string \<Rightarrow> serve_call" where
  "serveCall TLSCertDir =
     (if TLSCertDir \<noteq> [] then ListenAndServeTLS (TLSCertDir @ ''/tls.crt'') (TLSCertDir @ ''/tls.key'')
      else ListenAndServePlain)"

datatype serving = InCall | Sending go_error | Gone

datatype serving_main = Selecting | InShutdown | Returned "unit result"

record serve_state =
  ctx_Cancelled :: bool
  listener_Closed :: bool
  connections :: nat
  goroutine :: serving
  errCh :: "go_error list"
  serve_main :: serving_main

definition serve_start :: serve_state where
  "serve_start = \<lparr>ctx_Cancelled = False, listener_Closed = False, connections = 0, goroutine = InCall,
     errCh = [], serve_main = Selecting\<rparr>"

text \<open>
  \<open>fails\<close> are the errors the serving call may return by itself (the address, the certificate, an
  accept), \<open>closed\<close> is what closing the listener returns. The channel has room for one error.
\<close>

inductive serve_step :: "go_error set \<Rightarrow> unit result \<Rightarrow> serve_state \<Rightarrow> serve_state \<Rightarrow> bool" for fails closed where
  accept: "goroutine s = InCall \<Longrightarrow> \<not> listener_Closed s \<Longrightarrow>
    serve_step fails closed s (s\<lparr>connections := Suc (connections s)\<rparr>)"
| answered: "connections s = Suc n \<Longrightarrow> serve_step fails closed s (s\<lparr>connections := n\<rparr>)"
| serving_fails: "goroutine s = InCall \<Longrightarrow> \<not> listener_Closed s \<Longrightarrow> e \<in> fails \<Longrightarrow>
    serve_step fails closed s (s\<lparr>goroutine := Sending e\<rparr>)"
| serving_closed: "goroutine s = InCall \<Longrightarrow> listener_Closed s \<Longrightarrow>
    serve_step fails closed s (s\<lparr>goroutine := Sending ErrServerClosed\<rparr>)"
| send: "goroutine s = Sending e \<Longrightarrow> length (errCh s) < 1 \<Longrightarrow>
    serve_step fails closed s (s\<lparr>goroutine := Gone, errCh := errCh s @ [e]\<rparr>)"
| cancel: "\<not> ctx_Cancelled s \<Longrightarrow> serve_step fails closed s (s\<lparr>ctx_Cancelled := True\<rparr>)"
| select_done: "serve_main s = Selecting \<Longrightarrow> ctx_Cancelled s \<Longrightarrow>
    serve_step fails closed s (s\<lparr>serve_main := InShutdown, listener_Closed := True\<rparr>)"
| select_err: "serve_main s = Selecting \<Longrightarrow> errCh s = e # es \<Longrightarrow>
    serve_step fails closed s (s\<lparr>errCh := es,
      serve_main := Returned (if e = ErrServerClosed then Inr () else Inl (Wrapped ''http server'' e))\<rparr>)"
| shut_down: "serve_main s = InShutdown \<Longrightarrow> connections s = 0 \<Longrightarrow>
    serve_step fails closed s (s\<lparr>serve_main := Returned closed\<rparr>)"

text \<open>
  The invariant: the channel is empty until the goroutine has sent, \<open>ErrServerClosed\<close> is an effect of
  the shutdown only, and a return is explained.
\<close>

definition serve_inv :: "go_error set \<Rightarrow> unit result \<Rightarrow> serve_state \<Rightarrow> bool" where
  "serve_inv fails closed s \<longleftrightarrow>
     (goroutine s \<noteq> Gone \<longrightarrow> errCh s = []) \<and> length (errCh s) \<le> 1 \<and>
     (\<forall>e. goroutine s = Sending e \<or> e \<in> set (errCh s) \<longrightarrow> e \<in> fails \<or> e = ErrServerClosed \<and> listener_Closed s) \<and>
     (serve_main s = Selecting \<longrightarrow> \<not> listener_Closed s) \<and>
     (serve_main s = InShutdown \<longrightarrow> listener_Closed s) \<and>
     (listener_Closed s \<longrightarrow> ctx_Cancelled s) \<and>
     (\<forall>r. serve_main s = Returned r \<longrightarrow>
        (if listener_Closed s then r = closed \<and> connections s = 0
         else goroutine s = Gone \<and> (\<exists>e \<in> fails. r = Inl (Wrapped ''http server'' e))))"

lemma serve_inv_start: "serve_inv fails closed serve_start"
  by (simp add: serve_inv_def serve_start_def)

lemma serve_inv_step:
  assumes "serve_step fails closed s t" and "ErrServerClosed \<notin> fails" and "serve_inv fails closed s"
  shows "serve_inv fails closed t"
  using assms by cases (auto simp: serve_inv_def split: if_splits)

lemma serve_inv_run:
  assumes "(serve_step fails closed)\<^sup>*\<^sup>* serve_start s" and "ErrServerClosed \<notin> fails"
  shows "serve_inv fails closed s"
  using assms(1) by (induction rule: rtranclp_induct) (auto intro: serve_inv_start serve_inv_step [OF _ assms(2)])

definition serving_left :: "serving \<Rightarrow> nat" where
  "serving_left g = (case g of InCall \<Rightarrow> 2 | Sending e \<Rightarrow> 1 | Gone \<Rightarrow> 0)"

definition serve_left :: "serve_state \<Rightarrow> nat" where
  "serve_left s = connections s + serving_left (goroutine s) + (if serve_main s = InShutdown then 1 else 0)"

definition shutting_down :: "serve_state \<Rightarrow> bool" where
  "shutting_down s \<longleftrightarrow> listener_Closed s \<and> ctx_Cancelled s \<and> serve_main s \<noteq> Selecting \<and>
     (goroutine s \<noteq> Gone \<longrightarrow> errCh s = [])"

definition all_over :: "serve_state \<Rightarrow> bool" where
  "all_over s \<longleftrightarrow> goroutine s = Gone \<and> connections s = 0 \<and> (\<exists>r. serve_main s = Returned r)"

interpretation shutdown: draining "serve_step fails closed" shutting_down all_over serve_left
proof
  show "shutting_down t" if "shutting_down s" "serve_step fails closed s t" for s t
    using that(2,1) by cases (auto simp: shutting_down_def)
  show "serve_left t < serve_left s" if "shutting_down s" "serve_step fails closed s t" for s t
    using that(2,1) by cases (auto simp: shutting_down_def serve_left_def serving_left_def)
  show "\<exists>t. serve_step fails closed s t" if "shutting_down s" "\<not> all_over s" for s
  proof (cases "goroutine s")
    case InCall
    then show ?thesis using that serving_closed by (auto simp: shutting_down_def)
  next
    case (Sending e)
    then show ?thesis using that send by (fastforce simp: shutting_down_def)
  next
    case Gone
    then show ?thesis
      using that answered shut_down
      by (cases "connections s"; cases "serve_main s") (fastforce simp: shutting_down_def all_over_def)+
  qed
qed

section \<open>The cron scheduler\<close>

datatype cron_main = AwaitingCancel | Stopping | CronReturned

record cron_state =
  cron_Cancelled :: bool
  cron_Running :: bool
  jobs_running :: nat
  cron_main :: cron_main

definition cron_start :: cron_state where
  "cron_start = \<lparr>cron_Cancelled = False, cron_Running = True, jobs_running = 0, cron_main = AwaitingCancel\<rparr>"

inductive cron_step :: "cron_state \<Rightarrow> cron_state \<Rightarrow> bool" where
  fire: "cron_Running s \<Longrightarrow> cron_step s (s\<lparr>jobs_running := Suc (jobs_running s)\<rparr>)"
| job_done: "jobs_running s = Suc n \<Longrightarrow> cron_step s (s\<lparr>jobs_running := n\<rparr>)"
| cancel: "\<not> cron_Cancelled s \<Longrightarrow> cron_step s (s\<lparr>cron_Cancelled := True\<rparr>)"
| stop: "cron_main s = AwaitingCancel \<Longrightarrow> cron_Cancelled s \<Longrightarrow>
    cron_step s (s\<lparr>cron_Running := False, cron_main := Stopping\<rparr>)"
| stopped: "cron_main s = Stopping \<Longrightarrow> jobs_running s = 0 \<Longrightarrow> cron_step s (s\<lparr>cron_main := CronReturned\<rparr>)"

definition cron_inv :: "cron_state \<Rightarrow> bool" where
  "cron_inv s \<longleftrightarrow> (cron_main s = AwaitingCancel \<longleftrightarrow> cron_Running s) \<and>
     (cron_main s \<noteq> AwaitingCancel \<longrightarrow> cron_Cancelled s) \<and>
     (cron_main s = CronReturned \<longrightarrow> jobs_running s = 0)"

lemma cron_inv_run: "cron_step\<^sup>*\<^sup>* cron_start s \<Longrightarrow> cron_inv s"
proof (induction rule: rtranclp_induct)
  case (step s t)
  from step(2,3) show ?case by cases (auto simp: cron_inv_def)
qed (simp add: cron_inv_def cron_start_def)

definition cron_left :: "cron_state \<Rightarrow> nat" where
  "cron_left s = jobs_running s + (if cron_main s = Stopping then 1 else 0)"

definition winding_down :: "cron_state \<Rightarrow> bool" where
  "winding_down s \<longleftrightarrow> cron_Cancelled s \<and> \<not> cron_Running s \<and> cron_main s \<noteq> AwaitingCancel"

interpretation wind_down: draining cron_step winding_down "\<lambda>s. cron_main s = CronReturned \<and> jobs_running s = 0" cron_left
proof
  show "winding_down t" if "winding_down s" "cron_step s t" for s t
    using that(2,1) by cases (auto simp: winding_down_def)
  show "cron_left t < cron_left s" if "winding_down s" "cron_step s t" for s t
    using that(2,1) by cases (auto simp: winding_down_def cron_left_def)
  show "\<exists>t. cron_step s t" if "winding_down s" "\<not> (cron_main s = CronReturned \<and> jobs_running s = 0)" for s
    using that job_done stopped by (cases "jobs_running s"; cases "cron_main s") (auto simp: winding_down_def)
qed

section \<open>Properties\<close>

text \<open>
  C24: how the API server ends is explained. In every interleaving of requests, failures, the
  cancellation and the goroutine, \<open>ListenAndServe\<close> returns, when it took the cancellation and began to
  shut down, what closing the listener returned, with every accepted request answered; and when it
  did not, an error of the serving call, wrapped and never \<open>ErrServerClosed\<close>. The second may happen
  after the cancellation too: when both are ready, \<open>select\<close> may take the error. The goroutine never blocks on the channel, whose one place is free when it sends. But
  while a single connection is open the shutdown does not return: it has no deadline.
\<close>

theorem ListenAndServe_outcome:
  assumes "(serve_step (fails (serveCall TLSCertDir)) closed)\<^sup>*\<^sup>* serve_start s"
    and "ErrServerClosed \<notin> fails (serveCall TLSCertDir)"
  shows "(\<forall>r. serve_main s = Returned r \<longrightarrow>
       (if listener_Closed s then ctx_Cancelled s \<and> connections s = 0 \<and> r = closed
        else \<exists>e \<in> fails (serveCall TLSCertDir). r = Inl (Wrapped ''http server'' e))) \<and>
    (\<forall>e. goroutine s = Sending e \<longrightarrow>
       serve_step (fails (serveCall TLSCertDir)) closed s (s\<lparr>goroutine := Gone, errCh := [e]\<rparr>)) \<and>
    (listener_Closed s \<and> 0 < connections s \<longrightarrow> serve_main s = InShutdown)"
proof -
  let ?fails = "fails (serveCall TLSCertDir)"
  note inv = serve_inv_run [OF assms]
  have "serve_step ?fails closed s (s\<lparr>goroutine := Gone, errCh := [e]\<rparr>)" if "goroutine s = Sending e" for e
    using send [OF that, of ?fails closed] inv that by (simp add: serve_inv_def)
  then show ?thesis
    using inv by (cases "serve_main s") (auto simp: serve_inv_def split: if_splits)
qed

text \<open>
  C25: the API server's shutdown ends and leaves nothing behind. Once the listener is closed, any
  further run takes at most as many steps as there are open connections, and three more; where it
  can go no further every request was answered, the goroutine has gone, and \<open>ListenAndServe\<close> has
  returned the result of closing the listener.
\<close>

theorem ListenAndServe_drains:
  assumes "(serve_step (fails (serveCall TLSCertDir)) closed)\<^sup>*\<^sup>* serve_start s"
    and "ErrServerClosed \<notin> fails (serveCall TLSCertDir)" and "listener_Closed s"
  shows "(\<forall>n t. ((serve_step (fails (serveCall TLSCertDir)) closed) ^^ n) s t \<longrightarrow> n \<le> connections s + 3) \<and>
    (\<forall>t. (serve_step (fails (serveCall TLSCertDir)) closed)\<^sup>*\<^sup>* s t \<and>
         (\<nexists>u. serve_step (fails (serveCall TLSCertDir)) closed t u) \<longrightarrow>
       connections t = 0 \<and> goroutine t = Gone \<and> serve_main t = Returned closed)"
proof (intro conjI allI impI)
  note inv = serve_inv_run [OF assms(1,2)]
  have closing: "shutting_down s" using inv assms(3) by (auto simp: serve_inv_def shutting_down_def)
  have left_le: "serve_left s \<le> connections s + 3"
    by (auto simp: serve_left_def serving_left_def split: serving.splits)
  show "n \<le> connections s + 3" if "((serve_step (fails (serveCall TLSCertDir)) closed) ^^ n) s t" for n t
    using shutdown.drains(1) [OF closing that] left_le by linarith
  fix t
  assume run: "(serve_step (fails (serveCall TLSCertDir)) closed)\<^sup>*\<^sup>* s t \<and>
    (\<nexists>u. serve_step (fails (serveCall TLSCertDir)) closed t u)"
  have "all_over t" using shutdown.drains(2) [OF closing] run by blast
  moreover have "listener_Closed t" using shutdown.closing_run [OF _ closing] run by (auto simp: shutting_down_def)
  moreover have "serve_inv (fails (serveCall TLSCertDir)) closed t"
    using serve_inv_run [OF rtranclp_trans [OF assms(1)] assms(2)] run by blast
  ultimately show "connections t = 0" "goroutine t = Gone" "serve_main t = Returned closed"
    by (auto simp: all_over_def serve_inv_def)
qed

text \<open>
  The scheduler stops without cutting a backup off. \<open>Start\<close> returns only after its context was
  cancelled, no more job can start and every running backup has ended; from the moment it has told
  the cron library to stop, it returns within as many steps as jobs are running, and one more.
\<close>

theorem scheduler_Start_drains:
  assumes "cron_step\<^sup>*\<^sup>* cron_start s"
  shows "(cron_main s = CronReturned \<longrightarrow> cron_Cancelled s \<and> \<not> cron_Running s \<and> jobs_running s = 0) \<and>
    (cron_main s \<noteq> AwaitingCancel \<longrightarrow>
       (\<forall>n t. (cron_step ^^ n) s t \<longrightarrow> n \<le> jobs_running s + 1) \<and>
       (\<forall>t. cron_step\<^sup>*\<^sup>* s t \<and> (\<nexists>u. cron_step t u) \<longrightarrow> cron_main t = CronReturned))"
proof -
  note inv = cron_inv_run [OF assms]
  have closing: "winding_down s" if "cron_main s \<noteq> AwaitingCancel"
    using inv that by (simp add: cron_inv_def winding_down_def)
  have left_le: "cron_left s \<le> jobs_running s + 1" by (simp add: cron_left_def)
  have "n \<le> jobs_running s + 1" if "cron_main s \<noteq> AwaitingCancel" "(cron_step ^^ n) s t" for n t
    using wind_down.drains(1) [OF closing [OF that(1)] that(2)] left_le by linarith
  moreover have "cron_main t = CronReturned"
    if "cron_main s \<noteq> AwaitingCancel" "cron_step\<^sup>*\<^sup>* s t" "\<nexists>u. cron_step t u" for t
    using wind_down.drains(2) [OF closing [OF that(1)] that(2,3)] by simp
  moreover have "cron_main s = CronReturned \<longrightarrow> cron_Cancelled s \<and> \<not> cron_Running s \<and> jobs_running s = 0"
    using inv by (auto simp: cron_inv_def)
  ultimately show ?thesis by blast
qed

section \<open>Witnesses\<close>

text \<open>A run in which the context is cancelled while a request is being answered.\<close>

definition busy_shutdown :: serve_state where
  "busy_shutdown = \<lparr>ctx_Cancelled = True, listener_Closed = True, connections = 1, goroutine = InCall,
     errCh = [], serve_main = InShutdown\<rparr>"

definition accept_fails :: "serve_call \<Rightarrow> go_error set" where
  "accept_fails c = {ErrorString ''accept: too many open files''}"

lemma busy_shutdown_reached: "(serve_step (accept_fails c) (Inr ()))\<^sup>*\<^sup>* serve_start busy_shutdown"
proof -
  let ?step = "serve_step (accept_fails c) (Inr ())"
  let ?s1 = "serve_start\<lparr>connections := Suc (connections serve_start)\<rparr>"
  let ?s2 = "?s1\<lparr>ctx_Cancelled := True\<rparr>"
  have "?step serve_start ?s1" by (rule accept) (simp_all add: serve_start_def)
  moreover have "?step ?s1 ?s2" by (rule serve_step.cancel) (simp add: serve_start_def)
  moreover have "?step ?s2 (?s2\<lparr>serve_main := InShutdown, listener_Closed := True\<rparr>)"
    by (rule select_done) (simp_all add: serve_start_def)
  moreover have "?s2\<lparr>serve_main := InShutdown, listener_Closed := True\<rparr> = busy_shutdown"
    by (simp add: serve_start_def busy_shutdown_def)
  ultimately show ?thesis by (metis rtranclp.simps)
qed

lemma not_closed_error: "ErrServerClosed \<notin> accept_fails c"
  by (simp add: ErrServerClosed_def accept_fails_def)

theorem ListenAndServe_outcome_witness: "serve_main busy_shutdown = InShutdown"
  using ListenAndServe_outcome [where fails = accept_fails and TLSCertDir = "''/certs''", OF busy_shutdown_reached not_closed_error]
  by (simp add: busy_shutdown_def)

theorem ListenAndServe_drains_witness:
  "\<nexists>t. ((serve_step (accept_fails (serveCall ''/certs'')) (Inr ())) ^^ 5) busy_shutdown t"
  using ListenAndServe_drains [where fails = accept_fails and TLSCertDir = "''/certs''",
      OF busy_shutdown_reached not_closed_error, THEN conjunct1, rule_format, of 5]
  by (fastforce simp: busy_shutdown_def)

text \<open>The scheduler is stopped while one backup runs.\<close>

definition busy_stop :: cron_state where
  "busy_stop = \<lparr>cron_Cancelled = True, cron_Running = False, jobs_running = 1, cron_main = Stopping\<rparr>"

lemma busy_stop_reached: "cron_step\<^sup>*\<^sup>* cron_start busy_stop"
proof -
  let ?s1 = "cron_start\<lparr>jobs_running := Suc (jobs_running cron_start)\<rparr>"
  let ?s2 = "?s1\<lparr>cron_Cancelled := True\<rparr>"
  have "cron_step cron_start ?s1" by (rule fire) (simp add: cron_start_def)
  moreover have "cron_step ?s1 ?s2" by (rule cron_step.cancel) (simp add: cron_start_def)
  moreover have "cron_step ?s2 (?s2\<lparr>cron_Running := False, cron_main := Stopping\<rparr>)"
    by (rule stop) (simp_all add: cron_start_def)
  moreover have "?s2\<lparr>cron_Running := False, cron_main := Stopping\<rparr> = busy_stop"
    by (simp add: cron_start_def busy_stop_def)
  ultimately show ?thesis by (metis rtranclp.simps)
qed

theorem scheduler_Start_drains_witness: "\<nexists>t. (cron_step ^^ 3) busy_stop t"
  using scheduler_Start_drains [OF busy_stop_reached] by (fastforce simp: busy_stop_def)

end
