(* ===== verification/Scheme.thy ===== *)
theory Scheme
  imports Startup
begin

text \<open>
  The scheme: which Go type stands for which kind of object. The types of the API group register
  themselves with the group's builder (\<open>api/v1/groupversion_info.go\<close> and the \<open>init\<close> functions
  beside the types), and \<open>init\<close> of \<open>cmd/main.go\<close> adds the group to the scheme of the manager after
  the types of client-go, which are a parameter.
\<close>

record group_version =
  gv_Group :: string
  gv_Version :: string

definition SchemeGroupVersion :: group_version where
  "SchemeGroupVersion = \<lparr>gv_Group = ''observability.merlionos.org'', gv_Version = ''v1''\<rparr>"

datatype go_type =
    PrometheusClusterType
  | PrometheusClusterListType
  | PrometheusClusterSetType
  | PrometheusClusterSetListType
  | ClientGoType string

text \<open>A type is registered under the name Go's reflection gives.\<close>

primrec type_name :: "go_type \<Rightarrow> string" where
  "type_name PrometheusClusterType = ''PrometheusCluster''"
| "type_name PrometheusClusterListType = ''PrometheusClusterList''"
| "type_name PrometheusClusterSetType = ''PrometheusClusterSet''"
| "type_name PrometheusClusterSetListType = ''PrometheusClusterSetList''"
| "type_name (ClientGoType n) = n"

type_synonym scheme = "group_version \<times> string \<rightharpoonup> go_type"

record scheme_builder =
  sb_GroupVersion :: group_version
  sb_Objects :: "go_type list"

definition RegisterObjects :: "go_type list \<Rightarrow> scheme_builder \<Rightarrow> scheme_builder" where
  "RegisterObjects objs b = b\<lparr>sb_Objects := sb_Objects b @ objs\<rparr>"

definition cluster_init :: "scheme_builder \<Rightarrow> scheme_builder" where
  "cluster_init = RegisterObjects [PrometheusClusterType, PrometheusClusterListType]"

definition set_init :: "scheme_builder \<Rightarrow> scheme_builder" where
  "set_init = RegisterObjects [PrometheusClusterSetType, PrometheusClusterSetListType]"

text \<open>
  Adding a type under a kind that another type has is a panic, \<open>None\<close>; adding it again is not.
\<close>

definition AddKnownType :: "group_version \<Rightarrow> go_type \<Rightarrow> scheme \<Rightarrow> scheme option" where
  "AddKnownType gv ty sch =
     (case sch (gv, type_name ty) of
        Some old \<Rightarrow> if old = ty then Some sch else None
      | None \<Rightarrow> Some (sch((gv, type_name ty) \<mapsto> ty)))"

fun AddKnownTypes :: "group_version \<Rightarrow> go_type list \<Rightarrow> scheme \<Rightarrow> scheme option" where
  "AddKnownTypes gv [] sch = Some sch"
| "AddKnownTypes gv (ty # tys) sch = Option.bind (AddKnownType gv ty sch) (AddKnownTypes gv tys)"

definition AddToScheme :: "scheme_builder \<Rightarrow> scheme \<Rightarrow> scheme option" where
  "AddToScheme b = AddKnownTypes (sb_GroupVersion b) (sb_Objects b)"

definition SchemeBuilder :: scheme_builder where
  "SchemeBuilder = \<lparr>sb_GroupVersion = SchemeGroupVersion, sb_Objects = []\<rparr>"

text \<open>The start of the process: \<open>init\<close> of the API package, file by file, then of \<open>main\<close>.\<close>

definition main_init :: "(scheme \<Rightarrow> scheme option) \<Rightarrow> scheme option" where
  "main_init clientgo =
     Option.bind (clientgo Map.empty) (AddToScheme (set_init (cluster_init SchemeBuilder)))"

text \<open>Where the scheme must know a kind that a controller works with.\<close>

definition kind_id :: "kind \<Rightarrow> group_version \<times> string" where
  "kind_id kd =
     (case kd of
        PrometheusClusterKind \<Rightarrow> (SchemeGroupVersion, ''PrometheusCluster'')
      | PrometheusClusterSetKind \<Rightarrow> (SchemeGroupVersion, ''PrometheusClusterSet'')
      | StatefulSetKind \<Rightarrow> (\<lparr>gv_Group = ''apps'', gv_Version = ''v1''\<rparr>, ''StatefulSet'')
      | ServiceKind \<Rightarrow> (\<lparr>gv_Group = [], gv_Version = ''v1''\<rparr>, ''Service'')
      | ConfigMapKind \<Rightarrow> (\<lparr>gv_Group = [], gv_Version = ''v1''\<rparr>, ''ConfigMap''))"

locale client_go_scheme =
  fixes clientgo :: "scheme \<Rightarrow> scheme option" and base :: scheme
  assumes added: "clientgo Map.empty = Some base"
    and no_group: "base (SchemeGroupVersion, n) = None"
    and workloads: "kd \<in> {StatefulSetKind, ServiceKind, ConfigMapKind} \<Longrightarrow>
      base (kind_id kd) = Some (ClientGoType (snd (kind_id kd)))"
begin

lemma group_added:
  "main_init clientgo = Some (base
     ((SchemeGroupVersion, ''PrometheusCluster'') \<mapsto> PrometheusClusterType,
      (SchemeGroupVersion, ''PrometheusClusterList'') \<mapsto> PrometheusClusterListType,
      (SchemeGroupVersion, ''PrometheusClusterSet'') \<mapsto> PrometheusClusterSetType,
      (SchemeGroupVersion, ''PrometheusClusterSetList'') \<mapsto> PrometheusClusterSetListType))"
  by (simp add: main_init_def added AddToScheme_def set_init_def cluster_init_def RegisterObjects_def
      SchemeBuilder_def AddKnownType_def no_group)

end

section \<open>Property\<close>

text \<open>
  The process does not panic before \<open>main\<close>, and the scheme then knows every kind that a controller
  is for, owns or watches and the list of every kind a controller is for, each as its own Go type;
  the types of client-go are as they were.
\<close>

theorem scheme_knows_every_kind:
  assumes "client_go_scheme clientgo base"
  shows "\<exists>sch. main_init clientgo = Some sch \<and>
    (\<forall>cfg \<in> {cluster_SetupWithManager, set_SetupWithManager}.
       (\<forall>kd \<in> {cc_For cfg} \<union> set (cc_Owns cfg) \<union> set (cc_Watches cfg).
          \<exists>ty. sch (kind_id kd) = Some ty \<and> type_name ty = snd (kind_id kd)) \<and>
       (\<exists>ty. sch (fst (kind_id (cc_For cfg)), snd (kind_id (cc_For cfg)) @ ''List'') = Some ty \<and>
          type_name ty = snd (kind_id (cc_For cfg)) @ ''List'')) \<and>
    (\<forall>k. fst k \<noteq> SchemeGroupVersion \<longrightarrow> sch k = base k)"
proof -
  have w: "base (\<lparr>gv_Group = ''apps'', gv_Version = ''v1''\<rparr>, ''StatefulSet'') = Some (ClientGoType ''StatefulSet'')"
    "base (\<lparr>gv_Group = [], gv_Version = ''v1''\<rparr>, ''Service'') = Some (ClientGoType ''Service'')"
    "base (\<lparr>gv_Group = [], gv_Version = ''v1''\<rparr>, ''ConfigMap'') = Some (ClientGoType ''ConfigMap'')"
    using client_go_scheme.workloads [OF assms, of StatefulSetKind] client_go_scheme.workloads [OF assms, of ServiceKind]
      client_go_scheme.workloads [OF assms, of ConfigMapKind] by (simp_all add: kind_id_def)
  show ?thesis
    unfolding client_go_scheme.group_added [OF assms]
    by (intro exI conjI, rule refl)
      (auto simp: cluster_SetupWithManager_def set_SetupWithManager_def kind_id_def SchemeGroupVersion_def w)
qed

definition small_client_go :: scheme where
  "small_client_go = map_of (map (\<lambda>kd. (kind_id kd, ClientGoType (snd (kind_id kd)))) [StatefulSetKind, ServiceKind, ConfigMapKind])"

interpretation small_scheme: client_go_scheme "\<lambda>sch. Some (sch ++ small_client_go)" small_client_go
  by unfold_locales (auto simp: small_client_go_def kind_id_def SchemeGroupVersion_def)

theorem scheme_knows_every_kind_witness:
  "\<exists>sch. main_init (\<lambda>sch. Some (sch ++ small_client_go)) = Some sch \<and>
     sch (kind_id PrometheusClusterSetKind) = Some PrometheusClusterSetType"
proof -
  obtain sch ty where "main_init (\<lambda>sch. Some (sch ++ small_client_go)) = Some sch"
    "sch (kind_id PrometheusClusterSetKind) = Some ty" "type_name ty = ''PrometheusClusterSet''"
    using scheme_knows_every_kind [OF small_scheme.client_go_scheme_axioms]
    by (auto simp: set_SetupWithManager_def kind_id_def)
  moreover have "sch (kind_id PrometheusClusterSetKind) = Some PrometheusClusterSetType"
    using calculation(1) unfolding small_scheme.group_added by (auto simp: kind_id_def)
  ultimately show ?thesis by blast
qed

end
