(* ===== verification/Spec2Isabelle.thy ===== *)
theory Spec2Isabelle
  imports OperatorWitnesses SetWitnesses Webhook CtlWitnesses ContestedWitnesses DeepCopyWitnesses
    OwnershipWitnesses BackupClientWitnesses Lifecycle Scheme
begin

text \<open>
  \<^bold>\<open>A verification development of tsdb-operator\<close>

  tsdb-operator is a Kubernetes operator for Prometheus. From a \<open>PrometheusCluster\<close> it keeps a
  ConfigMap, a headless Service and a StatefulSet in place, takes backups into an S3 bucket on a
  cron schedule, deletes replicas that do not answer, spreads a backup template over the
  clusters a \<open>PrometheusClusterSet\<close> selects, validates clusters on admission, serves a small
  REST API and keeps an audit log. \<open>tsdb-ctl\<close> lists and downloads the backups.

  \<^bold>\<open>The parts and their theories.\<close> File names are those under \<open>src/\<close>.
  \<^item> \<open>Prelude\<close>: Go's fixed-width integers as words, errors as values (\<open>go_error\<close>, looked through
    like wrapped errors), operations that may fail (\<open>attempt\<close> is the pattern
    "call, and return a wrapped error if it failed"), and \<open>keeps P f\<close>: running \<open>f\<close> relates its
    states by \<open>P\<close>.
  \<^item> \<open>GoStrings\<close>: the text functions of Go's library that the rendered text rests on.
  \<^item> \<open>ApiTypes\<close> (\<open>api/v1\<close>), \<open>CoreTypes\<close> (the fields of core and apps objects the operator
    reads or writes), \<open>Metrics\<close> (\<open>internal/metrics/metrics.go\<close>).
  \<^item> \<open>KubeClient\<close>: the API server as the operator sees it, the state of the operator process
    (\<open>process\<close>: the outside world, the metrics, the scheduler's entries) and the laws of the
    API server as locales.
  \<^item> \<open>ConfigRender\<close>, \<open>StatefulSetBuilder\<close>, \<open>ClusterReconciler\<close>, \<open>ClusterGuarantees\<close>
    (\<open>internal/controller/prometheuscluster_controller.go\<close>): the generated configuration, the
    generated pods, \<open>Reconcile\<close> with every call and early return, and what it guarantees.
  \<^item> \<open>TarStream\<close>, \<open>BackupScheduler\<close> (\<open>internal/backup/backup.go\<close>): the goroutine, the pipe and
    the upload of \<open>tarStreamToS3\<close> as a step relation, and \<open>Register\<close> and \<open>RunOnce\<close>.
  \<^item> \<open>HealthChecker\<close> (\<open>internal/ha/ha.go\<close>): one pass over all clusters and pods, and the loop.
  \<^item> \<open>ClusterSetReconciler\<close> (\<open>internal/controller/prometheusclusterset_*.go\<close>): membership, the
    overlay of the backup template, the reported status, and what a change enqueues.
  \<^item> \<open>Webhook\<close> (\<open>internal/webhook\<close>): the rules of \<open>validate\<close> and their errors.
  \<^item> \<open>AuditLog\<close> (\<open>internal/audit/audit.go\<close>): recording, querying and pruning a table of rows.
  \<^item> \<open>RestApi\<close> (\<open>pkg/api/server.go\<close>): the router and its handlers.
  \<^item> \<open>BackupClients\<close> (\<open>internal/backup/exec.go\<close>, \<open>s3client.go\<close>): the executor and the upload the
    scheduler is given in production, and which commands a backup runs in which pod.
  \<^item> \<open>Operator\<close> (\<open>cmd/main.go\<close>): how the components are wired, and the runs of the process,
    in which their operations follow one another in any order and the world acts in between.
  \<^item> \<open>Startup\<close> (\<open>cmd/main.go\<close>, the \<open>SetupWithManager\<close> methods): the flags, the options of every
    server, and \<open>main\<close> from the parsed command line to the end of the process.
  \<^item> \<open>Scheme\<close> (\<open>api/v1/groupversion_info.go\<close> and the \<open>init\<close> functions): which Go type the manager's
    scheme knows for which kind.
  \<^item> \<open>Lifecycle\<close>: \<open>ListenAndServe\<close> of the API server and \<open>Start\<close> of the scheduler as step relations,
    with what is still in flight when their context is cancelled.
  \<^item> \<open>Ownership\<close>: what the owner references of a pass and the controllers' configuration mean
    together: which changes come back to the reconciler, and whose objects are overwritten.
  \<^item> \<open>Interference\<close>, \<open>ContestedPasses\<close>: the passes of the reconcilers, of the scheduler and of the
    health checker when other writers act between any two of their API calls.
  \<^item> \<open>GoMemory\<close>, \<open>DeepCopy\<close> (\<open>api/v1/zz_generated.deepcopy.go\<close>): Go's pointers, slices and maps as
    cells of a memory, and the generated deep copies on it.
  \<^item> \<open>TsdbCtl\<close> (\<open>cmd/tsdb-ctl/main.go\<close>): listing and downloading backups.
  \<^item> \<open>MemoryKube\<close> and the theories named \<open>...Witnesses\<close>: a reference world in memory (an API
    server, a cron library, a bucket, an audit table, endpoints) on which every locale is
    interpreted, so that the laws assumed of the outside hold together, and on which the
    properties are applied to concrete states.

  \<^bold>\<open>How code corresponds to definitions.\<close> A struct is a record, an enum of the API a string
  constant, an \<open>int32\<close> a 32-bit word. A function or method is a definition of the same name (the
  set reconciler's \<open>Reconcile\<close> is \<open>ReconcileSet\<close>, \<open>list\<close> of \<open>tsdb-ctl\<close> is \<open>list_snapshots\<close>, since
  the names were taken); a method of many steps is split into definitions that are composed
  as the code composes them. A method that changes state takes the process state and returns
  its result, an error on the left or a value on the right, with the next state. The goroutines of
  \<open>tarStreamToS3\<close> and \<open>ListenAndServe\<close> are steps of a relation (\<open>TarStream\<close>, \<open>Lifecycle\<close>). Elsewhere
  an operation is a function; \<open>Operator\<close> lets whole operations interleave, and
  \<open>Interference\<close> runs the same definitions on a contested server, whose state others change before
  every call. Values are HOL values, except in \<open>DeepCopy\<close>, where sharing is the point. Logging has
  no effect in the model.

  \<^bold>\<open>What is a parameter.\<close> The API server's client, \<open>controllerutil\<close>, label selectors, the cron
  library, the HTTP, S3, exec and event clients, the database, the clock, JSON and YAML
  decoding, \<open>time.Format\<close>, \<open>resource.Quantity\<close> and the file system are arguments of the
  definitions. What is relied on is stated in locales: \<open>resource_scope\<close>, \<open>kube_scope\<close>,
  \<open>kube_live\<close> (reads change nothing, a write touches the object it names at most, a failed write
  leaves the old or the new object, an idle server accepts a write that is up to date when the
  parameter \<open>admission\<close> lets the object in: name rules, immutable fields and webhooks are the
  server's, and the properties of an idle server say which objects it must accept),
  \<open>controller_util\<close>, \<open>cron_lib\<close>, \<open>backup_env\<close>, \<open>health_env\<close> (nothing is assumed of probes, of the
  success of a Delete or of events), \<open>set_env\<close>, \<open>audit_table\<close> (what the SQL statements do to a
  table), \<open>api_env\<close>, \<open>api_log\<close>, \<open>operator_env\<close> (only the scheduler reaches the cron library),
  \<open>setup_platform\<close> (the platform logs what it is asked for, with the result), \<open>client_go_scheme\<close>,
  \<open>execution_log\<close> (the outside logs the calls of a backup, with their results),
  \<open>controller_requests\<close>, \<open>owning_reconcile\<close>, \<open>library_copies\<close> (library types are copied deeply) and
  \<open>ctl_files\<close>. On a contested server \<open>stale_kube\<close> states optimistic locking: a write names the
  version it was made for and is refused when the object has another; reads may lag behind. Failures
  are never excluded: a call may fail at any point unless a property speaks of an idle server.

  \<^bold>\<open>What is shown.\<close>
  \<^item> A successful reconcile pass leaves configuration, Service and StatefulSet in place for the
    specification it read and reports phase and replicas; any pass touches its own objects only
    and of the cluster only status and finalizers; pods are never rolled out before
    the configuration they mount; deletion is clean; scaling is reported once and then over;
    new clusters, also those created over the REST API, are provisioned in two passes; changes of
    what a pass wrote are requests for the cluster again.
  \<^item> With other writers in the middle of a pass, each of its own writes changes only what it is for,
    as the object then stands: edits of users, opt-outs and other finalizers survive.
  \<^item> The scheduler refines a map from clusters to schedules, and in every run of the whole
    operator there is at most one job per cluster; a successful backup stamps what it uploaded. It
    runs two commands at most, in its own pod, and removes a snapshot only after all of it was
    uploaded.
  \<^item> The tar stream always ends, without deadlock, and succeeds only when all of the archive was
    uploaded.
  \<^item> The health checker asks to delete exactly the replicas that fail, carries on when the server
    refuses, and changes pods and cluster statuses only.
  \<^item> A set reports exactly its members; the overlay reaches exactly the members that want it.
  \<^item> The webhook accepts exactly the well-formed specifications, and what it accepts the
    scheduler can schedule.
  \<^item> The pruner keeps every row of the retention period and removes the others; what is
    recorded is read back first; the API touches at most the cluster the request names and
    submits its mutations to the log.
  \<^item> A YAML reader gets the remote-write targets back from the rendered configuration; user scrape entries lose nothing; the pods'
    mounts refer to volumes that exist.
  \<^item> \<open>tsdb-ctl\<close> writes exactly the bytes of the object it was asked for, to one file, and without a
    key picks what it lists first.
  \<^item> \<open>main\<close> starts the manager after all of its plan succeeded, or exits with the message of the first
    call that failed; the servers are hardened as the flags say. The API server and the scheduler
    end, leave no goroutine, request or backup behind, and return what they should.
  \<^item> The scheme knows every kind the controllers work with, as its own Go type.
  \<^item> A deep copy is well typed, equal to the original and shares no memory with it.

  \<^bold>\<open>Where the code falls short\<close> is stated as properties too: remote-write credentials that are
  never mounted, the cron job lost to a schedule that does not parse, error answers stored as
  backups, upload errors reported as tar errors, the retention period that overflows and empties
  the log, configuration injected through a Secret key, the backup route that is never
  configured, the download that destroys the local copy, the listing of one page that misses the
  newest backup, the finished backup that counts as failed when the cluster was changed meanwhile, the
  failover that deletes the replacement of the failed pod, the foreign StatefulSet that is
  overwritten, the snapshot name that reaches \<open>rm -rf\<close> unchecked (\<open>data_directory_removed\<close>), the S3
  settings of a cluster that nothing reads, the webhook without a certificate, and the shutdown
  without a deadline. Those that are not among the numbered properties are theorems all the same.

  \<^bold>\<open>Bounds.\<close> There is no fuel: the loops of the program run over lists. The endless loops
  (\<open>Start\<close> of the health checker and of the pruner) are given the number of their ticks or the
  list of what happens between them, and their properties hold for all of these. The tar stream's
  termination is by a measure that every step decreases, as is that of the shutdowns (\<open>draining\<close>), which
  bounds their steps by the requests or jobs in flight. The retention arithmetic is exact up to
  106751 days, the most that fits a 64-bit duration, and shown to wrap at 106752.

  \<^bold>\<open>Not modelled.\<close> The manager's caches and work queues beyond their laws; signal handling and
  the logging flags; time limits of the HTTP clients; the end-to-end tests' helpers
  (\<open>test/utils\<close>).
\<close>

end
